(* ===== verification/Json.thy ===== *)
theory Json
  imports Prelude
begin

text \<open>
  The values a resource spec (\<open>map[string]any\<close>) can hold and what package \<open>encoding/json\<close> makes
  of them: \<open>json.Marshal\<close> (\<open>marshal\<close>) and \<open>json.Unmarshal\<close> into \<open>any\<close> (\<open>unmarshal\<close>).
  The main result is the round trip \<open>unmarshal (marshal v) = Some v\<close> on well-formed values, from
  which the injectivity of the encoder follows: the store compares specs by their encoding.

  A \<open>float64\<close> is kept as its shortest decimal \<open>(-1)^s * m * 10^e\<close>, the form \<open>strconv\<close> prints;
  \<open>wf_json\<close> admits mantissas below \<open>10^15\<close>, the decimals that survive the trip through a
  \<open>float64\<close> unchanged. An object is the list of its entries in key order.
\<close>

section \<open>Values\<close>

datatype json =
    JNull
  | JBool bool
  | JNum bool nat int            \<comment> \<open>\<open>float64\<close>: sign, mantissa, decimal exponent\<close>
  | JInt int                     \<comment> \<open>a Go \<open>int\<close> placed by a programmatic caller\<close>
  | JStr string
  | JArr "json list"             \<comment> \<open>\<open>[]any\<close>\<close>
  | JStrs "string list"          \<comment> \<open>a Go \<open>[]string\<close> placed by a programmatic caller\<close>
  | JObj "(string \<times> json) list" \<comment> \<open>\<open>map[string]any\<close>, entries in key order\<close>

type_synonym jobj = "(string \<times> json) list"

text \<open>Assignment \<open>m[k] = v\<close> on a map kept in key order.\<close>

fun obj_put :: "string \<Rightarrow> 'v \<Rightarrow> (string \<times> 'v) list \<Rightarrow> (string \<times> 'v) list" where
  "obj_put k v [] = [(k, v)]"
| "obj_put k v ((k', v') # m) =
     (if k < k' then (k, v) # (k', v') # m
      else if k = k' then (k, v) # m
      else (k', v') # obj_put k v m)"

section \<open>UTF-8\<close>

definition in_range :: "nat \<Rightarrow> nat \<Rightarrow> char \<Rightarrow> bool" where
  "in_range lo hi c \<longleftrightarrow> lo \<le> byte c \<and> byte c \<le> hi"

abbreviation cont_byte :: "char \<Rightarrow> bool" where
  "cont_byte c \<equiv> in_range 0x80 0xBF c"

text \<open>\<open>utf8.DecodeRuneInString\<close>: the width of the valid encoding at the head, if there is one.\<close>

fun utf8_next :: "string \<Rightarrow> nat option" where
  "utf8_next [] = None"
| "utf8_next (a # s) =
     (if byte a < 0x80 then Some 1
      else if in_range 0xC2 0xDF a then
        (case s of b # _ \<Rightarrow> if cont_byte b then Some 2 else None | _ \<Rightarrow> None)
      else if in_range 0xE0 0xEF a then
        (case s of b # c # _ \<Rightarrow>
           if in_range (if byte a = 0xE0 then 0xA0 else 0x80) (if byte a = 0xED then 0x9F else 0xBF) b
              \<and> cont_byte c then Some 3 else None
         | _ \<Rightarrow> None)
      else if in_range 0xF0 0xF4 a then
        (case s of b # c # d # _ \<Rightarrow>
           if in_range (if byte a = 0xF0 then 0x90 else 0x80) (if byte a = 0xF4 then 0x8F else 0xBF) b
              \<and> cont_byte c \<and> cont_byte d then Some 4 else None
         | _ \<Rightarrow> None)
      else None)"

definition rune_error :: string where
  "rune_error = [CHR 0xEF, CHR 0xBF, CHR 0xBD]"

text \<open>\<open>utf8.AppendRune\<close>.\<close>

definition utf8_enc :: "nat \<Rightarrow> string" where
  "utf8_enc r =
     (if r < 0x80 then [char_of r]
      else if r < 0x800 then [char_of (0xC0 + r div 64), char_of (0x80 + r mod 64)]
      else if (0xD800 \<le> r \<and> r < 0xE000) \<or> r > 0x10FFFF then rune_error
      else if r < 0x10000 then
        [char_of (0xE0 + r div 4096), char_of (0x80 + r div 64 mod 64), char_of (0x80 + r mod 64)]
      else [char_of (0xF0 + r div 262144), char_of (0x80 + r div 4096 mod 64),
            char_of (0x80 + r div 64 mod 64), char_of (0x80 + r mod 64)])"

lemma utf8_next_bounds: "utf8_next s = Some n \<Longrightarrow> 0 < n \<and> n \<le> length s"
  by (cases s) (auto split: if_splits list.splits)

declare utf8_next.simps [simp del]

lemma utf8_next_pos [termination_simp]: "utf8_next s = Some n \<Longrightarrow> 0 < n"
  using utf8_next_bounds by blast

fun valid_utf8 :: "string \<Rightarrow> bool" where
  "valid_utf8 [] = True"
| "valid_utf8 (c # cs) =
     (case utf8_next (c # cs) of None \<Rightarrow> False | Some n \<Rightarrow> valid_utf8 (drop n (c # cs)))"

section \<open>json.Marshal\<close>

definition esc_ascii :: "char \<Rightarrow> string" where
  "esc_ascii c =
     (if c = CHR 0x22 \<or> c = CHR 0x5C then [CHR 0x5C, c]
      else if byte c = 8 then [CHR 0x5C, CHR ''b'']
      else if byte c = 12 then [CHR 0x5C, CHR ''f'']
      else if byte c = 10 then [CHR 0x5C, CHR ''n'']
      else if byte c = 13 then [CHR 0x5C, CHR ''r'']
      else if byte c = 9 then [CHR 0x5C, CHR ''t'']
      else if byte c < 32 \<or> c = CHR ''<'' \<or> c = CHR ''>'' \<or> c = CHR ''&'' then
        [CHR 0x5C, CHR ''u'', CHR ''0'', CHR ''0'', hex_digit (byte c div 16), hex_digit (byte c mod 16)]
      else [c])"

text \<open>The body of a quoted string: HTML-safe escaping, U+2028 and U+2029 escaped, bytes that are
  not UTF-8 replaced by the escape of U+FFFD.\<close>

fun enc_str :: "string \<Rightarrow> string" where
  "enc_str [] = []"
| "enc_str (c # cs) =
     (if byte c < 0x80 then esc_ascii c @ enc_str cs
      else case utf8_next (c # cs) of
        None \<Rightarrow> CHR 0x5C # ''ufffd'' @ enc_str cs
      | Some n \<Rightarrow>
          (if take n (c # cs) = [CHR 0xE2, CHR 0x80, CHR 0xA8] then CHR 0x5C # ''u2028''
           else if take n (c # cs) = [CHR 0xE2, CHR 0x80, CHR 0xA9] then CHR 0x5C # ''u2029''
           else take n (c # cs)) @ enc_str (drop n (c # cs)))"

definition quote_str :: "string \<Rightarrow> string" where
  "quote_str s = CHR 0x22 # enc_str s @ [CHR 0x22]"

text \<open>The float encoder: \<open>%f\<close> form for magnitudes in \<open>[1e-6, 1e21)\<close>, exponent form outside.\<close>

definition enc_num :: "bool \<Rightarrow> nat \<Rightarrow> int \<Rightarrow> string" where
  "enc_num neg m e =
     (if neg then ''-'' else []) @
     (if m = 0 then ''0''
      else let ds = dec m; n = int (length ds) + e; x = n - 1
       in if x < -6 \<or> 21 \<le> x then
            take 1 ds @ (if length ds = 1 then [] else CHR ''.'' # drop 1 ds) @
            CHR ''e'' # (if x < 0 then CHR ''-'' else CHR ''+'') # dec (nat \<bar>x\<bar>)
          else if 0 \<le> e then ds @ replicate (nat e) (CHR ''0'')
          else if 0 < n then take (nat n) ds @ CHR ''.'' # drop (nat n) ds
          else CHR ''0'' # CHR ''.'' # replicate (nat (- n)) (CHR ''0'') @ ds)"

fun marshal :: "json \<Rightarrow> string" where
  "marshal JNull = ''null''"
| "marshal (JBool b) = (if b then ''true'' else ''false'')"
| "marshal (JNum neg m e) = enc_num neg m e"
| "marshal (JInt i) = dec_int i"
| "marshal (JStr s) = quote_str s"
| "marshal (JArr vs) = CHR ''['' # Join '','' (map marshal vs) @ '']''"
| "marshal (JStrs ss) = CHR ''['' # Join '','' (map quote_str ss) @ '']''"
| "marshal (JObj kvs) =
     CHR ''{'' # Join '','' (map (\<lambda>(k, v). quote_str k @ CHR '':'' # marshal v) kvs) @ ''}''"

section \<open>json.Unmarshal\<close>

definition is_ws :: "char \<Rightarrow> bool" where
  "is_ws c \<longleftrightarrow> byte c = 32 \<or> byte c = 9 \<or> byte c = 10 \<or> byte c = 13"

abbreviation skip_ws :: "string \<Rightarrow> string" where
  "skip_ws s \<equiv> dropWhile is_ws s"

definition hex_val :: "char \<Rightarrow> nat option" where
  "hex_val c =
     (if is_digit c then Some (byte c - 48)
      else if in_range 97 102 c then Some (byte c - 87)
      else if in_range 65 70 c then Some (byte c - 55)
      else None)"

fun hex4 :: "string \<Rightarrow> (nat \<times> string) option" where
  "hex4 (a # b # c # d # r) =
     (case (hex_val a, hex_val b, hex_val c, hex_val d) of
        (Some x, Some y, Some z, Some w) \<Rightarrow> Some (x * 4096 + y * 256 + z * 16 + w, r)
      | _ \<Rightarrow> None)"
| "hex4 _ = None"

definition unesc :: "char \<Rightarrow> char option" where
  "unesc c =
     (if c = CHR 0x22 \<or> c = CHR 0x5C \<or> c = CHR ''/'' then Some c
      else if c = CHR ''b'' then Some (CHR 0x08)
      else if c = CHR ''f'' then Some (CHR 0x0C)
      else if c = CHR ''n'' then Some (CHR 0x0A)
      else if c = CHR ''r'' then Some (CHR 0x0D)
      else if c = CHR ''t'' then Some (CHR 0x09)
      else None)"

text \<open>One \<open>\u\<close> escape: a surrogate pair is combined, a lone surrogate becomes U+FFFD.\<close>

definition unicode_escape :: "string \<Rightarrow> (string \<times> string) option" where
  "unicode_escape s =
     (case hex4 s of
        None \<Rightarrow> None
      | Some (r, rest) \<Rightarrow>
          if 0xD800 \<le> r \<and> r < 0xE000 then
            (case rest of
               b # u # t \<Rightarrow>
                 (if b = CHR 0x5C \<and> u = CHR ''u'' \<and> r < 0xDC00 then
                    (case hex4 t of
                       Some (r2, rest2) \<Rightarrow>
                         (if 0xDC00 \<le> r2 \<and> r2 < 0xE000
                          then Some (utf8_enc ((r - 0xD800) * 1024 + (r2 - 0xDC00) + 0x10000), rest2)
                          else Some (rune_error, rest))
                     | None \<Rightarrow> Some (rune_error, rest))
                  else Some (rune_error, rest))
             | _ \<Rightarrow> Some (rune_error, rest))
          else Some (utf8_enc r, rest))"

definition prepend :: "string \<Rightarrow> (string \<times> 'r) option \<Rightarrow> (string \<times> 'r) option" where
  "prepend p r = map_option (map_prod (\<lambda>s. p @ s) id) r"

lemma hex4_length: "hex4 s = Some (r, t) \<Longrightarrow> length t < length s"
  by (induction s rule: hex4.induct) (auto split: option.splits)

lemma unicode_escape_length [termination_simp]:
  "unicode_escape s = Some (r, t) \<Longrightarrow> length t < Suc (Suc (length s))"
  by (auto simp: unicode_escape_def split: option.splits prod.splits if_splits list.splits dest!: hex4_length)

text \<open>A string literal after its opening quote: the contents and the rest of the input.\<close>

fun pstr :: "string \<Rightarrow> (string \<times> string) option" where
  "pstr [] = None"
| "pstr (c # cs) =
     (if c = CHR 0x22 then Some ([], cs)
      else if byte c < 32 then None
      else if c = CHR 0x5C then
        (case cs of
           [] \<Rightarrow> None
         | d # ds \<Rightarrow>
             if d = CHR ''u'' then
               (case unicode_escape ds of None \<Rightarrow> None | Some (u, es) \<Rightarrow> prepend u (pstr es))
             else (case unesc d of None \<Rightarrow> None | Some x \<Rightarrow> prepend [x] (pstr ds)))
      else (case utf8_next (c # cs) of
              None \<Rightarrow> prepend rune_error (pstr cs)
            | Some n \<Rightarrow> prepend (take n (c # cs)) (pstr (drop n (c # cs)))))"

text \<open>Numbers: the grammar of RFC 8259, normalised to a mantissa without trailing zeros.\<close>

fun norm_num :: "nat \<Rightarrow> int \<Rightarrow> nat \<times> int" where
  "norm_num m e =
     (if m = 0 then (0, 0) else if m mod 10 = 0 then norm_num (m div 10) (e + 1) else (m, e))"

declare norm_num.simps [simp del]

definition span_digits :: "string \<Rightarrow> string \<times> string" where
  "span_digits s = (takeWhile is_digit s, dropWhile is_digit s)"

definition pfrac :: "string \<Rightarrow> (string \<times> string) option" where
  "pfrac s =
     (case s of
        c # r \<Rightarrow>
          if c = CHR ''.'' then
            (let (f, t) = span_digits r in if f = [] then None else Some (f, t))
          else Some ([], s)
      | [] \<Rightarrow> Some ([], s))"

definition pexp :: "string \<Rightarrow> (int \<times> string) option" where
  "pexp s =
     (case s of
        c # r \<Rightarrow>
          if c = CHR ''e'' \<or> c = CHR ''E'' then
            (let (neg, r1) = (case r of
                 d # r' \<Rightarrow> if d = CHR ''-'' then (True, r')
                           else if d = CHR ''+'' then (False, r') else (False, r)
               | [] \<Rightarrow> (False, []));
                 (x, t) = span_digits r1
             in if x = [] then None
                else Some (if neg then - int (digits_value x) else int (digits_value x), t))
          else Some (0, s)
      | [] \<Rightarrow> Some (0, s))"

definition pnum :: "string \<Rightarrow> (json \<times> string) option" where
  "pnum s =
     (let (neg, s1) = (case s of c # r \<Rightarrow> if c = CHR ''-'' then (True, r) else (False, s)
                       | [] \<Rightarrow> (False, s));
          (i, s2) = span_digits s1
      in if i = [] \<or> (hd i = CHR ''0'' \<and> length i \<noteq> 1) then None
         else case pfrac s2 of
           None \<Rightarrow> None
         | Some (f, s3) \<Rightarrow>
             (case pexp s3 of
                None \<Rightarrow> None
              | Some (x, s4) \<Rightarrow>
                  (let (m, e) = norm_num (digits_value (i @ f)) (x - int (length f))
                   in Some (JNum neg m e, s4))))"

definition plit :: "string \<Rightarrow> json \<Rightarrow> string \<Rightarrow> (json \<times> string) option" where
  "plit w v s = (if HasPrefix s w then Some (v, drop (length w) s) else None)"

text \<open>The value parser; the first argument bounds the nesting and the number of elements, the
  length of the text is always enough.\<close>

fun pval :: "nat \<Rightarrow> string \<Rightarrow> (json \<times> string) option"
  and pelems :: "nat \<Rightarrow> string \<Rightarrow> (json list \<times> string) option"
  and pmembers :: "nat \<Rightarrow> jobj \<Rightarrow> string \<Rightarrow> (jobj \<times> string) option"
where
  "pval 0 s = None"
| "pval (Suc n) s =
     (case skip_ws s of
        [] \<Rightarrow> None
      | c # cs \<Rightarrow>
          if c = CHR ''{'' then
            (case skip_ws cs of
               [] \<Rightarrow> None
             | d # ds \<Rightarrow> if d = CHR ''}'' then Some (JObj [], ds)
                         else map_option (map_prod JObj id) (pmembers n [] (d # ds)))
          else if c = CHR ''['' then
            (case skip_ws cs of
               [] \<Rightarrow> None
             | d # ds \<Rightarrow> if d = CHR '']'' then Some (JArr [], ds)
                         else map_option (map_prod JArr id) (pelems n (d # ds)))
          else if c = CHR 0x22 then map_option (map_prod JStr id) (pstr cs)
          else if c = CHR ''n'' then plit ''null'' JNull (c # cs)
          else if c = CHR ''t'' then plit ''true'' (JBool True) (c # cs)
          else if c = CHR ''f'' then plit ''false'' (JBool False) (c # cs)
          else pnum (c # cs))"
| "pelems 0 s = None"
| "pelems (Suc n) s =
     (case pval n s of
        None \<Rightarrow> None
      | Some (v, r) \<Rightarrow>
          (case skip_ws r of
             [] \<Rightarrow> None
           | c # cs \<Rightarrow>
               if c = CHR '','' then map_option (map_prod (Cons v) id) (pelems n cs)
               else if c = CHR '']'' then Some ([v], cs)
               else None))"
| "pmembers 0 m s = None"
| "pmembers (Suc n) m s =
     (case skip_ws s of
        [] \<Rightarrow> None
      | q # qs \<Rightarrow>
          if q \<noteq> CHR 0x22 then None
          else case pstr qs of
            None \<Rightarrow> None
          | Some (k, r) \<Rightarrow>
              (case skip_ws r of
                 [] \<Rightarrow> None
               | d # ds \<Rightarrow>
                   if d \<noteq> CHR '':'' then None
                   else case pval n ds of
                     None \<Rightarrow> None
                   | Some (v, r') \<Rightarrow>
                       (case skip_ws r' of
                          [] \<Rightarrow> None
                        | c # cs \<Rightarrow>
                            if c = CHR '','' then pmembers n (obj_put k v m) cs
                            else if c = CHR ''}'' then Some (obj_put k v m, cs)
                            else None)))"

definition unmarshal :: "string \<Rightarrow> json option" where
  "unmarshal s =
     (case pval (Suc (length s)) s of
        Some (v, r) \<Rightarrow> if skip_ws r = [] then Some v else None
      | None \<Rightarrow> None)"

section \<open>Well-formed values\<close>

definition wf_num :: "nat \<Rightarrow> int \<Rightarrow> bool" where
  "wf_num m e \<longleftrightarrow>
     (m = 0 \<and> e = 0) \<or> (0 < m \<and> m < 10 ^ 15 \<and> m mod 10 \<noteq> 0 \<and> -300 \<le> e \<and> e \<le> 290)"

definition sorted_keys :: "(string \<times> 'v) list \<Rightarrow> bool" where
  "sorted_keys m \<longleftrightarrow> sorted_wrt (<) (map fst m)"

fun wf_json :: "json \<Rightarrow> bool" where
  "wf_json JNull = True"
| "wf_json (JBool b) = True"
| "wf_json (JNum neg m e) = wf_num m e"
| "wf_json (JInt i) = False"
| "wf_json (JStr s) = valid_utf8 s"
| "wf_json (JArr vs) = list_all wf_json vs"
| "wf_json (JStrs ss) = False"
| "wf_json (JObj kvs) = (sorted_keys kvs \<and> list_all (\<lambda>(k, v). valid_utf8 k \<and> wf_json v) kvs)"

section \<open>Round trip of strings\<close>

lemma utf8_next_append: "utf8_next s = Some n \<Longrightarrow> utf8_next (take n s @ t) = Some n"
  by (cases s) (auto simp: utf8_next.simps split: if_splits list.splits)

lemma prepend_Some [simp]: "prepend p (Some (s, r)) = Some (p @ s, r)"
  by (simp add: prepend_def)

lemma hex_val_digit [simp]: "n < 16 \<Longrightarrow> hex_val (hex_digit n) = Some n"
  by (auto simp: hex_val_def hex_digit_def is_digit_def in_range_def)

lemma unicode_escape_byte:
  "byte c < 128 \<Longrightarrow>
   unicode_escape (CHR ''0'' # CHR ''0'' # hex_digit (byte c div 16) # hex_digit (byte c mod 16) # t) = Some ([c], t)"
proof -
  assume c: "byte c < 128"
  have "hex_val (CHR ''0'') = Some 0"
    by (simp add: hex_val_def is_digit_def byte_def)
  then have "hex4 (CHR ''0'' # CHR ''0'' # hex_digit (byte c div 16) # hex_digit (byte c mod 16) # t) = Some (byte c, t)"
    using c by simp
  then show ?thesis using c by (simp add: unicode_escape_def utf8_enc_def)
qed

lemma byte_eqD: "byte c = n \<Longrightarrow> c = char_of n"
  by auto

lemma ctrl_chars:
  "char_of (8 :: nat) = CHR 0x08" "char_of (9 :: nat) = CHR 0x09" "char_of (10 :: nat) = CHR 0x0A"
  "char_of (12 :: nat) = CHR 0x0C" "char_of (13 :: nat) = CHR 0x0D"
  by code_simp+

lemma pstr_esc_ascii:
  assumes "byte c < 128"
  shows "pstr (esc_ascii c @ t) = prepend [c] (pstr t)"
proof -
  consider (q) "c = CHR 0x22" | (b) "c = CHR 0x5C"
    | (s) "byte c \<in> {8, 9, 10, 12, 13}"
    | (u) "byte c < 32 \<and> byte c \<notin> {8, 9, 10, 12, 13} \<or> c \<in> {CHR ''<'', CHR ''>'', CHR ''&''}"
    | (p) "32 \<le> byte c" "c \<notin> {CHR 0x22, CHR 0x5C, CHR ''<'', CHR ''>'', CHR ''&''}"
    by force
  then show ?thesis
  proof cases
    case s
    then consider "c = CHR 0x08" | "c = CHR 0x09" | "c = CHR 0x0A" | "c = CHR 0x0C" | "c = CHR 0x0D"
      by (auto dest!: byte_eqD simp: ctrl_chars)
    then show ?thesis by cases (simp_all add: esc_ascii_def unesc_def byte_def)
  next
    case u
    then have nq: "c \<noteq> CHR 0x22" "c \<noteq> CHR 0x5C" and nb: "byte c \<notin> {8, 9, 10, 12, 13}"
      by (auto simp: byte_def)
    have "esc_ascii c = CHR 0x5C # CHR ''u'' # CHR ''0'' # CHR ''0'' # hex_digit (byte c div 16) # [hex_digit (byte c mod 16)]"
      using u nq nb by (auto simp: esc_ascii_def)
    then have "esc_ascii c @ t = CHR 0x5C # CHR ''u'' # CHR ''0'' # CHR ''0'' # hex_digit (byte c div 16) # hex_digit (byte c mod 16) # t"
      by simp
    then show ?thesis
      by (simp add: unicode_escape_byte [OF assms] del: hex4.simps) (simp add: byte_def)
  next
    case p
    then have "esc_ascii c = [c]" by (auto simp: esc_ascii_def)
    moreover have "utf8_next (c # t) = Some 1" using assms by (simp add: utf8_next.simps)
    ultimately show ?thesis using p by simp
  qed (simp_all add: esc_ascii_def unesc_def byte_def)
qed

lemma pstr_u2028: 
  "pstr (CHR 0x5C # ''u2028'' @ t) = prepend [CHR 0xE2, CHR 0x80, CHR 0xA8] (pstr t)"
  "pstr (CHR 0x5C # ''u2029'' @ t) = prepend [CHR 0xE2, CHR 0x80, CHR 0xA9] (pstr t)"
  by (simp_all add: unicode_escape_def hex_val_def is_digit_def byte_def utf8_enc_def char_of_def)
     (code_simp)+

lemma pstr_multibyte:
  assumes "utf8_next s = Some n" and "s = c # cs" and "128 \<le> byte c"
  shows "pstr (take n s @ t) = prepend (take n s) (pstr t)"
proof -
  have n: "0 < n" "n \<le> length s" using utf8_next_bounds [OF assms(1)] by simp_all
  then obtain k where k: "n = Suc k" by (cases n) auto
  have "utf8_next (c # take k cs @ t) = Some n"
    using utf8_next_append [OF assms(1), of t] assms(2) k by simp
  moreover have "c \<noteq> CHR 0x22" "c \<noteq> CHR 0x5C" using assms(3) by (auto simp: byte_def)
  ultimately show ?thesis
    using assms(2,3) k n by (simp)
qed

lemma pstr_enc_str: "valid_utf8 s \<Longrightarrow> pstr (enc_str s @ CHR 0x22 # r) = Some (s, r)"
proof (induction s rule: enc_str.induct)
  case 1
  then show ?case by simp
next
  case (2 c cs)
  show ?case
  proof (cases "byte c < 128")
    case True
    then have "utf8_next (c # cs) = Some 1" by (simp add: utf8_next.simps)
    then have "valid_utf8 cs" using "2.prems" by simp
    then show ?thesis using "2.IH"(1) True by (simp add: pstr_esc_ascii)
  next
    case False
    obtain n where n: "utf8_next (c # cs) = Some n" and v: "valid_utf8 (drop n (c # cs))"
      using "2.prems" by (auto split: option.splits)
    have IH: "pstr (enc_str (drop n (c # cs)) @ CHR 0x22 # r) = Some (drop n (c # cs), r)"
      using "2.IH"(3) False n v by simp
    let ?p = "if take n (c # cs) = [CHR 0xE2, CHR 0x80, CHR 0xA8] then CHR 0x5C # ''u2028''
              else if take n (c # cs) = [CHR 0xE2, CHR 0x80, CHR 0xA9] then CHR 0x5C # ''u2029''
              else take n (c # cs)"
    have "pstr (?p @ t) = prepend (take n (c # cs)) (pstr t)" for t
      using pstr_multibyte [OF n refl, of t] False pstr_u2028 [of t]
      by (simp del: pstr.simps take_Suc_Cons drop_Suc_Cons)
    moreover have "enc_str (c # cs) = ?p @ enc_str (drop n (c # cs))"
      using False n by simp
    ultimately have "pstr (enc_str (c # cs) @ CHR 0x22 # r) = prepend (take n (c # cs)) (Some (drop n (c # cs), r))"
      by (simp only: append_assoc IH)
    then show ?thesis by (simp only: prepend_Some append_take_drop_id)
  qed
qed

section \<open>Round trip of numbers\<close>

definition num_stop :: "string \<Rightarrow> bool" where
  "num_stop r \<longleftrightarrow> (case r of [] \<Rightarrow> True | c # _ \<Rightarrow> \<not> is_digit c \<and> c \<notin> {CHR ''.'', CHR ''e'', CHR ''E''})"

lemma span_digits_append:
  assumes "list_all is_digit ds" and "t = [] \<or> \<not> is_digit (hd t)"
  shows "span_digits (ds @ t) = (ds, t)"
proof -
  have "takeWhile is_digit t = []" "dropWhile is_digit t = t"
    using assms(2) by (cases t; simp)+
  moreover have "\<And>x. x \<in> set ds \<Longrightarrow> is_digit x" using assms(1) by (simp add: list_all_iff)
  ultimately show ?thesis by (simp add: span_digits_def)
qed

lemma norm_num_shift: "m mod 10 \<noteq> 0 \<Longrightarrow> norm_num (m * 10 ^ k) e = (m, e + int k)"
proof (induction k arbitrary: e)
  case 0
  then show ?case by (auto simp: norm_num.simps [of m])
next
  case (Suc k)
  have "m \<noteq> 0" using Suc.prems by (cases m) auto
  moreover have "m * 10 ^ Suc k div 10 = m * 10 ^ k" "m * 10 ^ Suc k mod 10 = 0" by simp_all
  ultimately have "norm_num (m * 10 ^ Suc k) e = norm_num (m * 10 ^ k) (e + 1)"
    by (subst norm_num.simps) simp
  then show ?case using Suc by simp
qed

lemma norm_num_id: "m mod 10 \<noteq> 0 \<Longrightarrow> norm_num m e = (m, e)"
  using norm_num_shift [of m 0 e] by simp

lemma digits_value_append: 
  "digits_value (as @ bs) = digits_value as * 10 ^ length bs + digits_value bs"
proof (induction bs rule: rev_induct)
  case Nil
  then show ?case by (simp add: digits_value_def)
next
  case (snoc b bs)
  have "digits_value (as @ bs @ [b]) = digits_value (as @ bs) * 10 + (byte b - 48)"
    using digits_value_snoc [of "as @ bs" b] by simp
  with snoc show ?case by (simp add: digits_value_snoc algebra_simps)
qed

lemma is_digit_chars [simp]: "is_digit (CHR ''0'')" "\<not> is_digit (CHR ''.'')" "\<not> is_digit (CHR ''e'')" "\<not> is_digit (CHR ''-'')"
  by (simp_all add: is_digit_def byte_def)

lemma digits_value_zeros [simp]: "digits_value (replicate k (CHR ''0'')) = 0"
  by (induction k) (simp_all add: digits_value_def replicate_append_same [symmetric] byte_def)

lemma list_all_replicate: "list_all P (replicate k x) \<longleftrightarrow> k = 0 \<or> P x"
  by (induction k) auto

lemma hd_dec: "0 < m \<Longrightarrow> hd (dec m) \<noteq> CHR ''0''"
proof (induction m rule: dec.induct)
  case (1 n)
  have z: "CHR ''0'' = digit_char 0" by code_simp
  show ?case
  proof (cases "n < 10")
    case True
    then have "byte (digit_char n) \<noteq> byte (digit_char 0)" using "1.prems" by (simp add: digit_char_byte)
    then show ?thesis using True z by (auto simp: dec.simps [of n])
  next
    case False
    then show ?thesis using "1.IH" by (simp add: dec.simps [of n])
  qed
qed

lemma pfrac_stop: "num_stop r \<Longrightarrow> pfrac r = Some ([], r)"
  by (auto simp: pfrac_def num_stop_def split: list.splits)

lemma pexp_stop: "num_stop r \<Longrightarrow> pexp r = Some (0, r)"
  by (auto simp: pexp_def num_stop_def split: list.splits)

lemma num_stop_hd: "num_stop r \<Longrightarrow> r = [] \<or> \<not> is_digit (hd r)"
  by (auto simp: num_stop_def split: list.splits)

lemma pfrac_digits:
  "list_all is_digit f \<Longrightarrow> f \<noteq> [] \<Longrightarrow> t = [] \<or> \<not> is_digit (hd t) \<Longrightarrow> pfrac (CHR ''.'' # f @ t) = Some (f, t)"
  by (simp add: pfrac_def span_digits_append)

lemma pfrac_exp: "pfrac (CHR ''e'' # t) = Some ([], CHR ''e'' # t)"
  by (simp add: pfrac_def)

lemma pexp_dec:
  "num_stop r \<Longrightarrow> pexp (CHR ''e'' # (if x < 0 then CHR ''-'' else CHR ''+'') # dec (nat \<bar>x\<bar>) @ r) = Some (x, r)"
  by (simp add: pexp_def span_digits_append num_stop_hd)

definition strip_sign :: "string \<Rightarrow> bool \<times> string" where
  "strip_sign s = (case s of c # r \<Rightarrow> if c = CHR ''-'' then (True, r) else (False, s) | [] \<Rightarrow> (False, s))"

lemma strip_sign_append:
  "body \<noteq> [] \<Longrightarrow> is_digit (hd body) \<Longrightarrow> strip_sign ((if neg then ''-'' else []) @ body) = (neg, body)"
  by (cases body) (auto simp: strip_sign_def)

text \<open>The text of a number, cut into integer digits, fraction and exponent.\<close>

lemma pnum_parts:
  assumes "list_all is_digit i" "i \<noteq> []" "hd i = CHR ''0'' \<longrightarrow> length i = 1"
    and "t = [] \<or> \<not> is_digit (hd t)"
    and "pfrac t = Some (f, t1)" "pexp t1 = Some (x, r)"
    and "norm_num (digits_value (i @ f)) (x - int (length f)) = (m, e)"
  shows "pnum ((if neg then ''-'' else []) @ i @ t) = Some (JNum neg m e, r)"
proof -
  have "is_digit (hd (i @ t))" using assms(1,2) by (cases i) auto
  then have "strip_sign ((if neg then ''-'' else []) @ (i @ t)) = (neg, i @ t)"
    using assms(2) by (intro strip_sign_append) auto
  moreover have "span_digits (i @ t) = (i, t)" using assms(1,4) by (rule span_digits_append)
  ultimately show ?thesis
    using assms(2,3,5,6,7) unfolding pnum_def strip_sign_def by (auto simp: Let_def split: prod.splits)
qed

lemma pnum_exponent_form:
  assumes m: "m mod 10 \<noteq> 0" and r: "num_stop r"
    and x: "x = int (length (dec m)) + e - 1"
  shows "pnum ((if neg then ''-'' else []) @ take 1 (dec m) @
           (if length (dec m) = 1 then [] else CHR ''.'' # drop 1 (dec m)) @
           CHR ''e'' # (if x < 0 then CHR ''-'' else CHR ''+'') # dec (nat \<bar>x\<bar>) @ r) = Some (JNum neg m e, r)"
proof -
  let ?tail = "CHR ''e'' # (if x < 0 then CHR ''-'' else CHR ''+'') # dec (nat \<bar>x\<bar>) @ r"
  let ?t = "(if length (dec m) = 1 then [] else CHR ''.'' # drop 1 (dec m)) @ ?tail"
  obtain d ds where dd: "dec m = d # ds" by (cases "dec m") auto
  have dig: "list_all is_digit (d # ds)" using dec_digits [of m] dd by simp
  have v: "digits_value (d # ds) = m" using digits_value_dec [of m] dd by simp
  have "pnum ((if neg then ''-'' else []) @ [d] @ ?t) = Some (JNum neg m e, r)"
  proof (rule pnum_parts [where f = ds and x = x and ?t1.0 = ?tail])
    show "pfrac ?t = Some (ds, ?tail)"
      using pfrac_digits [of ds ?tail] dig dd by (simp add: pfrac_exp)
    show "pexp ?tail = Some (x, r)" by (rule pexp_dec [OF r])
    show "norm_num (digits_value ([d] @ ds)) (x - int (length ds)) = (m, e)"
      using norm_num_id [OF m] dd v x by simp
  qed (use dig dd in auto)
  then show ?thesis using dd by simp
qed

lemma pnum_integer_form:
  assumes m: "m mod 10 \<noteq> 0" and r: "num_stop r" and e: "0 \<le> e"
  shows "pnum ((if neg then ''-'' else []) @ (dec m @ replicate (nat e) (CHR ''0'')) @ r) = Some (JNum neg m e, r)"
proof (rule pnum_parts [where f = "[]" and x = 0])
  have "0 < m" using m by (cases m) auto
  then show "hd (dec m @ replicate (nat e) (CHR ''0'')) = CHR ''0'' \<longrightarrow>
      length (dec m @ replicate (nat e) (CHR ''0'')) = 1"
    using hd_dec by simp
  show "norm_num (digits_value ((dec m @ replicate (nat e) (CHR ''0'')) @ [])) (0 - int (length [])) = (m, e)"
    using norm_num_shift [OF m, of "nat e" 0] e by (simp add: digits_value_append)
  show "list_all is_digit (dec m @ replicate (nat e) (CHR ''0''))"
    by (simp add: list_all_replicate)
qed (use num_stop_hd [OF r] pfrac_stop [OF r] pexp_stop [OF r] in simp_all)

lemma pnum_fraction_form:
  assumes m: "m mod 10 \<noteq> 0" and r: "num_stop r" and e: "e < 0" and n: "0 < int (length (dec m)) + e"
  shows "pnum ((if neg then ''-'' else []) @ take (nat (int (length (dec m)) + e)) (dec m) @
           CHR ''.'' # drop (nat (int (length (dec m)) + e)) (dec m) @ r) = Some (JNum neg m e, r)"
proof -
  let ?k = "nat (int (length (dec m)) + e)"
  let ?i = "take ?k (dec m)" and ?f = "drop ?k (dec m)"
  have "0 < m" using m by (cases m) auto
  have k: "0 < ?k" "?k < length (dec m)" and len: "int (length ?f) = - e" using e n by auto
  have dig: "list_all is_digit ?i" "list_all is_digit ?f"
    using dec_digits [of m] by (auto simp: list_all_iff dest: in_set_takeD in_set_dropD)
  show ?thesis
  proof (rule pnum_parts [where f = ?f and x = 0])
    show "pfrac (CHR ''.'' # ?f @ r) = Some (?f, r)"
      using dig(2) k(2) num_stop_hd [OF r] by (intro pfrac_digits) auto
    show "norm_num (digits_value (?i @ ?f)) (0 - int (length ?f)) = (m, e)"
      using norm_num_id [OF m] len by (simp only: append_take_drop_id) simp
    show "hd ?i = CHR ''0'' \<longrightarrow> length ?i = 1" using hd_dec [OF \<open>0 < m\<close>] k(1) by (simp add: hd_take)
    show "?i \<noteq> []" using k by auto
  qed (use dig pexp_stop [OF r] in auto)
qed

lemma pnum_small_form:
  assumes m: "m mod 10 \<noteq> 0" and r: "num_stop r" and e: "e < 0" and n: "int (length (dec m)) + e \<le> 0"
  shows "pnum ((if neg then ''-'' else []) @ ''0'' @
           CHR ''.'' # (replicate (nat (- (int (length (dec m)) + e))) (CHR ''0'') @ dec m) @ r) = Some (JNum neg m e, r)"
proof -
  let ?f = "replicate (nat (- (int (length (dec m)) + e))) (CHR ''0'') @ dec m"
  have len: "int (length ?f) = - e" using e n by auto
  show ?thesis
  proof (rule pnum_parts [where f = ?f and x = 0])
    show "pfrac (CHR ''.'' # ?f @ r) = Some (?f, r)"
      using num_stop_hd [OF r] by (intro pfrac_digits) (auto simp: list_all_replicate)
    have "digits_value (''0'' @ ?f) = digits_value ''0'' * 10 ^ length ?f + m"
      by (simp only: digits_value_append digits_value_zeros digits_value_dec)
    then have "digits_value (''0'' @ ?f) = m" by (simp add: digits_value_def byte_def)
    then show "norm_num (digits_value (''0'' @ ?f)) (0 - int (length ?f)) = (m, e)"
      using norm_num_id [OF m] len by simp
  qed (use pexp_stop [OF r] in auto)
qed

lemma pnum_enc_num:
  assumes wf: "wf_num m e" and r: "num_stop r"
  shows "pnum (enc_num neg m e @ r) = Some (JNum neg m e, r)"
proof (cases "m = 0")
  case True
  then have "e = 0" using wf by (simp add: wf_num_def)
  have "pnum ((if neg then ''-'' else []) @ ''0'' @ r) = Some (JNum neg 0 0, r)"
    by (rule pnum_parts [where f = "[]" and x = 0])
       (use num_stop_hd [OF r] pfrac_stop [OF r] pexp_stop [OF r] in
         \<open>auto simp: digits_value_def byte_def norm_num.simps\<close>)
  then show ?thesis using True \<open>e = 0\<close> by (simp add: enc_num_def)
next
  case False
  then have m: "m mod 10 \<noteq> 0" using wf by (auto simp: wf_num_def)
  note forms = pnum_exponent_form [OF m r refl, of neg e] pnum_integer_form [OF m r, of e neg]
    pnum_fraction_form [OF m r, of e neg] pnum_small_form [OF m r, of e neg]
  show ?thesis
    using False forms by (auto simp: enc_num_def Let_def not_le not_less)
qed

section \<open>Round trip of values\<close>

lemma obj_put_last:
  "sorted_wrt (<) (map fst m @ [k]) \<Longrightarrow> obj_put k v m = m @ [(k, v)]"
  by (induction m) (auto simp: sorted_wrt_append)

lemma Join_Cons_Cons: "Join sep ((c # cs) # ws) = c # Join sep (cs # ws)"
  by (cases ws) auto

lemma enc_num_head: "\<exists>c cs. enc_num neg m e = c # cs \<and> (c = CHR ''-'' \<or> is_digit c)"
proof -
  obtain d ds where dd: "dec m = d # ds" by (cases "dec m") auto
  then have "is_digit d" using dec_digits [of m] by simp
  then show ?thesis using dd by (auto simp: enc_num_def Let_def take_Cons')
qed

lemma marshal_head:
  assumes "wf_json v"
  obtains c cs where "marshal v = c # cs" "\<not> is_ws c" "c \<noteq> CHR '']''" "c \<noteq> CHR ''}''"
proof -
  have dig: "\<not> is_ws c" "c \<noteq> CHR '']''" "c \<noteq> CHR ''}''" if "is_digit c" for c
    using that by (auto simp: is_digit_def is_ws_def byte_def)
  have ch: "\<not> is_ws (CHR ''-'')" "\<not> is_ws (CHR ''n'')" "\<not> is_ws (CHR ''t'')" "\<not> is_ws (CHR ''f'')"
    "\<not> is_ws (CHR 0x22)" "\<not> is_ws (CHR ''['')" "\<not> is_ws (CHR ''{'')"
    by (simp_all add: is_ws_def byte_def)
  show ?thesis
  proof (cases v)
    case (JNum neg m e)
    obtain c cs where c: "enc_num neg m e = c # cs" "c = CHR ''-'' \<or> is_digit c" using enc_num_head by blast
    with dig ch(1) JNum show ?thesis by (intro that [of c cs]) auto
  next
    case (JBool b)
    with ch that show ?thesis by (cases b) auto
  qed (use assms ch that in \<open>auto simp: quote_str_def\<close>)
qed

lemma skip_ws_marshal: "wf_json v \<Longrightarrow> skip_ws (marshal v @ r) = marshal v @ r"
  by (erule marshal_head) simp

lemma pval_quote: "valid_utf8 s \<Longrightarrow> pstr (enc_str s @ [CHR 0x22] @ r) = Some (s, r)"
  using pstr_enc_str [of s r] by simp

lemma pval_num:
  assumes "wf_num m e" "num_stop r"
  shows "pval (Suc n) (enc_num neg m e @ r) = Some (JNum neg m e, r)"
proof -
  obtain c cs where c: "enc_num neg m e = c # cs" "\<not> is_ws c" 
    using marshal_head [of "JNum neg m e"] assms(1) by (metis marshal.simps(3) wf_json.simps(3))
  have "c = CHR ''-'' \<or> is_digit c" using enc_num_head [of neg m e] c(1) by auto
  then have "c \<notin> {CHR ''{'', CHR ''['', CHR 0x22, CHR ''n'', CHR ''t'', CHR ''f''}"
    by (auto simp: is_digit_def byte_def)
  then show ?thesis using c pnum_enc_num [OF assms, of neg] by simp
qed

text \<open>Elements and members, given that each element is read back.\<close>

lemma pelems_Join:
  assumes "vs \<noteq> []" "list_all wf_json vs"
    and "\<forall>v \<in> set vs. \<forall>n r. length (marshal v) < n \<longrightarrow> num_stop r \<longrightarrow> pval n (marshal v @ r) = Some (v, r)"
    and "length (Join '','' (map marshal vs)) + 1 < n"
  shows "pelems n (Join '','' (map marshal vs) @ CHR '']'' # r) = Some (vs, r)"
  using assms
proof (induction vs arbitrary: n)
  case Nil
  then show ?case by simp
next
  case (Cons v vs)
  obtain k where n: "n = Suc k" using Cons.prems(4) by (cases n) auto
  have stop: "num_stop (CHR '','' # t)" "num_stop (CHR '']'' # t)" for t
    by (simp_all add: num_stop_def is_digit_def byte_def)
  have ws: "\<not> is_ws (CHR '','')" "\<not> is_ws (CHR '']'')" by (simp_all add: is_ws_def byte_def)
  show ?case
  proof (cases "vs = []")
    case True
    then show ?thesis using Cons.prems n stop ws by simp
  next
    case False
    then have J: "Join '','' (map marshal (v # vs)) = marshal v @ CHR '','' # Join '','' (map marshal vs)"
      by (simp add: Join_Cons)
    have "pval k (marshal v @ CHR '','' # Join '','' (map marshal vs) @ CHR '']'' # r)
        = Some (v, CHR '','' # Join '','' (map marshal vs) @ CHR '']'' # r)"
      using Cons.prems(3,4) n J stop by simp
    moreover have "pelems k (Join '','' (map marshal vs) @ CHR '']'' # r) = Some (vs, r)"
      using Cons.IH [of k] Cons.prems(2,3,4) False n J by simp
    ultimately show ?thesis using n J ws by simp
  qed
qed

abbreviation enc_member :: "string \<times> json \<Rightarrow> string" where
  "enc_member \<equiv> \<lambda>(k, v). quote_str k @ CHR '':'' # marshal v"

lemma pmembers_Join:
  assumes "kvs \<noteq> []" "list_all (\<lambda>(k, v). valid_utf8 k \<and> wf_json v) kvs"
    and "\<forall>(k, v) \<in> set kvs. \<forall>n r. length (marshal v) < n \<longrightarrow> num_stop r \<longrightarrow> pval n (marshal v @ r) = Some (v, r)"
    and "length (Join '','' (map enc_member kvs)) + 1 < n"
    and "sorted_keys (m @ kvs)"
  shows "pmembers n m (Join '','' (map enc_member kvs) @ CHR ''}'' # r) = Some (m @ kvs, r)"
  using assms
proof (induction kvs arbitrary: n m)
  case Nil
  then show ?case by simp
next
  case (Cons kv kvs)
  obtain k v where kv: "kv = (k, v)" by (cases kv)
  obtain f where n: "n = Suc f" using Cons.prems(4) by (cases n) auto
  have stop: "num_stop (CHR '','' # t)" "num_stop (CHR ''}'' # t)" for t
    by (simp_all add: num_stop_def is_digit_def byte_def)
  have ws: "\<not> is_ws (CHR '','')" "\<not> is_ws (CHR ''}'')" "\<not> is_ws (CHR 0x22)" "\<not> is_ws (CHR '':'')"
    by (simp_all add: is_ws_def byte_def)
  have put: "obj_put k v m = m @ [(k, v)]"
    using Cons.prems(5) kv by (intro obj_put_last) (auto simp: sorted_keys_def sorted_wrt_append)
  have str: "pstr (enc_str k @ CHR 0x22 # t) = Some (k, t)" for t
    using Cons.prems(2) kv by (simp add: pstr_enc_str)
  show ?case
  proof (cases "kvs = []")
    case True
    then show ?thesis using Cons.prems kv n stop ws put str by (simp add: quote_str_def)
  next
    case False
    let ?rest = "Join '','' (map enc_member kvs)"
    have J: "Join '','' (map enc_member (kv # kvs)) = quote_str k @ CHR '':'' # marshal v @ CHR '','' # ?rest"
      using False kv by (simp add: Join_Cons)
    have "pval f (marshal v @ CHR '','' # ?rest @ CHR ''}'' # r) = Some (v, CHR '','' # ?rest @ CHR ''}'' # r)"
      using Cons.prems(3,4) kv n J stop by simp
    moreover have "pmembers f (m @ [(k, v)]) (?rest @ CHR ''}'' # r) = Some ((m @ [(k, v)]) @ kvs, r)"
      using Cons.IH [of f "m @ [(k, v)]"] Cons.prems(2,3,4,5) False kv n J by simp
    ultimately show ?thesis using n J ws put str kv by (simp add: quote_str_def)
  qed
qed

lemma pval_marshal:
  "wf_json v \<Longrightarrow> length (marshal v) < n \<Longrightarrow> num_stop r \<Longrightarrow> pval n (marshal v @ r) = Some (v, r)"
proof (induction v arbitrary: n r rule: marshal.induct)
  case 1
  then show ?case by (cases n) (simp_all add: plit_def HasPrefix_def is_ws_def byte_def)
next
  case (2 b)
  then show ?case by (cases n) (auto simp: plit_def HasPrefix_def is_ws_def byte_def)
next
  case (3 neg m e)
  then show ?case by (cases n) (simp_all add: pval_num del: pval.simps(2))
next
  case (5 s)
  then show ?case by (cases n) (simp_all add: quote_str_def pstr_enc_str is_ws_def byte_def)
next
  case (6 vs)
  then obtain k where n: "n = Suc k" by (cases n) auto
  have ws: "\<not> is_ws (CHR ''['')" by (simp add: is_ws_def byte_def)
  show ?case
  proof (cases "vs = []")
    case True
    then show ?thesis using n ws by (simp add: is_ws_def byte_def)
  next
    case False
    have "pelems k (Join '','' (map marshal vs) @ CHR '']'' # r) = Some (vs, r)"
      using False 6 n by (intro pelems_Join) (auto simp: list_all_iff)
    moreover obtain c cs where c: "Join '','' (map marshal vs) @ CHR '']'' # r = c # cs" "\<not> is_ws c" "c \<noteq> CHR '']''"
      using False 6(2) by (cases vs) (auto elim!: marshal_head simp: Join_Cons_Cons)
    ultimately show ?thesis using n ws by simp
  qed
next
  case (8 kvs)
  then obtain k where n: "n = Suc k" by (cases n) auto
  have ws: "\<not> is_ws (CHR ''{'')" "\<not> is_ws (CHR 0x22)" by (simp_all add: is_ws_def byte_def)
  show ?case
  proof (cases "kvs = []")
    case True
    then show ?thesis using n ws by (simp add: is_ws_def byte_def)
  next
    case False
    have "pmembers k [] (Join '','' (map enc_member kvs) @ CHR ''}'' # r) = Some ([] @ kvs, r)"
      using False 8 n by (intro pmembers_Join) (auto simp: list_all_iff)
    moreover obtain cs where "Join '','' (map enc_member kvs) @ CHR ''}'' # r = CHR 0x22 # cs"
      using False by (cases kvs) (auto simp: quote_str_def Join_Cons_Cons)
    ultimately show ?thesis using n ws by simp
  qed
qed simp_all

theorem unmarshal_marshal: "wf_json v \<Longrightarrow> unmarshal (marshal v) = Some v"
  using pval_marshal [of v "Suc (length (marshal v))" "[]"]
  by (simp add: unmarshal_def num_stop_def del: pval.simps)

lemma marshal_inject: "wf_json v \<Longrightarrow> wf_json w \<Longrightarrow> marshal v = marshal w \<longleftrightarrow> v = w"
  by (metis option.inject unmarshal_marshal)

end
