(* ===== verification/Resource.thy ===== *)
theory Resource
  imports Json Cursor
begin

text \<open>
  The resource model of \<^verbatim>\<open>internal/state/resource.go\<close>: kinds, phases, the \<open>Resource\<close>,
  \<open>Status\<close> and \<open>AuditEntry\<close> structs, \<open>DeepCopy\<close>, \<open>LogicalKey\<close>, the validation regular
  expressions, and \<open>specLabelsEqual\<close> of \<^verbatim>\<open>store.go\<close>. The lemmas: \<open>DeepCopy\<close> is the identity on
  well-formed resources, the logical key determines the address, and \<open>specLabelsEqual\<close> decides
  equality of spec and labels as long as no label value is empty.
\<close>

section \<open>Kinds and phases\<close>

definition KindSecret :: string where "KindSecret = ''Secret''"
definition KindSubscription :: string where "KindSubscription = ''Subscription''"
definition KindAPIKey :: string where "KindAPIKey = ''APIKey''"
definition KindPolicy :: string where "KindPolicy = ''Policy''"

definition Kinds :: "string list" where
  "Kinds =
     [''Project'', ''Environment'', ''Application'', ''Deployment'', ''Cluster'', ''Node'',
      ''Database'', ''Cache'', ''Bucket'', KindPolicy, KindSecret, KindSubscription, KindAPIKey]"

definition PhasePending :: string where "PhasePending = ''Pending''"
definition PhaseProvisioning :: string where "PhaseProvisioning = ''Provisioning''"
definition PhaseReady :: string where "PhaseReady = ''Ready''"
definition PhaseDegraded :: string where "PhaseDegraded = ''Degraded''"
definition PhaseFailed :: string where "PhaseFailed = ''Failed''"

definition ReservedOrg :: string where "ReservedOrg = ''ryvex''"
definition ReservedProject :: string where "ReservedProject = ''system''"
definition ReservedEnv :: string where "ReservedEnv = ''system''"

definition IsReservedOrg :: "string \<Rightarrow> bool" where
  "IsReservedOrg org \<longleftrightarrow> org = ReservedOrg"

lemmas kind_defs = KindSecret_def KindSubscription_def KindAPIKey_def KindPolicy_def
lemmas phase_defs = PhasePending_def PhaseProvisioning_def PhaseReady_def PhaseDegraded_def PhaseFailed_def
lemmas reserved_defs = ReservedOrg_def ReservedProject_def ReservedEnv_def

section \<open>Structs\<close>

record status =
  sPhase :: string
  sMessage :: string
  sObservedGen :: int
  sUpdatedAt :: go_time

record resource =
  rID :: string
  rKind :: string
  rOrg :: string
  rProject :: string
  rEnv :: string
  rName :: string
  rGeneration :: int
  rLabels :: "(string \<times> string) list option"  \<comment> \<open>\<open>map[string]string\<close>, \<open>None\<close> is the nil map\<close>
  rSpec :: "jobj option"                        \<comment> \<open>\<open>map[string]any\<close>, \<open>None\<close> is the nil map\<close>
  rStatus :: status
  rCreatedAt :: go_time
  rUpdatedAt :: go_time

record audit_entry =
  aID :: string
  aTime :: go_time
  aActor :: string
  aAction :: string
  aResourceID :: string
  aKind :: string
  aLogicalKey :: string
  aGeneration :: int
  aReason :: string

section \<open>Operations\<close>

text \<open>The encoding of a spec map; the nil map encodes as \<open>null\<close>.\<close>

definition marshal_spec :: "jobj option \<Rightarrow> string" where
  "marshal_spec sp = (case sp of None \<Rightarrow> ''null'' | Some m \<Rightarrow> marshal (JObj m))"

text \<open>\<open>DeepCopy\<close>: the scalar fields and the label entries are copied as they are (values here are
  immutable), the spec takes a trip through its encoding into a fresh map, which a decoding
  error would leave empty.\<close>

definition DeepCopy :: "resource \<Rightarrow> resource" where
  "DeepCopy r =
     r\<lparr>rSpec := (case rSpec r of
          None \<Rightarrow> None
        | Some m \<Rightarrow> (case unmarshal (marshal_spec (Some m)) of Some (JObj m') \<Rightarrow> Some m' | _ \<Rightarrow> Some []))\<rparr>"

definition logical :: "string \<Rightarrow> string \<Rightarrow> string \<Rightarrow> string \<Rightarrow> string \<Rightarrow> string" where
  "logical org project env kind name = Join ''/'' [org, project, env, kind, name]"

definition LogicalKey :: "resource \<Rightarrow> string" where
  "LogicalKey r = Join ''/'' [rOrg r, rProject r, rEnv r, rKind r, rName r]"

text \<open>A token of at most 63 bytes: edge bytes first and last, inner bytes between.\<close>

definition bounded_token :: "(char \<Rightarrow> bool) \<Rightarrow> (char \<Rightarrow> bool) \<Rightarrow> string \<Rightarrow> bool" where
  "bounded_token edge inner s \<longleftrightarrow>
     (case s of
        [] \<Rightarrow> False
      | c # cs \<Rightarrow> edge c \<and>
          (cs = [] \<or> (length (butlast cs) \<le> 61 \<and> list_all inner (butlast cs) \<and> edge (last cs))))"

definition scope_edge :: "char \<Rightarrow> bool" where
  "scope_edge c \<longleftrightarrow> is_lower c \<or> is_digit c"

definition label_edge :: "char \<Rightarrow> bool" where
  "label_edge c \<longleftrightarrow> is_upper c \<or> is_lower c \<or> is_digit c"

definition scopeRe :: "string \<Rightarrow> bool" where
  "scopeRe s \<longleftrightarrow> bounded_token scope_edge (\<lambda>c. scope_edge c \<or> c = CHR ''-'') s"

definition labelRe :: "string \<Rightarrow> bool" where
  "labelRe s \<longleftrightarrow>
     bounded_token label_edge (\<lambda>c. label_edge c \<or> c = CHR ''.'' \<or> c = CHR ''_'' \<or> c = CHR ''-'') s"

definition maxSpecB :: nat where "maxSpecB = 65536"

text \<open>The label comparison: equal sizes, and every entry of the first map read in the second,
  where a missing key reads as the empty string.\<close>

definition labels_eq :: "(string \<times> string) list \<Rightarrow> (string \<times> string) list \<Rightarrow> bool" where
  "labels_eq m1 m2 \<longleftrightarrow>
     length m1 = length m2 \<and>
     list_all (\<lambda>(k, v). (case map_of m2 k of None \<Rightarrow> [] | Some v' \<Rightarrow> v') = v) m1"

definition specLabelsEqual :: "resource \<Rightarrow> resource \<Rightarrow> bool" where
  "specLabelsEqual a b \<longleftrightarrow>
     labels_eq (case rLabels a of None \<Rightarrow> [] | Some m \<Rightarrow> m) (case rLabels b of None \<Rightarrow> [] | Some m \<Rightarrow> m) \<and>
     marshal_spec (rSpec a) = marshal_spec (rSpec b)"

text \<open>The fixed kind list in the order error messages print it.\<close>

definition knownKinds :: "string list" where
  "knownKinds = sort Kinds"

section \<open>Well-formed resources\<close>

abbreviation labels_of :: "resource \<Rightarrow> (string \<times> string) list" where
  "labels_of r \<equiv> (case rLabels r of None \<Rightarrow> [] | Some m \<Rightarrow> m)"

definition wf_spec :: "jobj option \<Rightarrow> bool" where
  "wf_spec sp \<longleftrightarrow> (case sp of None \<Rightarrow> True | Some m \<Rightarrow> wf_json (JObj m))"

definition wf_labels :: "(string \<times> string) list option \<Rightarrow> bool" where
  "wf_labels l \<longleftrightarrow> (case l of None \<Rightarrow> True | Some m \<Rightarrow> sorted_keys m)"

definition wf_resource :: "resource \<Rightarrow> bool" where
  "wf_resource r \<longleftrightarrow> wf_spec (rSpec r) \<and> wf_labels (rLabels r)"

definition addr_ok :: "resource \<Rightarrow> bool" where
  "addr_ok r \<longleftrightarrow>
     scopeRe (rOrg r) \<and> scopeRe (rProject r) \<and> scopeRe (rEnv r) \<and> rKind r \<in> set Kinds \<and> scopeRe (rName r)"

section \<open>Lemmas\<close>

lemma DeepCopy_id [simp]: "wf_resource r \<Longrightarrow> DeepCopy r = r"
proof (cases "rSpec r")
  case None
  then show ?thesis by (cases r) (simp add: DeepCopy_def)
next
  case (Some m)
  assume "wf_resource r"
  then have "unmarshal (marshal (JObj m)) = Some (JObj m)"
    using Some by (intro unmarshal_marshal) (simp add: wf_resource_def wf_spec_def)
  then show ?thesis using Some
    by (cases r) (simp add: DeepCopy_def marshal_spec_def del: marshal.simps)
qed

lemma DeepCopy_fields [simp]:
  "rID (DeepCopy r) = rID r" "rKind (DeepCopy r) = rKind r" "rOrg (DeepCopy r) = rOrg r"
  "rProject (DeepCopy r) = rProject r" "rEnv (DeepCopy r) = rEnv r" "rName (DeepCopy r) = rName r"
  "rGeneration (DeepCopy r) = rGeneration r" "rStatus (DeepCopy r) = rStatus r"
  "rCreatedAt (DeepCopy r) = rCreatedAt r" "rUpdatedAt (DeepCopy r) = rUpdatedAt r"
  "rLabels (DeepCopy r) = rLabels r" "LogicalKey (DeepCopy r) = LogicalKey r"
  by (simp_all add: DeepCopy_def LogicalKey_def)

lemma bounded_token_set:
  assumes "bounded_token edge inner s" and "c \<in> set s"
  shows "edge c \<or> inner c"
proof -
  obtain d ds where s: "s = d # ds" using assms(1) by (cases s) (auto simp: bounded_token_def)
  show ?thesis
  proof (cases "ds = []")
    case True
    then show ?thesis using assms s by (auto simp: bounded_token_def)
  next
    case False
    then have "set ds = insert (last ds) (set (butlast ds))"
      by (metis Un_commute append_butlast_last_id insert_is_Un list.simps(15) set_append list.set(1))
    then show ?thesis using assms s False by (auto simp: bounded_token_def list_all_iff)
  qed
qed

lemma bounded_token_length: "bounded_token edge inner s \<Longrightarrow> 0 < length s \<and> length s \<le> 63"
  by (cases s) (auto simp: bounded_token_def)

lemma scopeRe_no_slash: "scopeRe s \<Longrightarrow> CHR ''/'' \<notin> set s"
  unfolding scopeRe_def
  by (auto dest!: bounded_token_set simp: scope_edge_def is_lower_def is_digit_def byte_def)

lemma scopeRe_nonempty: "scopeRe s \<Longrightarrow> s \<noteq> []"
  by (auto simp: scopeRe_def bounded_token_def)

lemma Kinds_no_slash: "k \<in> set Kinds \<Longrightarrow> CHR ''/'' \<notin> set k"
  by (auto simp: Kinds_def kind_defs)

lemma labelRe_nonempty: "labelRe s \<Longrightarrow> s \<noteq> []"
  by (auto simp: labelRe_def bounded_token_def)

text \<open>Equality of encodings is equality of well-formed specs.\<close>

lemma marshal_spec_inject:
  assumes "wf_spec a" "wf_spec b"
  shows "marshal_spec a = marshal_spec b \<longleftrightarrow> a = b"
  using assms marshal_inject [of "JObj (the a)" "JObj (the b)"]
  by (cases a; cases b) (auto simp: marshal_spec_def wf_spec_def)

lemma sorted_keysD:
  "sorted_keys m \<Longrightarrow> distinct (map fst m)" "sorted_keys m \<Longrightarrow> sorted (map fst m)"
  by (simp_all add: sorted_keys_def strict_sorted_iff)

lemma sorted_keys_set_eq:
  assumes "sorted_keys m1" "sorted_keys m2" "set m1 = set m2"
  shows "m1 = m2"
proof -
  have "inj_on fst (set m1 \<union> set m2)"
    using sorted_keysD(1) [OF assms(1)] assms(3) by (simp add: distinct_map)
  then show ?thesis
    using assms sorted_keysD by (metis map_sorted_distinct_set_unique)
qed

lemma labels_eq_iff:
  assumes "sorted_keys m1" "sorted_keys m2" and ne: "\<forall>(k, v) \<in> set m1. v \<noteq> []"
  shows "labels_eq m1 m2 \<longleftrightarrow> m1 = m2"
proof
  assume e: "labels_eq m1 m2"
  have "set m1 \<subseteq> set m2"
  proof
    fix kv assume kv: "kv \<in> set m1"
    obtain k v where [simp]: "kv = (k, v)" by (cases kv)
    have "map_of m2 k = Some v"
      using e kv ne by (fastforce simp: labels_eq_def list_all_iff split: option.splits)
    then show "kv \<in> set m2" by (auto dest: map_of_SomeD)
  qed
  moreover have "card (set m1) = card (set m2)"
    using e sorted_keysD(1) [OF assms(1)] sorted_keysD(1) [OF assms(2)]
    by (simp add: labels_eq_def distinct_card distinct_map)
  ultimately have "set m1 = set m2" by (simp add: card_subset_eq)
  then show "m1 = m2" using assms(1,2) by (intro sorted_keys_set_eq)
next
  assume "m1 = m2"
  then show "labels_eq m1 m2"
    using sorted_keysD(1) [OF assms(1)] by (auto simp: labels_eq_def list_all_iff)
qed

lemma labels_eq_refl: "sorted_keys m \<Longrightarrow> labels_eq m m"
  using sorted_keysD(1) [of m] by (auto simp: labels_eq_def list_all_iff)

text \<open>Two addresses with valid parts have the same logical key only if they agree part by part.\<close>

lemma LogicalKey_inject:
  assumes "addr_ok a" "addr_ok b" "LogicalKey a = LogicalKey b"
  shows "rOrg a = rOrg b \<and> rProject a = rProject b \<and> rEnv a = rEnv b \<and> rKind a = rKind b \<and> rName a = rName b"
proof -
  have "[rOrg a, rProject a, rEnv a, rKind a, rName a] = [rOrg b, rProject b, rEnv b, rKind b, rName b]"
    using assms by (intro Join_inject [where d = "CHR ''/''"])
      (auto simp: LogicalKey_def addr_ok_def dest: scopeRe_no_slash Kinds_no_slash)
  then show ?thesis by simp
qed

end
