(* ===== verification/ApiKey.thy ===== *)
theory ApiKey
  imports Resource
begin

text \<open>
  Managed API keys, \<^verbatim>\<open>internal/state/apikey.go\<close>: the decoded spec, \<open>ParseAPIKeySpec\<close> with every
  error branch, \<open>ValidScope\<close>, \<open>NewAPIKeyResource\<close> and \<open>validateAPIKey\<close>. The lemmas characterise
  the scope grammar, what a successful parse guarantees, and that parsing the spec a new key
  resource carries gives back the requested key.
\<close>

section \<open>Definitions\<close>

definition RoleAdmin :: string where "RoleAdmin = ''admin''"
definition RoleOperator :: string where "RoleOperator = ''operator''"
definition RoleViewer :: string where "RoleViewer = ''viewer''"

definition Roles :: "string list" where
  "Roles = [RoleAdmin, RoleOperator, RoleViewer]"

lemmas role_defs = RoleAdmin_def RoleOperator_def RoleViewer_def

definition MaxAPIKeyScopes :: nat where "MaxAPIKeyScopes = 32"
definition wildcardScope :: string where "wildcardScope = ''org/*''"

record api_key_spec =
  kPrincipal :: string
  kRoles :: "string list"
  kKeyHash :: string
  kScopes :: "string list"
  kActive :: bool

abbreviation spec_error :: "string \<Rightarrow> string list \<Rightarrow> go_error" where
  "spec_error fmt args \<equiv> ValidationError ''spec'' (Msg fmt args)"

definition is_lower_hex :: "char \<Rightarrow> bool" where
  "is_lower_hex c \<longleftrightarrow> is_digit c \<or> (97 \<le> byte c \<and> byte c \<le> 102)"

definition keyHashRe :: "string \<Rightarrow> bool" where
  "keyHashRe s \<longleftrightarrow> length s = 64 \<and> list_all is_lower_hex s"

definition hasRole :: "string list \<Rightarrow> string \<Rightarrow> bool" where
  "hasRole roles role \<longleftrightarrow> list_ex (\<lambda>r. r = role) roles"

text \<open>The first index at which a check fails.\<close>

fun first_bad :: "('a \<Rightarrow> bool) \<Rightarrow> nat \<Rightarrow> 'a list \<Rightarrow> (nat \<times> 'a) option" where
  "first_bad ok i [] = None"
| "first_bad ok i (x # xs) = (if ok x then first_bad ok (Suc i) xs else Some (i, x))"

text \<open>The loop of \<open>decodeStringSlice\<close> over an \<open>[]any\<close>.\<close>

fun decode_items :: "string \<Rightarrow> nat \<Rightarrow> json list \<Rightarrow> go_error + string list" where
  "decode_items field i [] = Inr []"
| "decode_items field i (item # items) =
     (case item of
        JStr s \<Rightarrow>
          (case decode_items field (Suc i) items of Inl e \<Rightarrow> Inl e | Inr ss \<Rightarrow> Inr (s # ss))
      | _ \<Rightarrow> Inl (ValidationError field (Msg ''%s[%d] must be a string'' [field, dec i])))"

definition decodeStringSlice :: "json \<Rightarrow> string \<Rightarrow> go_error + string list" where
  "decodeStringSlice v field =
     (case v of
        JArr items \<Rightarrow> decode_items field 0 items
      | JStrs ss \<Rightarrow> Inr ss
      | _ \<Rightarrow> Inl (ValidationError field (Msg (field @ '' must be an array of strings'') [])))"

definition anySlice :: "string list \<Rightarrow> json" where
  "anySlice ss = JArr (map JStr ss)"

definition ValidScope :: "string \<Rightarrow> bool \<Rightarrow> bool" where
  "ValidScope s admin =
     (if s = wildcardScope then admin
      else case CutPrefix s ''org/'' of
        None \<Rightarrow> False
      | Some rest \<Rightarrow>
          (case Cut rest ''/project/'' of
             Some (org, project) \<Rightarrow> scopeRe org \<and> scopeRe project
           | None \<Rightarrow> scopeRe rest))"

text \<open>\<open>ParseAPIKeySpec\<close>, one definition per field in the order the code reads them.\<close>

definition parse_principal :: "jobj \<Rightarrow> go_error + string" where
  "parse_principal spec =
     (case map_of spec ''principal'' of
        None \<Rightarrow> Inl (spec_error ''spec.principal is required'' [])
      | Some (JStr p) \<Rightarrow>
          (if scopeRe p then Inr p
           else Inl (spec_error ''spec.principal must be 1-63 lowercase alphanumeric or '-' (DNS-1123)'' []))
      | Some _ \<Rightarrow> Inl (spec_error ''spec.principal must be 1-63 lowercase alphanumeric or '-' (DNS-1123)'' []))"

definition parse_roles :: "jobj \<Rightarrow> go_error + string list" where
  "parse_roles spec =
     (case map_of spec ''roles'' of
        None \<Rightarrow> Inl (spec_error ''spec.roles is required'' [])
      | Some raw \<Rightarrow>
          (case decodeStringSlice raw ''spec.roles'' of
             Inl e \<Rightarrow> Inl e
           | Inr roles \<Rightarrow>
               if roles = [] then Inl (spec_error ''spec.roles must contain at least one role'' [])
               else case first_bad (\<lambda>r. r \<in> set Roles) 0 roles of
                 Some (i, role) \<Rightarrow>
                   Inl (spec_error ''spec.roles[%d] %q must be one of: admin, operator, viewer'' [dec i, role])
               | None \<Rightarrow> Inr roles))"

definition parse_key_hash :: "jobj \<Rightarrow> go_error + string" where
  "parse_key_hash spec =
     (case map_of spec ''key_hash'' of
        None \<Rightarrow> Inl (spec_error ''spec.key_hash is required'' [])
      | Some (JStr h) \<Rightarrow>
          (if keyHashRe h then Inr h
           else Inl (spec_error ''spec.key_hash must be a 64-character lowercase hex sha256 digest'' []))
      | Some _ \<Rightarrow> Inl (spec_error ''spec.key_hash must be a 64-character lowercase hex sha256 digest'' []))"

definition parse_scopes :: "jobj \<Rightarrow> string list \<Rightarrow> go_error + string list" where
  "parse_scopes spec roles =
     (case map_of spec ''scopes'' of
        None \<Rightarrow> Inl (spec_error ''spec.scopes is required'' [])
      | Some raw \<Rightarrow>
          (case decodeStringSlice raw ''spec.scopes'' of
             Inl e \<Rightarrow> Inl e
           | Inr scopes \<Rightarrow>
               if length scopes > MaxAPIKeyScopes then
                 Inl (spec_error ''spec.scopes exceeds %d entries'' [dec MaxAPIKeyScopes])
               else case first_bad (\<lambda>s. ValidScope s (hasRole roles RoleAdmin)) 0 scopes of
                 Some (i, scope) \<Rightarrow>
                   Inl (spec_error ''spec.scopes[%d] %q must be org/<org> or org/<org>/project/<project> with DNS-1123 segments'' [dec i, scope])
               | None \<Rightarrow>
                   if scopes = [] \<and> \<not> hasRole roles RoleAdmin then
                     Inl (spec_error ''spec.scopes must be non-empty for operator/viewer keys'' [])
                   else Inr scopes))"

text \<open>\<open>if v, ok := spec[active]; ok && v != nil\<close>: absent and null keep the default.\<close>

definition parse_active :: "jobj \<Rightarrow> go_error + bool" where
  "parse_active spec =
     (case map_of spec ''active'' of
        None \<Rightarrow> Inr True
      | Some JNull \<Rightarrow> Inr True
      | Some (JBool b) \<Rightarrow> Inr b
      | Some _ \<Rightarrow> Inl (spec_error ''spec.active must be a boolean'' []))"

definition ParseAPIKeySpec :: "jobj option \<Rightarrow> go_error + api_key_spec" where
  "ParseAPIKeySpec sp =
     (case sp of
        None \<Rightarrow> Inl (spec_error ''spec is required'' [])
      | Some spec \<Rightarrow>
          (case parse_principal spec of Inl e \<Rightarrow> Inl e | Inr prin \<Rightarrow>
          (case parse_roles spec of Inl e \<Rightarrow> Inl e | Inr roles \<Rightarrow>
          (case parse_key_hash spec of Inl e \<Rightarrow> Inl e | Inr hash \<Rightarrow>
          (case parse_scopes spec roles of Inl e \<Rightarrow> Inl e | Inr scopes \<Rightarrow>
          (case parse_active spec of Inl e \<Rightarrow> Inl e | Inr active \<Rightarrow>
             Inr \<lparr>kPrincipal = prin, kRoles = roles, kKeyHash = hash, kScopes = scopes,
                  kActive = active\<rparr>))))))"

definition zero_status :: status where
  "zero_status = \<lparr>sPhase = [], sMessage = [], sObservedGen = 0, sUpdatedAt = 0\<rparr>"

definition NewAPIKeyResource :: "string \<Rightarrow> string list \<Rightarrow> string list \<Rightarrow> string \<Rightarrow> resource" where
  "NewAPIKeyResource prin roles scopes keyHash =
     \<lparr>rID = [], rKind = KindAPIKey, rOrg = ReservedOrg, rProject = ReservedProject, rEnv = ReservedEnv,
      rName = prin, rGeneration = 0, rLabels = None,
      rSpec = Some [(''active'', JBool True), (''key_hash'', JStr keyHash), (''principal'', JStr prin),
                    (''roles'', anySlice roles), (''scopes'', anySlice scopes)],
      rStatus = zero_status, rCreatedAt = 0, rUpdatedAt = 0\<rparr>"

definition validateAPIKey :: "resource \<Rightarrow> go_error option" where
  "validateAPIKey r =
     (if rOrg r \<noteq> ReservedOrg then
        Some (ValidationError ''org'' (Msg ''managed API keys must use the reserved org %q'' [ReservedOrg]))
      else if rProject r \<noteq> ReservedProject \<or> rEnv r \<noteq> ReservedEnv then
        Some (ValidationError ''project'' (Msg ''managed API keys live only at %s/%s/%s''
          [ReservedOrg, ReservedProject, ReservedEnv]))
      else if \<not> scopeRe (rName r) then
        Some (ValidationError ''name'' (Msg ''must be 1-63 lowercase alphanumeric or '-', start/end alphanumeric'' []))
      else case ParseAPIKeySpec (rSpec r) of
        Inl e \<Rightarrow> Some e
      | Inr spec \<Rightarrow>
          if kPrincipal spec \<noteq> rName r then
            Some (ValidationError ''name'' (Msg ''resource name %q must match spec.principal %q'' [rName r, kPrincipal spec]))
          else None)"

text \<open>What a successful parse guarantees.\<close>

definition wf_key_spec :: "api_key_spec \<Rightarrow> bool" where
  "wf_key_spec k \<longleftrightarrow>
     scopeRe (kPrincipal k) \<and> kRoles k \<noteq> [] \<and> set (kRoles k) \<subseteq> set Roles \<and> keyHashRe (kKeyHash k) \<and>
     length (kScopes k) \<le> MaxAPIKeyScopes \<and>
     list_all (\<lambda>s. ValidScope s (RoleAdmin \<in> set (kRoles k))) (kScopes k) \<and>
     (kScopes k \<noteq> [] \<or> RoleAdmin \<in> set (kRoles k))"

section \<open>Lemmas\<close>

lemma hasRole_iff [simp]: "hasRole roles role \<longleftrightarrow> role \<in> set roles"
  by (auto simp: hasRole_def list_ex_iff)

lemma first_bad_None: "first_bad ok i xs = None \<longleftrightarrow> list_all ok xs"
  by (induction xs arbitrary: i) auto

lemma decode_items_JStr [simp]: "decode_items field i (map JStr ss) = Inr ss"
  by (induction ss arbitrary: i) auto

lemma decodeStringSlice_anySlice [simp]: "decodeStringSlice (anySlice ss) field = Inr ss"
  by (simp add: decodeStringSlice_def anySlice_def)

lemma Cut_sound: "Cut s sep = Some (a, b) \<Longrightarrow> s = a @ sep @ b"
  by (induction s sep arbitrary: a b rule: Cut.induct)
     (auto simp: HasPrefix_iff split: if_splits)

lemma Cut_first:
  assumes "d \<notin> set a" "sep = d # sep'"
  shows "Cut (a @ sep @ b) sep = Some (a, b)"
  using assms
proof (induction a)
  case Nil
  then show ?case by (simp add: HasPrefix_def)
next
  case (Cons c a)
  then have "\<not> HasPrefix ((c # a) @ sep @ b) sep" by (auto simp: HasPrefix_def)
  then show ?case using Cons by simp
qed

lemma Cut_none: "d \<notin> set s \<Longrightarrow> Cut s (d # sep') = None"
  by (induction s) (auto simp: HasPrefix_iff)

text \<open>The scope grammar: \<open>org/<org>\<close> or \<open>org/<org>/project/<project>\<close> over DNS-1123 names,
  and the wildcard on admin keys only.\<close>

lemma ValidScope_iff:
  "ValidScope s admin \<longleftrightarrow>
     (s = wildcardScope \<and> admin) \<or>
     (\<exists>org. s = ''org/'' @ org \<and> scopeRe org) \<or>
     (\<exists>org project. s = ''org/'' @ org @ ''/project/'' @ project \<and> scopeRe org \<and> scopeRe project)"
    (is "?l \<longleftrightarrow> ?r")
proof
  assume ?l
  then show ?r
    by (auto simp: ValidScope_def CutPrefix_Some split: if_splits option.splits dest!: Cut_sound)
next
  have star: "\<not> scopeRe ''*''" by code_simp
  have slash: "CHR ''/'' \<in> set (org @ ''/project/'' @ project)" for org project by simp
  assume ?r
  then consider (w) "s = wildcardScope" "admin"
    | (o1) org where "s = ''org/'' @ org" "scopeRe org"
    | (o2) org project where "s = ''org/'' @ org @ ''/project/'' @ project" "scopeRe org" "scopeRe project"
    by blast
  then show ?l
  proof cases
    case w
    then show ?thesis by (simp add: ValidScope_def)
  next
    case o1
    then have "s \<noteq> wildcardScope" using star by (auto simp: wildcardScope_def)
    moreover have "Cut org ''/project/'' = None" using o1 by (intro Cut_none scopeRe_no_slash)
    ultimately show ?thesis using o1 by (simp add: ValidScope_def CutPrefix_def HasPrefix_def)
  next
    case o2
    then have "s \<noteq> wildcardScope" using slash by (auto simp: wildcardScope_def append_eq_Cons_conv)
    moreover have "Cut (org @ ''/project/'' @ project) ''/project/'' = Some (org, project)"
      using o2 scopeRe_no_slash by (intro Cut_first) auto
    ultimately show ?thesis using o2 by (simp add: ValidScope_def CutPrefix_def HasPrefix_def)
  qed
qed

lemma parse_partsD:
  "parse_principal spec = Inr p \<Longrightarrow> scopeRe p"
  "parse_roles spec = Inr roles \<Longrightarrow> roles \<noteq> [] \<and> list_all (\<lambda>r. r \<in> set Roles) roles"
  "parse_key_hash spec = Inr h \<Longrightarrow> keyHashRe h"
  "parse_scopes spec roles = Inr scopes \<Longrightarrow>
     length scopes \<le> MaxAPIKeyScopes \<and> list_all (\<lambda>s. ValidScope s (RoleAdmin \<in> set roles)) scopes \<and>
     (scopes \<noteq> [] \<or> RoleAdmin \<in> set roles)"
  by (auto simp: parse_principal_def parse_roles_def parse_key_hash_def parse_scopes_def first_bad_None
      split: option.splits json.splits if_splits sum.splits)

lemma ParseAPIKeySpec_wf: "ParseAPIKeySpec sp = Inr k \<Longrightarrow> wf_key_spec k"
  by (auto simp: ParseAPIKeySpec_def wf_key_spec_def list_all_iff
      split: option.splits sum.splits dest!: parse_partsD)

lemma ParseAPIKeySpec_New:
  assumes "wf_key_spec \<lparr>kPrincipal = p, kRoles = roles, kKeyHash = h, kScopes = scopes, kActive = True\<rparr>"
  shows "ParseAPIKeySpec (rSpec (NewAPIKeyResource p roles scopes h)) =
     Inr \<lparr>kPrincipal = p, kRoles = roles, kKeyHash = h, kScopes = scopes, kActive = True\<rparr>"
proof -
  have "first_bad (\<lambda>r. r \<in> set Roles) 0 roles = None"
    and "first_bad (\<lambda>s. ValidScope s (RoleAdmin \<in> set roles)) 0 scopes = None"
    using assms by (auto simp: wf_key_spec_def list_all_iff first_bad_None)
  then show ?thesis
    using assms
    by (simp add: ParseAPIKeySpec_def NewAPIKeyResource_def wf_key_spec_def parse_principal_def
        parse_roles_def parse_key_hash_def parse_scopes_def parse_active_def)
qed

lemma validateAPIKey_None:
  "validateAPIKey r = None \<longleftrightarrow>
     rOrg r = ReservedOrg \<and> rProject r = ReservedProject \<and> rEnv r = ReservedEnv \<and> scopeRe (rName r) \<and>
     (\<exists>k. ParseAPIKeySpec (rSpec r) = Inr k \<and> kPrincipal k = rName r)"
  by (auto simp: validateAPIKey_def split: sum.splits)

end
