(* ===== verification/Go_Net.thy ===== *)
theory Go_Net
  imports Json
begin

text \<open>
  What the webhook egress guard uses of Go's standard library: \<open>url.Parse\<close> (scheme, host and
  whether it fails), \<open>URL.Hostname\<close>, \<open>net.ParseIP\<close> and the address classes of \<open>net.IP\<close>. An IP
  address is the list of its 16 bytes, as \<open>net.ParseIP\<close> returns it.
\<close>

section \<open>Searching strings\<close>

fun LastIndex :: "char \<Rightarrow> string \<Rightarrow> nat option" where
  "LastIndex d [] = None"
| "LastIndex d (c # cs) =
     (case LastIndex d cs of Some i \<Rightarrow> Some (Suc i) | None \<Rightarrow> if c = d then Some 0 else None)"

fun IndexStr :: "string \<Rightarrow> string \<Rightarrow> nat option" where
  "IndexStr sub [] = (if sub = [] then Some 0 else None)"
| "IndexStr sub (c # cs) =
     (if HasPrefix (c # cs) sub then Some 0 else map_option Suc (IndexStr sub cs))"

section \<open>url.Parse\<close>

record url =
  uScheme :: string
  uHost :: string

definition is_alpha :: "char \<Rightarrow> bool" where
  "is_alpha c \<longleftrightarrow> is_lower c \<or> is_upper c"

text \<open>\<open>getScheme\<close>: \<open>None\<close> is the error for a leading colon.\<close>

fun get_scheme_aux :: "string \<Rightarrow> string \<Rightarrow> (string \<times> string) option option" where
  "get_scheme_aux acc [] = Some None"
| "get_scheme_aux acc (c # cs) =
     (if is_alpha c then get_scheme_aux (acc @ [c]) cs
      else if is_digit c \<or> c \<in> {CHR ''+'', CHR ''-'', CHR ''.''} then
        (if acc = [] then Some None else get_scheme_aux (acc @ [c]) cs)
      else if c = CHR '':'' then (if acc = [] then None else Some (Some (acc, cs)))
      else Some None)"

definition getScheme :: "string \<Rightarrow> (string \<times> string) option" where
  "getScheme s =
     (case get_scheme_aux [] s of
        None \<Rightarrow> None | Some None \<Rightarrow> Some ([], s) | Some (Some p) \<Rightarrow> Some p)"

datatype escape_mode = EncHost | EncZone | EncOther

definition shouldEscapeHost :: "char \<Rightarrow> bool" where
  "shouldEscapeHost c \<longleftrightarrow>
     \<not> (is_alpha c \<or> is_digit c \<or> c \<in> set (CHR 0x22 # CHR 0x27 # ''!$&()*+,;=:[]<>-_.~''))"

text \<open>\<open>unescape\<close> for hosts, zones and the modes without character restrictions.\<close>

fun unescape :: "escape_mode \<Rightarrow> string \<Rightarrow> string option" where
  "unescape mode [] = Some []"
| "unescape mode (c # cs) =
     (if c = CHR ''%'' then
        (case cs of
           x # y # r \<Rightarrow>
             (case (hex_val x, hex_val y) of
                (Some hi, Some lo) \<Rightarrow>
                  (let v = char_of (hi * 16 + lo); lit25 = (x = CHR ''2'' \<and> y = CHR ''5'')
                   in if mode = EncHost \<and> hi < 8 \<and> \<not> lit25 then None
                      else if mode = EncZone \<and> \<not> lit25 \<and> byte v \<noteq> 32 \<and> shouldEscapeHost v then None
                      else map_option (Cons v) (unescape mode r))
              | _ \<Rightarrow> None)
         | _ \<Rightarrow> None)
      else if mode \<noteq> EncOther \<and> byte c < 0x80 \<and> shouldEscapeHost c then None
      else map_option (Cons c) (unescape mode cs))"

definition validOptionalPort :: "string \<Rightarrow> bool" where
  "validOptionalPort p \<longleftrightarrow> (case p of [] \<Rightarrow> True | c # cs \<Rightarrow> c = CHR '':'' \<and> list_all is_digit cs)"

definition parseHost :: "string \<Rightarrow> string option" where
  "parseHost host =
     (if HasPrefix host ''['' then
        (case LastIndex (CHR '']'') host of
           None \<Rightarrow> None
         | Some i \<Rightarrow>
             if \<not> validOptionalPort (drop (Suc i) host) then None
             else case IndexStr ''%25'' (take i host) of
               Some z \<Rightarrow>
                 (case (unescape EncHost (take z host), unescape EncZone (drop z (take i host)),
                        unescape EncHost (drop i host)) of
                    (Some a, Some b, Some c) \<Rightarrow> Some (a @ b @ c)
                  | _ \<Rightarrow> None)
             | None \<Rightarrow> unescape EncHost host)
      else case LastIndex (CHR '':'') host of
        Some i \<Rightarrow> if validOptionalPort (drop i host) then unescape EncHost host else None
      | None \<Rightarrow> unescape EncHost host)"

definition validUserinfo :: "string \<Rightarrow> bool" where
  "validUserinfo s \<longleftrightarrow>
     list_all (\<lambda>c. is_alpha c \<or> is_digit c \<or> c \<in> set (CHR 0x27 # ''-._:~!$&()*+,;=%@'')) s"

definition parseAuthority :: "string \<Rightarrow> string option" where
  "parseAuthority a =
     (case LastIndex (CHR ''@'') a of
        None \<Rightarrow> parseHost a
      | Some i \<Rightarrow>
          (case parseHost (drop (Suc i) a) of
             None \<Rightarrow> None
           | Some h \<Rightarrow>
               let ui = take i a
               in if \<not> validUserinfo ui then None
                  else (case Cut ui '':'' of
                     None \<Rightarrow> if unescape EncOther ui = None then None else Some h
                   | Some (u, p) \<Rightarrow>
                       if unescape EncOther u = None \<or> unescape EncOther p = None then None else Some h)))"

definition has_ctl :: "string \<Rightarrow> bool" where
  "has_ctl s \<longleftrightarrow> list_ex (\<lambda>c. byte c < 32 \<or> byte c = 127) s"

definition strip_query :: "string \<Rightarrow> string" where
  "strip_query rest = (case Cut rest ''?'' of Some (a, b) \<Rightarrow> a | None \<Rightarrow> rest)"

definition url_path_host :: "string \<Rightarrow> string \<Rightarrow> url option" where
  "url_path_host scheme rest =
     (if HasPrefix rest ''//'' \<and> (scheme \<noteq> [] \<or> \<not> HasPrefix rest ''///'') then
        (let auth0 = drop 2 rest;
             auth = takeWhile (\<lambda>c. c \<noteq> CHR ''/'') auth0;
             path = dropWhile (\<lambda>c. c \<noteq> CHR ''/'') auth0
         in case parseAuthority auth of
              None \<Rightarrow> None
            | Some h \<Rightarrow> if unescape EncOther path = None then None
                        else Some \<lparr>uScheme = scheme, uHost = h\<rparr>)
      else if unescape EncOther rest = None then None
      else Some \<lparr>uScheme = scheme, uHost = []\<rparr>)"

definition url_parse_nofrag :: "string \<Rightarrow> url option" where
  "url_parse_nofrag s =
     (if has_ctl s then None
      else if s = ''*'' then Some \<lparr>uScheme = [], uHost = []\<rparr>
      else case getScheme s of
        None \<Rightarrow> None
      | Some (sch, rest0) \<Rightarrow>
          let scheme = ToLower sch; rest = strip_query rest0
          in if \<not> HasPrefix rest ''/'' then
               (if scheme \<noteq> [] then Some \<lparr>uScheme = scheme, uHost = []\<rparr>
                else if CHR '':'' \<in> set (takeWhile (\<lambda>c. c \<noteq> CHR ''/'') rest) then None
                else url_path_host scheme rest)
             else url_path_host scheme rest)"

definition url_Parse :: "string \<Rightarrow> url option" where
  "url_Parse raw =
     (case Cut raw ''#'' of
        None \<Rightarrow> url_parse_nofrag raw
      | Some (u, frag) \<Rightarrow>
          (case url_parse_nofrag u of
             None \<Rightarrow> None
           | Some v \<Rightarrow> if unescape EncOther frag = None then None else Some v))"

text \<open>\<open>URL.Hostname\<close>: the host without its port and without the brackets of an IPv6 literal.\<close>

definition Hostname :: "url \<Rightarrow> string" where
  "Hostname u =
     (let h = uHost u;
          h1 = (case LastIndex (CHR '':'') h of
                  Some i \<Rightarrow> if validOptionalPort (drop i h) then take i h else h
                | None \<Rightarrow> h)
      in if HasPrefix h1 ''['' \<and> HasSuffix h1 '']'' then take (length h1 - 2) (drop 1 h1) else h1)"

section \<open>net.ParseIP\<close>

type_synonym ip = "nat list"  \<comment> \<open>16 bytes\<close>

definition v4_field :: "string \<Rightarrow> nat option" where
  "v4_field s =
     (if s = [] \<or> \<not> list_all is_digit s \<or> (hd s = CHR ''0'' \<and> length s \<noteq> 1) \<or> digits_value s > 255
      then None else Some (digits_value s))"

definition parseIPv4Fields :: "string \<Rightarrow> nat list option" where
  "parseIPv4Fields s =
     (case map v4_field (Split (CHR ''.'') s) of
        [Some a, Some b, Some c, Some d] \<Rightarrow> Some [a, b, c, d]
      | _ \<Rightarrow> None)"

definition v4_to_16 :: "nat list \<Rightarrow> ip" where
  "v4_to_16 b = replicate 10 0 @ [255, 255] @ b"

definition hex_value :: "string \<Rightarrow> nat" where
  "hex_value s = foldl (\<lambda>a c. a * 16 + (case hex_val c of Some v \<Rightarrow> v | None \<Rightarrow> 0)) 0 s"

abbreviation is_hex :: "char \<Rightarrow> bool" where
  "is_hex c \<equiv> hex_val c \<noteq> None"

text \<open>The group loop of \<open>parseIPv6\<close>: bytes so far, position of the ellipsis, rest of the text.\<close>

fun v6_groups :: "nat \<Rightarrow> nat list \<Rightarrow> nat option \<Rightarrow> string \<Rightarrow> (nat list \<times> nat option \<times> string) option" where
  "v6_groups 0 bs ell s = Some (bs, ell, s)"
| "v6_groups (Suc n) bs ell s =
     (let g = takeWhile is_hex s; r = dropWhile is_hex s
      in if g = [] \<or> length g > 4 then None
         else if r \<noteq> [] \<and> hd r = CHR ''.'' then
           (if (ell = None \<and> length bs \<noteq> 12) \<or> length bs + 4 > 16 then None
            else map_option (\<lambda>f. (bs @ f, ell, [])) (parseIPv4Fields s))
         else let bs1 = bs @ [hex_value g div 256, hex_value g mod 256]
          in case r of
               [] \<Rightarrow> Some (bs1, ell, [])
             | c # t \<Rightarrow>
                 if c \<noteq> CHR '':'' \<or> t = [] then None
                 else if hd t = CHR '':'' then
                   (if ell \<noteq> None then None
                    else if tl t = [] then Some (bs1, Some (length bs1), [])
                    else v6_groups n bs1 (Some (length bs1)) (tl t))
                 else v6_groups n bs1 ell t)"

definition v6_finish :: "nat list \<times> nat option \<times> string \<Rightarrow> ip option" where
  "v6_finish x =
     (case x of (bs, ell, s) \<Rightarrow>
        if s \<noteq> [] then None
        else if length bs < 16 then
          (case ell of
             None \<Rightarrow> None
           | Some k \<Rightarrow> Some (take k bs @ replicate (16 - length bs) 0 @ drop k bs))
        else if ell \<noteq> None then None else Some bs)"

definition parseIPv6 :: "string \<Rightarrow> ip option" where
  "parseIPv6 s =
     (if HasPrefix s ''::'' then
        (if length s = 2 then Some (replicate 16 0)
         else Option.bind (v6_groups 8 [] (Some 0) (drop 2 s)) v6_finish)
      else Option.bind (v6_groups 8 [] None s) v6_finish)"

text \<open>\<open>net.ParseIP\<close>: the first dot or colon chooses the family; a zone makes it fail.\<close>

fun ip_family :: "string \<Rightarrow> char option" where
  "ip_family [] = None"
| "ip_family (c # cs) =
     (if c = CHR ''.'' \<or> c = CHR '':'' \<or> c = CHR ''%'' then Some c else ip_family cs)"

definition ParseIP :: "string \<Rightarrow> ip option" where
  "ParseIP s =
     (if ip_family s = Some (CHR ''.'') then map_option v4_to_16 (parseIPv4Fields s)
      else if ip_family s = Some (CHR '':'') then
        (if CHR ''%'' \<in> set s then None else parseIPv6 s)
      else None)"

section \<open>Address classes\<close>

definition To4 :: "ip \<Rightarrow> nat list option" where
  "To4 i = (if take 12 i = replicate 10 0 @ [255, 255] \<and> length i = 16 then Some (drop 12 i) else None)"

definition IsUnspecified :: "ip \<Rightarrow> bool" where
  "IsUnspecified i \<longleftrightarrow> To4 i = Some [0, 0, 0, 0] \<or> i = replicate 16 0"

definition IsLoopback :: "ip \<Rightarrow> bool" where
  "IsLoopback i = (case To4 i of Some b \<Rightarrow> b ! 0 = 127 | None \<Rightarrow> i = replicate 15 0 @ [1])"

definition IsLinkLocalUnicast :: "ip \<Rightarrow> bool" where
  "IsLinkLocalUnicast i =
     (case To4 i of Some b \<Rightarrow> b ! 0 = 169 \<and> b ! 1 = 254
      | None \<Rightarrow> i ! 0 = 254 \<and> i ! 1 div 64 = 2)"

definition IsPrivate :: "ip \<Rightarrow> bool" where
  "IsPrivate i =
     (case To4 i of
        Some b \<Rightarrow> b ! 0 = 10 \<or> (b ! 0 = 172 \<and> b ! 1 div 16 = 1) \<or> (b ! 0 = 192 \<and> b ! 1 = 168)
      | None \<Rightarrow> i ! 0 div 2 = 126)"

definition IsMulticast :: "ip \<Rightarrow> bool" where
  "IsMulticast i = (case To4 i of Some b \<Rightarrow> b ! 0 div 16 = 14 | None \<Rightarrow> i ! 0 = 255)"

definition IsInterfaceLocalMulticast :: "ip \<Rightarrow> bool" where
  "IsInterfaceLocalMulticast i \<longleftrightarrow> i ! 0 = 255 \<and> i ! 1 mod 16 = 1"

section \<open>Lemmas\<close>

lemma v4_field_bound: "v4_field s = Some n \<Longrightarrow> n \<le> 255"
  by (auto simp: v4_field_def split: if_splits)

lemma parseIPv4Fields_Some:
  assumes "parseIPv4Fields s = Some b"
  obtains w x y z where "b = [w, x, y, z]" "w \<le> 255" "x \<le> 255" "y \<le> 255" "z \<le> 255"
  using assms v4_field_bound
  by (auto simp: parseIPv4Fields_def split: list.splits option.splits)

lemma To4_v4 [simp]: "length b = 4 \<Longrightarrow> To4 (v4_to_16 b) = Some b"
  by (simp add: To4_def v4_to_16_def eval_nat_numeral)

text \<open>Dotted quads: printing four bytes and parsing them back.\<close>

lemma v4_field_dec: "n \<le> 255 \<Longrightarrow> v4_field (dec n) = Some n"
proof -
  assume n: "n \<le> 255"
  have "length (dec n) = 1" if "hd (dec n) = CHR ''0''"
  proof (cases "n = 0")
    case True
    then show ?thesis by (simp add: dec.simps)
  next
    case False
    then show ?thesis using hd_dec [of n] that by simp
  qed
  then show ?thesis using n by (auto simp: v4_field_def)
qed

lemma dec_no_dot: "CHR ''.'' \<notin> set (dec n)"
  using dec_digits [of n] by (auto simp: list_all_iff)

lemma parseIPv4Fields_print:
  assumes "a \<le> 255" "b \<le> 255" "c \<le> 255" "d \<le> 255"
  shows "parseIPv4Fields (Join ''.'' [dec a, dec b, dec c, dec d]) = Some [a, b, c, d]"
proof -
  have "Split (CHR ''.'') (Join ''.'' [dec a, dec b, dec c, dec d]) = [dec a, dec b, dec c, dec d]"
    by (intro Split_Join) (auto simp: dec_no_dot)
  then show ?thesis using assms by (simp add: parseIPv4Fields_def v4_field_dec del: Join.simps)
qed

end
