(* ===== verification/Subscription.thy ===== *)
theory Subscription
  imports ApiKey Go_Net
begin

text \<open>
  Webhook subscriptions, \<^verbatim>\<open>internal/state/subscription.go\<close>: the egress policy on addresses and
  URLs, the bus pattern grammar, \<open>ParseSubscriptionSpec\<close> with every error branch, and
  \<open>Resource.Validate\<close> of \<^verbatim>\<open>resource.go\<close>, which calls it. The environment (the opt-in variable
  and the DNS resolver, a service outside the repository) is the argument \<open>env\<close>.
\<close>

section \<open>Egress policy\<close>

record egress_env =
  AllowPrivate :: bool                                \<comment> \<open>\<open>RYVEX_ALLOW_PRIVATE_WEBHOOKS=1\<close>\<close>
  LookupHost :: "string \<Rightarrow> string list option"        \<comment> \<open>\<open>HostResolver.LookupHost\<close>, \<open>None\<close> on error\<close>

definition ForbiddenWebhookIPReason :: "ip option \<Rightarrow> string" where
  "ForbiddenWebhookIPReason x =
     (case x of
        None \<Rightarrow> ''invalid address''
      | Some i \<Rightarrow>
          let v4 = To4 i
          in if (case v4 of Some b \<Rightarrow> b ! 0 = 0 | None \<Rightarrow> False) then ''non-public address (0.0.0.0/8)''
             else if (case v4 of Some b \<Rightarrow> b ! 0 = 100 \<and> 64 \<le> b ! 1 \<and> b ! 1 \<le> 127 | None \<Rightarrow> False)
             then ''non-public address (CGNAT 100.64.0.0/10)''
             else if (case v4 of Some b \<Rightarrow> 240 \<le> b ! 0 | None \<Rightarrow> False)
             then ''non-public address (reserved 240.0.0.0/4)''
             else if IsUnspecified i then ''non-public address (unspecified)''
             else if IsLoopback i then ''loopback address (127.0.0.0/8, ::1)''
             else if IsLinkLocalUnicast i then ''link-local address (169.254.0.0/16, fe80::/10)''
             else if IsPrivate i
             then ''private address (RFC1918 10/8, 172.16/12, 192.168/16; IPv6 ULA fc00::/7)''
             else if IsInterfaceLocalMulticast i \<or> IsMulticast i then ''multicast address''
             else [])"

definition IsForbiddenWebhookIP :: "ip option \<Rightarrow> bool" where
  "IsForbiddenWebhookIP x \<longleftrightarrow> ForbiddenWebhookIPReason x \<noteq> []"

definition reservedTLDHost :: "string \<Rightarrow> bool" where
  "reservedTLDHost host \<longleftrightarrow>
     list_ex (\<lambda>tld. HasSuffix (ToLower host) tld) [''.test'', ''.example'', ''.invalid'']"

text \<open>The loop over the resolved addresses: unparsable ones are skipped, the first forbidden one
  is reported.\<close>

fun first_forbidden :: "string list \<Rightarrow> (string \<times> string) option" where
  "first_forbidden [] = None"
| "first_forbidden (a # as) =
     (case ParseIP a of
        None \<Rightarrow> first_forbidden as
      | Some i \<Rightarrow>
          if ForbiddenWebhookIPReason (Some i) \<noteq> [] then Some (a, ForbiddenWebhookIPReason (Some i))
          else first_forbidden as)"

definition validateWebhookEgress :: "egress_env \<Rightarrow> url \<Rightarrow> go_error option" where
  "validateWebhookEgress env u =
     (if AllowPrivate env then None
      else let host = Hostname u
       in if host = [] then Some (spec_error ''spec.url host is empty'' [])
          else if CHR ''%'' \<in> set host then
            Some (spec_error ''spec.url host %q is zone-scoped (link-local scope); such targets are refused'' [host])
          else case ParseIP host of
            Some i \<Rightarrow>
              (if ForbiddenWebhookIPReason (Some i) \<noteq> [] then
                 Some (spec_error ''spec.url host %q is a %s; private and internal targets are refused unless %s=1''
                   [host, ForbiddenWebhookIPReason (Some i), ''RYVEX_ALLOW_PRIVATE_WEBHOOKS''])
               else None)
          | None \<Rightarrow>
              if reservedTLDHost host then None
              else case LookupHost env host of
                None \<Rightarrow> Some (spec_error ''spec.url host %q does not resolve; unresolvable webhook targets are refused (set %s=1 to bypass egress validation for on-prem use)''
                   [host, ''RYVEX_ALLOW_PRIVATE_WEBHOOKS''])
              | Some addrs \<Rightarrow>
                  (case first_forbidden addrs of
                     Some (a, reason) \<Rightarrow>
                       Some (spec_error ''spec.url host %q resolves to a %s (%s); private and internal targets are refused unless %s=1''
                         [host, reason, a, ''RYVEX_ALLOW_PRIVATE_WEBHOOKS''])
                   | None \<Rightarrow> None))"

section \<open>Subscription specs\<close>

record subscription_spec =
  wURL :: string
  wSubjects :: "string list"
  wActive :: bool
  wMaxRetries :: int

definition MaxSubscriptionSubjects :: nat where "MaxSubscriptionSubjects = 16"
definition MaxSubscriptionRetries :: int where "MaxSubscriptionRetries = 10"
definition DefSubscriptionRetries :: int where "DefSubscriptionRetries = 5"

definition subjectSegRe :: "string \<Rightarrow> bool" where
  "subjectSegRe s \<longleftrightarrow>
     s \<noteq> [] \<and> list_all (\<lambda>c. is_alpha c \<or> is_digit c \<or> c \<in> set ''*>,.-'') s"

text \<open>The segment loop: a tail wildcard is allowed in the last position only.\<close>

fun segs_ok :: "string list \<Rightarrow> bool" where
  "segs_ok [] = True"
| "segs_ok (seg # segs) =
     (if \<not> subjectSegRe seg then False
      else if seg = ''>'' \<and> segs \<noteq> [] then False
      else segs_ok segs)"

definition ValidBusPattern :: "string \<Rightarrow> bool" where
  "ValidBusPattern p = (if p = [] then False else segs_ok (Split (CHR ''.'') p))"

text \<open>\<open>numericInt\<close>: a float with an integral value that fits \<open>int64\<close>, or a Go int.\<close>

definition numericInt :: "json \<Rightarrow> int option" where
  "numericInt v =
     (case v of
        JNum neg m e \<Rightarrow>
          (if e < 0 \<and> m mod 10 ^ nat (- e) \<noteq> 0 then None
           else let a = (if e < 0 then int (m div 10 ^ nat (- e)) else int m * 10 ^ nat e);
                    n = (if neg then - a else a)
                in if int64_range n then Some n else None)
      | JInt n \<Rightarrow> Some n
      | _ \<Rightarrow> None)"

definition parse_url :: "egress_env \<Rightarrow> jobj \<Rightarrow> go_error + string" where
  "parse_url env spec =
     (case map_of spec ''url'' of
        None \<Rightarrow> Inl (spec_error ''spec.url is required'' [])
      | Some (JStr raw) \<Rightarrow>
          (if TrimSpace raw = [] then Inl (spec_error ''spec.url must be a non-empty string'' [])
           else case url_Parse raw of
             None \<Rightarrow> Inl (spec_error ''spec.url %q must be a valid http(s) URL'' [raw])
           | Some u \<Rightarrow>
               if (uScheme u \<noteq> ''http'' \<and> uScheme u \<noteq> ''https'') \<or> uHost u = [] then
                 Inl (spec_error ''spec.url %q must be a valid http(s) URL'' [raw])
               else if HasSuffix (uHost u) '':'' then
                 Inl (spec_error ''spec.url %q has an empty port; omit the colon or specify a port'' [raw])
               else case validateWebhookEgress env u of
                 Some e \<Rightarrow> Inl e
               | None \<Rightarrow> Inr raw)
      | Some _ \<Rightarrow> Inl (spec_error ''spec.url must be a non-empty string'' []))"

fun parse_patterns :: "nat \<Rightarrow> json list \<Rightarrow> go_error + string list" where
  "parse_patterns i [] = Inr []"
| "parse_patterns i (v # vs) =
     (case v of
        JStr p \<Rightarrow>
          (if ValidBusPattern p then
             (case parse_patterns (Suc i) vs of Inl e \<Rightarrow> Inl e | Inr ps \<Rightarrow> Inr (p # ps))
           else Inl (spec_error ''spec.subjects[%d] %q is not a valid bus subject pattern'' [dec i, p]))
      | _ \<Rightarrow> Inl (spec_error ''spec.subjects[%d] %q is not a valid bus subject pattern'' [dec i, marshal v]))"

definition parse_subjects :: "jobj \<Rightarrow> go_error + string list" where
  "parse_subjects spec =
     (case map_of spec ''subjects'' of
        None \<Rightarrow> Inl (spec_error ''spec.subjects is required'' [])
      | Some (JArr arr) \<Rightarrow>
          (if arr = [] then Inl (spec_error ''spec.subjects must contain at least one subject pattern'' [])
           else if length arr > MaxSubscriptionSubjects then
             Inl (spec_error ''spec.subjects exceeds %d entries'' [dec MaxSubscriptionSubjects])
           else parse_patterns 0 arr)
      | Some _ \<Rightarrow> Inl (spec_error ''spec.subjects must be an array of subject patterns'' []))"

definition parse_retries :: "jobj \<Rightarrow> go_error + int" where
  "parse_retries spec =
     (case map_of spec ''max_retries'' of
        None \<Rightarrow> Inr DefSubscriptionRetries
      | Some v \<Rightarrow>
          if v = JNull then Inr DefSubscriptionRetries
          else case numericInt v of
            None \<Rightarrow> Inl (spec_error ''spec.max_retries must be an integer'' [])
          | Some n \<Rightarrow>
              if n < 0 \<or> n > MaxSubscriptionRetries then
                Inl (spec_error ''spec.max_retries must be between 0 and %d'' [dec_int MaxSubscriptionRetries])
              else Inr n)"

definition ParseSubscriptionSpec :: "egress_env \<Rightarrow> jobj option \<Rightarrow> go_error + subscription_spec" where
  "ParseSubscriptionSpec env sp =
     (case sp of
        None \<Rightarrow> Inl (spec_error ''spec is required'' [])
      | Some spec \<Rightarrow>
          (case parse_url env spec of Inl e \<Rightarrow> Inl e | Inr u \<Rightarrow>
          (case parse_subjects spec of Inl e \<Rightarrow> Inl e | Inr subjects \<Rightarrow>
          (case parse_active spec of Inl e \<Rightarrow> Inl e | Inr active \<Rightarrow>
          (case parse_retries spec of Inl e \<Rightarrow> Inl e | Inr n \<Rightarrow>
             Inr \<lparr>wURL = u, wSubjects = subjects, wActive = active, wMaxRetries = n\<rparr>)))))"

section \<open>Resource.Validate\<close>

definition scope_field_error :: "string \<Rightarrow> go_error" where
  "scope_field_error f =
     ValidationError f (Msg ''must be 1-63 lowercase alphanumeric or '-', start/end alphanumeric'' [])"

fun check_scope_fields :: "(string \<times> string) list \<Rightarrow> go_error option" where
  "check_scope_fields [] = None"
| "check_scope_fields ((f, v) # fs) =
     (if \<not> scopeRe v then Some (scope_field_error f) else check_scope_fields fs)"

text \<open>Go visits a map in no fixed order; the model reports the first bad label in key order.\<close>

fun check_labels :: "(string \<times> string) list \<Rightarrow> go_error option" where
  "check_labels [] = None"
| "check_labels ((k, v) # ls) =
     (if \<not> labelRe k then
        Some (ValidationError ''labels'' (Msg ''label key %q must be 1-63 alphanumeric/._- characters'' [k]))
      else if length v > 63 \<or> \<not> labelRe v then
        Some (ValidationError ''labels'' (Msg ''label value %q must be 1-63 alphanumeric/._- characters'' [v]))
      else check_labels ls)"

definition check_spec :: "egress_env \<Rightarrow> resource \<Rightarrow> go_error option" where
  "check_spec env r =
     (case rSpec r of
        None \<Rightarrow> Some (spec_error ''spec is required'' [])
      | Some m \<Rightarrow>
          if length (marshal (JObj m)) > maxSpecB then
            Some (spec_error ''spec exceeds %d bytes'' [dec maxSpecB])
          else if rKind r = KindSubscription then
            (case ParseSubscriptionSpec env (Some m) of Inl e \<Rightarrow> Some e | Inr s \<Rightarrow> None)
          else None)"

definition Validate :: "egress_env \<Rightarrow> resource \<Rightarrow> go_error option" where
  "Validate env r =
     (if rKind r \<notin> set Kinds then
        Some (ValidationError ''kind'' (Msg ''unsupported kind %q; supported: %v'' (rKind r # knownKinds)))
      else if rKind r = KindAPIKey then validateAPIKey r
      else if rOrg r = ReservedOrg then
        Some (ValidationError ''org'' (Msg ''org %q is reserved for managed API keys'' [ReservedOrg]))
      else case check_scope_fields
          [(''org'', rOrg r), (''project'', rProject r), (''env'', rEnv r), (''name'', rName r)] of
        Some e \<Rightarrow> Some e
      | None \<Rightarrow>
          (case check_labels (labels_of r) of Some e \<Rightarrow> Some e | None \<Rightarrow> check_spec env r))"

section \<open>Lemmas\<close>

lemma first_forbidden_None:
  "first_forbidden as = None \<longleftrightarrow>
     (\<forall>a \<in> set as. case ParseIP a of None \<Rightarrow> True | Some i \<Rightarrow> \<not> IsForbiddenWebhookIP (Some i))"
  by (induction as) (auto simp: IsForbiddenWebhookIP_def split: option.splits)

lemma check_labels_None:
  "check_labels ls = None \<longleftrightarrow> (\<forall>(k, v) \<in> set ls. labelRe k \<and> labelRe v)"
  by (induction ls rule: check_labels.induct)
     (auto simp: labelRe_def dest: bounded_token_length)

lemma parse_patterns_valid: "parse_patterns i vs = Inr ps \<Longrightarrow> list_all ValidBusPattern ps \<and> length ps = length vs"
  by (induction i vs arbitrary: ps rule: parse_patterns.induct)
     (auto split: json.splits if_splits sum.splits)

lemma ReservedOrg_scope: "scopeRe ReservedOrg" "scopeRe ReservedProject" "scopeRe ReservedEnv"
  by code_simp+

lemma KindAPIKey_Kinds: "KindAPIKey \<in> set Kinds"
  by (simp add: Kinds_def)

text \<open>The two ways to pass validation: a managed key at its reserved address, or any other kind
  outside the reserved organisation.\<close>

lemma Validate_None:
  "Validate env r = None \<longleftrightarrow>
     rKind r \<in> set Kinds \<and>
     (if rKind r = KindAPIKey then validateAPIKey r = None
      else rOrg r \<noteq> ReservedOrg \<and> scopeRe (rOrg r) \<and> scopeRe (rProject r) \<and> scopeRe (rEnv r) \<and>
           scopeRe (rName r) \<and> (\<forall>(k, v) \<in> set (labels_of r). labelRe k \<and> labelRe v) \<and>
           check_spec env r = None)"
  unfolding check_labels_None [symmetric]
  by (cases "check_labels (labels_of r)") (auto simp: Validate_def)

lemma Validate_addr_ok: "Validate env r = None \<Longrightarrow> addr_ok r"
  by (auto simp: Validate_None addr_ok_def validateAPIKey_None ReservedOrg_scope split: if_splits)

lemma Validate_has_spec: "Validate env r = None \<Longrightarrow> rSpec r \<noteq> None"
  by (cases "rSpec r") (auto simp: Validate_None check_spec_def validateAPIKey_None ParseAPIKeySpec_def split: if_splits)

lemma Validate_reserved: "Validate env r = None \<Longrightarrow> rOrg r = ReservedOrg \<longleftrightarrow> rKind r = KindAPIKey"
  by (auto simp: Validate_None validateAPIKey_None split: if_splits)


end
