(* ===== verification/Store.thy ===== *)
theory Store
  imports Subscription
begin

text \<open>
  The in-memory state store, \<^verbatim>\<open>internal/state/store.go\<close>. Every method holds the store's mutex from
  its first access to the state to its return, so each is one atomic transition: a function of the
  store, its arguments and the values it draws from the outside (\<open>io\<close>: clock and random bytes).
  A method returns the new store together with its Go results.
\<close>

section \<open>State\<close>

record write_options =
  wActor :: string
  wReason :: string

record store =
  byID :: "(string, resource) gomap"
  byLogic :: "(string, string) gomap"
  audit :: "audit_entry list"
  auditWrite :: nat
  auditCap :: int
  auditEvicted :: "64 word"
  seq :: "64 word"

record io =
  ioNow :: go_time       \<comment> \<open>\<open>time.Now().UTC()\<close> of the method\<close>
  ioRand :: string       \<comment> \<open>the 8 bytes \<open>newID\<close> draws\<close>
  ioAuditNow :: go_time  \<comment> \<open>\<open>time.Now().UTC()\<close> of the audit append\<close>
  ioAuditRand :: string  \<comment> \<open>the 8 bytes \<open>newAuditID\<close> draws\<close>

definition DefaultAuditCap :: int where "DefaultAuditCap = 10000"

section \<open>Construction\<close>

definition WithAuditCap :: "int \<Rightarrow> int \<Rightarrow> int" where
  "WithAuditCap n c = (if n > 0 then n else c)"

text \<open>An option is a function on the configuration (its only field is the audit cap); \<open>None\<close> is a
  nil option.\<close>

definition NewStore :: "(int \<Rightarrow> int) option list \<Rightarrow> store" where
  "NewStore opts =
     (let c0 = foldl (\<lambda>c opt. case opt of None \<Rightarrow> c | Some f \<Rightarrow> f c) DefaultAuditCap opts;
          c = (if c0 \<le> 0 then DefaultAuditCap else c0)
      in \<lparr>byID = [], byLogic = [], audit = [], auditWrite = 0, auditCap = c, auditEvicted = 0, seq = 0\<rparr>)"

definition newID :: "string \<Rightarrow> string" where
  "newID b = ''r-'' @ EncodeToHex b"

definition newAuditID :: "string \<Rightarrow> string" where
  "newAuditID b = ''a-'' @ EncodeToHex b"

section \<open>The audit ring\<close>

definition appendAuditRingLocked :: "audit_entry \<Rightarrow> store \<Rightarrow> store" where
  "appendAuditRingLocked e s =
     (let s1 = s\<lparr>seq := seq s + 1, auditCap := (if auditCap s \<le> 0 then DefaultAuditCap else auditCap s)\<rparr>
      in if int (length (audit s1)) < auditCap s1 then s1\<lparr>audit := audit s1 @ [e]\<rparr>
         else s1\<lparr>audit := (audit s1)[auditWrite s1 := e],
                 auditWrite := (if int (auditWrite s1 + 1) = auditCap s1 then 0 else auditWrite s1 + 1),
                 auditEvicted := auditEvicted s1 + 1\<rparr>)"

definition appendAuditLocked :: "io \<Rightarrow> string \<Rightarrow> string \<Rightarrow> resource \<Rightarrow> store \<Rightarrow> store" where
  "appendAuditLocked io actor action r s =
     appendAuditRingLocked
       \<lparr>aID = newAuditID (ioAuditRand io), aTime = ioAuditNow io, aActor = actor, aAction = action,
        aResourceID = rID r, aKind = rKind r, aLogicalKey = LogicalKey r,
        aGeneration = rGeneration r, aReason = []\<rparr> s"

definition AppendAudit :: "io \<Rightarrow> audit_entry \<Rightarrow> store \<Rightarrow> store \<times> audit_entry" where
  "AppendAudit io e s =
     (let e1 = e\<lparr>aID := (if aID e = [] then newAuditID (ioAuditRand io) else aID e),
                 aTime := (if aTime e = 0 then ioAuditNow io else aTime e)\<rparr>
      in (appendAuditRingLocked e1 s, e1))"

definition AuditEvicted :: "store \<Rightarrow> 64 word" where
  "AuditEvicted s = auditEvicted s"

section \<open>Resource operations\<close>

definition or_actor :: "string \<Rightarrow> write_options \<Rightarrow> string" where
  "or_actor dflt o' = (if wActor o' = [] then dflt else wActor o')"

definition CreateResource ::
    "egress_env \<Rightarrow> io \<Rightarrow> resource option \<Rightarrow> write_options \<Rightarrow> store \<Rightarrow> store \<times> (go_error + resource)" where
  "CreateResource env io ro opts s =
     (case ro of
        None \<Rightarrow> (s, Inl ErrValidation)
      | Some r \<Rightarrow>
          let actor = or_actor ''anonymous'' opts
          in case Validate env r of
               Some e \<Rightarrow> (s, Inl e)
             | None \<Rightarrow>
                 let key = LogicalKey r
                 in if map_of (byLogic s) key \<noteq> None then (s, Inl ErrAlreadyExists)
                    else
                      let now = ioNow io;
                          copy = DeepCopy r;
                          st = rStatus copy;
                          stored = copy\<lparr>rID := newID (ioRand io), rGeneration := 1,
                             rCreatedAt := now, rUpdatedAt := now,
                             rStatus := st\<lparr>sPhase := (if sPhase st = [] then PhasePending else sPhase st),
                                           sObservedGen := 0, sUpdatedAt := now\<rparr>\<rparr>;
                          s1 = s\<lparr>byID := AList.update (rID stored) stored (byID s),
                                 byLogic := AList.update key (rID stored) (byLogic s)\<rparr>
                      in (appendAuditLocked io actor ''created'' stored s1, Inr (DeepCopy stored)))"

definition GetResource :: "string \<Rightarrow> store \<Rightarrow> go_error + resource" where
  "GetResource i s = (case map_of (byID s) i of None \<Rightarrow> Inl ErrNotFound | Some r \<Rightarrow> Inr (DeepCopy r))"

text \<open>An index entry without its resource would make \<open>s.byID[id].DeepCopy()\<close> dereference nil.\<close>

definition GetByLogicalKey ::
    "string \<Rightarrow> string \<Rightarrow> string \<Rightarrow> string \<Rightarrow> string \<Rightarrow> store \<Rightarrow> go_error + resource" where
  "GetByLogicalKey org project env kind name s =
     (case map_of (byLogic s) (logical org project env kind name) of
        None \<Rightarrow> Inl ErrNotFound
      | Some i \<Rightarrow>
          (case map_of (byID s) i of
             None \<Rightarrow> Inl (GoPanic ''nil pointer dereference'')
           | Some r \<Rightarrow> Inr (DeepCopy r)))"

record list_options =
  oOrg :: string
  oProject :: string
  oEnv :: string
  oKind :: string
  oLimit :: int
  oCursor :: string

definition list_match :: "list_options \<Rightarrow> resource \<Rightarrow> bool" where
  "list_match o' r \<longleftrightarrow>
     (oOrg o' = [] \<or> rOrg r = oOrg o') \<and> (oProject o' = [] \<or> rProject r = oProject o') \<and>
     (oEnv o' = [] \<or> rEnv r = oEnv o') \<and> (oKind o' = [] \<or> rKind r = oKind o')"

definition list_key :: "resource \<Rightarrow> go_time \<times> string" where
  "list_key r = (rCreatedAt r, rID r)"

definition list_limit :: "int \<Rightarrow> nat" where
  "list_limit l = (if l \<le> 0 \<or> l > 200 then 50 else nat l)"

text \<open>Go ranges over the map in no fixed order; sorting by creation time and ID, which no two
  resources share, makes the order irrelevant.\<close>

definition sorted_matches :: "list_options \<Rightarrow> store \<Rightarrow> resource list" where
  "sorted_matches o' s = sort_key list_key (filter (list_match o') (map snd (byID s)))"

definition ListResources :: "list_options \<Rightarrow> store \<Rightarrow> go_error + (resource list \<times> string)" where
  "ListResources o' s =
     (case (if oCursor o' = [] then Inr 0 else decodeCursor (oCursor o')) of
        Inl e \<Rightarrow> Inl ErrBadRequest
      | Inr n \<Rightarrow>
          let all = sorted_matches o' s;
              limit = list_limit (oLimit o');
              offset = (if unat n > length all then length all else unat n);
              end' = (if offset + limit > length all then length all else offset + limit);
              page = map DeepCopy (take (end' - offset) (drop offset all));
              next' = (if end' < length all then encodeCursor (word_of_nat end') else [])
          in Inr (page, next'))"

record update_options =
  uWrite :: write_options
  uExpectedGeneration :: int

definition UpdateResource ::
    "egress_env \<Rightarrow> io \<Rightarrow> string \<Rightarrow> (resource \<Rightarrow> go_error + resource) \<Rightarrow> update_options \<Rightarrow> store
     \<Rightarrow> store \<times> (go_error + resource)" where
  "UpdateResource env io i fn o' s =
     (let actor = or_actor ''anonymous'' (uWrite o')
      in case map_of (byID s) i of
           None \<Rightarrow> (s, Inl ErrNotFound)
         | Some cur \<Rightarrow>
             if uExpectedGeneration o' \<noteq> 0 \<and> uExpectedGeneration o' \<noteq> rGeneration cur
             then (s, Inl ErrConflict)
             else case fn (DeepCopy cur) of
               Inl e \<Rightarrow> (s, Inl e)
             | Inr work \<Rightarrow>
                 (case Validate env work of
                    Some e \<Rightarrow> (s, Inl e)
                  | None \<Rightarrow>
                      let changed = \<not> specLabelsEqual cur work;
                          work1 = (if changed
                                   then work\<lparr>rGeneration := wrap64 (rGeneration cur + 1), rUpdatedAt := ioNow io\<rparr>
                                   else work);
                          s1 = s\<lparr>byID := AList.update i work1 (byID s)\<rparr>;
                          s2 = (if changed then appendAuditLocked io actor ''updated'' work1 s1 else s1)
                      in (s2, Inr (DeepCopy work1))))"

definition UpdateStatus ::
    "io \<Rightarrow> string \<Rightarrow> string \<Rightarrow> string \<Rightarrow> write_options \<Rightarrow> store \<Rightarrow> store \<times> go_error option" where
  "UpdateStatus io i phase message actor s =
     (case map_of (byID s) i of
        None \<Rightarrow> (s, Some ErrNotFound)
      | Some r \<Rightarrow>
          let now = ioNow io; st = rStatus r;
              r1 = (if sPhase st \<noteq> phase \<or> sMessage st \<noteq> message
                    then r\<lparr>rStatus := st\<lparr>sPhase := phase, sMessage := message, sUpdatedAt := now\<rparr>,
                           rUpdatedAt := now\<rparr>
                    else r);
              r2 = r1\<lparr>rStatus := (rStatus r1)\<lparr>sObservedGen := rGeneration r1\<rparr>\<rparr>
          in (appendAuditLocked io (or_actor ''reconciler'' actor) ''status_changed'' r2
                (s\<lparr>byID := AList.update i r2 (byID s)\<rparr>), None))"

definition DeleteResource :: "io \<Rightarrow> string \<Rightarrow> write_options \<Rightarrow> store \<Rightarrow> store \<times> go_error option" where
  "DeleteResource io i opts s =
     (case map_of (byID s) i of
        None \<Rightarrow> (s, Some ErrNotFound)
      | Some r \<Rightarrow>
          (appendAuditLocked io (or_actor ''anonymous'' opts) ''deleted'' r
             (s\<lparr>byID := AList.delete i (byID s), byLogic := AList.delete (LogicalKey r) (byLogic s)\<rparr>), None))"

definition Ping :: "store \<Rightarrow> go_error option" where
  "Ping s = None"

definition Count :: "store \<Rightarrow> nat" where
  "Count s = length (byID s)"

text \<open>One step of the counting loop; a missing inner map is created first.\<close>

definition count_one ::
    "resource \<Rightarrow> (string, (string, int) gomap) gomap \<Rightarrow> (string, (string, int) gomap) gomap" where
  "count_one r out =
     (let ph = (case map_of out (rKind r) of None \<Rightarrow> [] | Some m \<Rightarrow> m);
          phase = sPhase (rStatus r);
          n = (case map_of ph phase of None \<Rightarrow> 0 | Some k \<Rightarrow> k)
      in AList.update (rKind r) (AList.update phase (n + 1) ph) out)"

definition CountByKindPhase :: "store \<Rightarrow> (string, (string, int) gomap) gomap" where
  "CountByKindPhase s = fold count_one (map snd (byID s)) []"

section \<open>Reading the audit log\<close>

record audit_options =
  qOrg :: string
  qKind :: string
  qLimit :: int
  qCursor :: string

definition maxAuditQueryLimit :: int where "maxAuditQueryLimit = 1000"

definition audit_match :: "audit_options \<Rightarrow> audit_entry \<Rightarrow> bool" where
  "audit_match o' e \<longleftrightarrow>
     (qOrg o' = [] \<or> HasPrefix (aLogicalKey e) (qOrg o' @ ''/'')) \<and> (qKind o' = [] \<or> aKind e = qKind o')"

text \<open>The ring read newest first: index \<open>(auditWrite - 1 - k + n) % n\<close> for \<open>k < n\<close>.\<close>

definition ring_newest_first :: "store \<Rightarrow> audit_entry list" where
  "ring_newest_first s =
     (let n = length (audit s) in map (\<lambda>k. audit s ! ((auditWrite s + n - 1 - k) mod n)) [0..<n])"

definition audit_limit :: "int \<Rightarrow> nat" where
  "audit_limit l = (if l \<le> 0 \<or> l > maxAuditQueryLimit then 100 else nat l)"

definition ListAudit :: "audit_options \<Rightarrow> store \<Rightarrow> go_error + audit_entry list" where
  "ListAudit o' s =
     (case (if qCursor o' = [] then Inr 0 else decodeCursor (qCursor o')) of
        Inl e \<Rightarrow> Inl ErrBadRequest
      | Inr n \<Rightarrow>
          let filtered = filter (audit_match o') (ring_newest_first s);
              offset = (if unat n > length filtered then length filtered else unat n);
              end' = (if offset + audit_limit (qLimit o') > length filtered then length filtered
                      else offset + audit_limit (qLimit o'))
          in Inr (take (end' - offset) (drop offset filtered)))"

section \<open>Operations as events\<close>

text \<open>The mutating methods as one transition function, for properties of whole histories.\<close>

datatype store_op =
    OpCreate io "resource option" write_options
  | OpUpdate io string "resource \<Rightarrow> go_error + resource" update_options
  | OpStatus io string string string write_options
  | OpDelete io string write_options
  | OpAudit io audit_entry

fun apply_op :: "egress_env \<Rightarrow> store_op \<Rightarrow> store \<Rightarrow> store" where
  "apply_op env (OpCreate io r o') s = fst (CreateResource env io r o' s)"
| "apply_op env (OpUpdate io i fn o') s = fst (UpdateResource env io i fn o' s)"
| "apply_op env (OpStatus io i p m o') s = fst (UpdateStatus io i p m o' s)"
| "apply_op env (OpDelete io i o') s = fst (DeleteResource io i o' s)"
| "apply_op env (OpAudit io e) s = fst (AppendAudit io e s)"

text \<open>What the callers guarantee: a fresh random ID, decoded (well-formed) input, and update
  callbacks that edit spec and labels only.\<close>

definition fn_ok :: "(resource \<Rightarrow> go_error + resource) \<Rightarrow> bool" where
  "fn_ok fn \<longleftrightarrow>
     (\<forall>r r'. fn r = Inr r' \<longrightarrow>
        r' = r\<lparr>rSpec := rSpec r', rLabels := rLabels r'\<rparr> \<and> (wf_resource r \<longrightarrow> wf_resource r'))"

fun op_ok :: "store_op \<Rightarrow> store \<Rightarrow> bool" where
  "op_ok (OpCreate io ro o') s \<longleftrightarrow>
     (case ro of None \<Rightarrow> True | Some r \<Rightarrow> wf_resource r) \<and> map_of (byID s) (newID (ioRand io)) = None"
| "op_ok (OpUpdate io i fn o') s \<longleftrightarrow> fn_ok fn"
| "op_ok _ s \<longleftrightarrow> True"

inductive reachable :: "egress_env \<Rightarrow> store \<Rightarrow> bool" for env where
  init: "reachable env (NewStore opts)"
| step: "reachable env s \<Longrightarrow> op_ok p s \<Longrightarrow> reachable env (apply_op env p s)"

section \<open>Invariants\<close>

definition ring_inv :: "store \<Rightarrow> bool" where
  "ring_inv s \<longleftrightarrow>
     0 < auditCap s \<and> int (length (audit s)) \<le> auditCap s \<and> int (auditWrite s) < auditCap s \<and>
     (int (length (audit s)) < auditCap s \<longrightarrow> auditWrite s = 0)"

text \<open>A stored resource: its ID is its key, its address and, for keys, its spec are valid.\<close>

definition stored_ok :: "string \<Rightarrow> resource \<Rightarrow> bool" where
  "stored_ok i r \<longleftrightarrow>
     rID r = i \<and> addr_ok r \<and> wf_resource r \<and> rSpec r \<noteq> None \<and>
     (rOrg r = ReservedOrg \<longleftrightarrow> rKind r = KindAPIKey) \<and>
     (rKind r = KindAPIKey \<longrightarrow> validateAPIKey r = None) \<and>
     (rKind r \<noteq> KindAPIKey \<longrightarrow> (\<forall>(k, v) \<in> set (labels_of r). v \<noteq> []))"

definition index_inv :: "store \<Rightarrow> bool" where
  "index_inv s \<longleftrightarrow>
     distinct (map fst (byID s)) \<and> distinct (map fst (byLogic s)) \<and>
     (\<forall>i r. map_of (byID s) i = Some r \<longrightarrow> stored_ok i r \<and> map_of (byLogic s) (LogicalKey r) = Some i) \<and>
     (\<forall>k i. map_of (byLogic s) k = Some i \<longrightarrow> (\<exists>r. map_of (byID s) i = Some r \<and> LogicalKey r = k))"

definition store_inv :: "store \<Rightarrow> bool" where
  "store_inv s \<longleftrightarrow> index_inv s \<and> ring_inv s"

end
