(* ===== verification/Paging.thy ===== *)
theory Paging
  imports Cursor
begin

text \<open>
  The cursor loop that the clients of a resource listing share (the authoriser's key cache, the key
  service, the webhook dispatcher) and the interface a paged listing offers to it. The locale's
  lemma shows that the loop ends and has then folded its body over the whole listing, in order.
\<close>

section \<open>The loop\<close>

text \<open>\<open>for { page, next, err := list(cursor); ...; if stop { break }; cursor = next }\<close>. A listing that
  never ends its cursors makes the loop run for ever, the value \<open>None\<close>.\<close>

partial_function (option) page_loop ::
    "('a list \<Rightarrow> string \<Rightarrow> bool) \<Rightarrow> (string \<Rightarrow> go_error + 'a list \<times> string) \<Rightarrow> ('a \<Rightarrow> 'b \<Rightarrow> 'b)
     \<Rightarrow> string \<Rightarrow> 'b \<Rightarrow> (go_error + 'b) option" where
  [code]: "page_loop stop lst body c acc =
     (case lst c of
        Inl e \<Rightarrow> Some (Inl e)
      | Inr (page, next') \<Rightarrow>
          if stop page next' then Some (Inr (fold body page acc))
          else page_loop stop lst body next' (fold body page acc))"

text \<open>What every step of the body preserves holds of the result.\<close>

lemma page_loop_inv:
  assumes "page_loop stop lst body c acc = Some res" "P acc" "\<And>x a. P a \<Longrightarrow> P (body x a)"
  shows "case res of Inl e \<Rightarrow> True | Inr out \<Rightarrow> P out"
proof -
  have f: "P (fold bd xs a)" if "P a" "\<And>x a. P a \<Longrightarrow> P (bd x a)" for bd xs a using that by (induction xs arbitrary: a) auto
  have "P acc \<longrightarrow> (\<forall>x a. P a \<longrightarrow> P (body x a)) \<longrightarrow> (case res of Inl e \<Rightarrow> True | Inr out \<Rightarrow> P out)"
    using assms(1)
  proof (rule page_loop.raw_induct [rotated])
    fix loop stop lst body c acc res
    assume ih: "\<And>a b c d e f. loop a b c d e = Some f \<Longrightarrow> P e \<longrightarrow> (\<forall>x a. P a \<longrightarrow> P (c x a)) \<longrightarrow> (case f of Inl e \<Rightarrow> True | Inr out \<Rightarrow> P out)"
      and b: "(case lst c of Inl e \<Rightarrow> Some (Inl e) | Inr (page, next') \<Rightarrow>
          if stop page next' then Some (Inr (fold body page acc)) else loop stop lst body next' (fold body page acc)) = Some res"
    show "P acc \<longrightarrow> (\<forall>x a. P a \<longrightarrow> P (body x a)) \<longrightarrow> (case res of Inl e \<Rightarrow> True | Inr out \<Rightarrow> P out)"
    proof (intro impI)
      assume p: "P acc" "\<forall>x a. P a \<longrightarrow> P (body x a)"
      show "case res of Inl e \<Rightarrow> True | Inr out \<Rightarrow> P out"
        using b f [OF p(1), of body] p(2) by (auto split: sum.splits prod.splits if_splits dest!: ih)
    qed
  qed
  then show ?thesis using assms(2,3) by blast
qed

text \<open>The two stop conditions the sources use.\<close>

definition stop_on_last :: "'a list \<Rightarrow> string \<Rightarrow> bool" where
  "stop_on_last page next' \<longleftrightarrow> next' = []"

definition stop_on_last_or_empty :: "'a list \<Rightarrow> string \<Rightarrow> bool" where
  "stop_on_last_or_empty page next' \<longleftrightarrow> next' = [] \<or> page = []"

text \<open>A stop condition that ends on the empty cursor and goes on from a page with a successor.\<close>

definition good_stop :: "('a list \<Rightarrow> string \<Rightarrow> bool) \<Rightarrow> bool" where
  "good_stop stop \<longleftrightarrow> (\<forall>page. stop page []) \<and> (\<forall>page c. page \<noteq> [] \<longrightarrow> c \<noteq> [] \<longrightarrow> \<not> stop page c)"

lemma good_stops [simp]: "good_stop stop_on_last" "good_stop stop_on_last_or_empty"
  by (simp_all add: good_stop_def stop_on_last_def stop_on_last_or_empty_def)

text \<open>The guarded variant of the scans: at most \<open>n\<close> pages, and a cursor seen before ends the walk.\<close>

fun guarded_loop ::
    "nat \<Rightarrow> (string \<Rightarrow> go_error + 'a list \<times> string) \<Rightarrow> ('a \<Rightarrow> 'b \<Rightarrow> 'b) \<Rightarrow> string list \<Rightarrow> string \<Rightarrow> 'b \<Rightarrow> 'b" where
  "guarded_loop 0 lst body seen c acc = acc"
| "guarded_loop (Suc n) lst body seen c acc =
     (case lst c of
        Inl e \<Rightarrow> acc
      | Inr (page, next') \<Rightarrow>
          let acc' = fold body page acc
          in if next' = [] \<or> next' \<in> set seen then acc' else guarded_loop n lst body (next' # seen) next' acc')"

section \<open>The interface of a paged listing\<close>

locale paged_listing =
  fixes lst :: "'o \<Rightarrow> string \<Rightarrow> go_error + 'a list \<times> string"
    and contents :: "'o \<Rightarrow> 'a list"
    and page_size :: "'o \<Rightarrow> nat"
    and offset_of :: "'o \<Rightarrow> string \<Rightarrow> nat option"
    and fits :: "'o \<Rightarrow> bool"
  assumes first_page: "offset_of q [] = Some 0"
    and page_size_pos: "fits q \<Longrightarrow> 0 < page_size q"
    and page_items: "fits q \<Longrightarrow> offset_of q c = Some n \<Longrightarrow>
          \<exists>next'. lst q c = Inr (take (page_size q) (drop n (contents q)), next')"
    and last_page: "fits q \<Longrightarrow> offset_of q c = Some n \<Longrightarrow> lst q c = Inr (page, next') \<Longrightarrow>
          next' = [] \<longleftrightarrow> length (contents q) \<le> n + page_size q"
    and next_page: "fits q \<Longrightarrow> offset_of q c = Some n \<Longrightarrow> lst q c = Inr (page, next') \<Longrightarrow> next' \<noteq> [] \<Longrightarrow>
          offset_of q next' = Some (n + page_size q)"
begin

lemma walk_from:
  assumes "fits q" "good_stop stop" "offset_of q c = Some n"
  shows "page_loop stop (lst q) body c acc = Some (Inr (fold body (drop n (contents q)) acc))"
  using assms(3)
proof (induction "length (contents q) - n" arbitrary: c n acc rule: less_induct)
  case less
  let ?k = "page_size q" let ?page = "take ?k (drop n (contents q))"
  obtain next' where l: "lst q c = Inr (?page, next')" using page_items [OF assms(1) less.prems] by blast
  show ?case
  proof (cases "length (contents q) \<le> n + ?k")
    case True
    then have "next' = []" "?page = drop n (contents q)" using last_page [OF assms(1) less.prems l] by auto
    then show ?thesis using l assms(2) by (subst page_loop.simps) (simp add: good_stop_def)
  next
    case False
    then have ne: "next' \<noteq> []" using last_page [OF assms(1) less.prems l] by simp
    have "?page \<noteq> []" using False page_size_pos [OF assms(1)] by auto
    then have go: "\<not> stop ?page next'" using ne assms(2) by (simp add: good_stop_def)
    have "page_loop stop (lst q) body next' (fold body ?page acc) =
        Some (Inr (fold body (drop (n + ?k) (contents q)) (fold body ?page acc)))"
      using False page_size_pos [OF assms(1)] next_page [OF assms(1) less.prems l ne]
      by (intro less.hyps) auto
    also have "fold body (drop (n + ?k) (contents q)) (fold body ?page acc) = fold body (drop n (contents q)) acc"
      by (metis add.commute append_take_drop_id drop_drop fold_append comp_apply)
    finally show ?thesis using l go by (subst page_loop.simps) simp
  qed
qed

lemma walk_all:
  assumes "fits q" "good_stop stop"
  shows "page_loop stop (lst q) body [] acc = Some (Inr (fold body (contents q) acc))"
  using walk_from [OF assms first_page] by simp

lemma guarded_from:
  assumes "fits q" "offset_of q c = Some n" "\<forall>x \<in> set seen. \<exists>k. offset_of q x = Some k \<and> k \<le> n"
    "length (contents q) \<le> n + m * page_size q" "0 < m"
  shows "guarded_loop m (lst q) body seen c acc = fold body (drop n (contents q)) acc"
  using assms(2-)
proof (induction m arbitrary: c n seen acc)
  case (Suc m)
  let ?k = "page_size q" let ?page = "take ?k (drop n (contents q))"
  obtain next' where l: "lst q c = Inr (?page, next')" using page_items [OF assms(1) Suc.prems(1)] by blast
  show ?case
  proof (cases "length (contents q) \<le> n + ?k")
    case True
    then have "next' = []" "?page = drop n (contents q)" using last_page [OF assms(1) Suc.prems(1) l] by auto
    then show ?thesis using l by simp
  next
    case False
    then have ne: "next' \<noteq> []" using last_page [OF assms(1) Suc.prems(1) l] by simp
    have o: "offset_of q next' = Some (n + ?k)" using next_page [OF assms(1) Suc.prems(1) l ne] .
    have "next' \<notin> set seen" using o Suc.prems(2) page_size_pos [OF assms(1)] by fastforce
    moreover have "guarded_loop m (lst q) body (next' # seen) next' (fold body ?page acc) =
        fold body (drop (n + ?k) (contents q)) (fold body ?page acc)"
    proof (rule Suc.IH [OF o])
      show "\<forall>x \<in> set (next' # seen). \<exists>j. offset_of q x = Some j \<and> j \<le> n + ?k"
        using Suc.prems(2) o by fastforce
      show "length (contents q) \<le> n + ?k + m * ?k" using Suc.prems(3) by simp
      show "0 < m" using Suc.prems(3) False by (cases m) auto
    qed
    moreover have "fold body (drop (n + ?k) (contents q)) (fold body ?page acc) = fold body (drop n (contents q)) acc"
      by (metis add.commute append_take_drop_id drop_drop fold_append comp_apply)
    ultimately show ?thesis using l ne by simp
  qed
qed simp

lemma guarded_all:
  assumes "fits q" "length (contents q) \<le> m * page_size q" "0 < m"
  shows "guarded_loop m (lst q) body [] [] acc = fold body (contents q) acc"
  using guarded_from [OF assms(1) first_page, of "[]" m] assms by simp

end

end
