(* ===== verification/Bounded_Log.thy ===== *)
theory Bounded_Log
  imports Prelude
begin

text \<open>
  The contract that the audit ring of the store and the replay ring of the event bus share: a log
  that keeps its newest entries up to a capacity. A client that appends a sequence of entries
  reads back the last ones of it.
\<close>

definition last_n :: "nat \<Rightarrow> 'a list \<Rightarrow> 'a list" where
  "last_n n xs = drop (length xs - n) xs"

lemma last_n_last_n: "last_n n (last_n n xs @ ys) = last_n n (xs @ ys)"
  by (cases "length xs \<le> n") (auto simp: last_n_def add.commute)

lemma last_n_short [simp]: "length xs \<le> n \<Longrightarrow> last_n n xs = xs"
  by (simp add: last_n_def)

lemma length_last_n [simp]: "length (last_n n xs) = min n (length xs)"
  by (auto simp: last_n_def)

lemma last_n_snoc: "0 < n \<Longrightarrow> \<exists>ys. last_n n (xs @ [e]) = ys @ [e]"
  by (simp add: last_n_def)

locale bounded_log =
  fixes append_entry :: "'e \<Rightarrow> 's \<Rightarrow> 's"
    and entries :: "'s \<Rightarrow> 'e list"
    and capacity :: "'s \<Rightarrow> nat"
    and invar :: "'s \<Rightarrow> bool"
  assumes invar_append: "invar s \<Longrightarrow> invar (append_entry e s)"
    and capacity_append: "invar s \<Longrightarrow> capacity (append_entry e s) = capacity s"
    and capacity_pos: "invar s \<Longrightarrow> 0 < capacity s"
    and entries_bound: "invar s \<Longrightarrow> length (entries s) \<le> capacity s"
    and entries_append: "invar s \<Longrightarrow> entries (append_entry e s) = last_n (capacity s) (entries s @ [e])"
begin

lemma invar_fold: "invar s \<Longrightarrow> invar (fold append_entry es s)"
  by (induction es arbitrary: s) (auto intro: invar_append)

lemma entries_fold:
  "invar s \<Longrightarrow> entries (fold append_entry es s) = last_n (capacity s) (entries s @ es)"
proof (induction es arbitrary: s)
  case Nil
  then show ?case by (simp add: entries_bound)
next
  case (Cons e es)
  then show ?case by (simp add: invar_append capacity_append entries_append last_n_last_n)
qed

lemma newest_entry: "invar s \<Longrightarrow> \<exists>ys. entries (append_entry e s) = ys @ [e]"
  by (simp add: entries_append capacity_pos last_n_snoc)

end

end
