(* ===== verification/Store_Laws.thy ===== *)
theory Store_Laws
  imports Store Paging Bounded_Log
begin

text \<open>
  Laws of the in-memory store: the audit ring refines a bounded list, the two indexes of the
  resource map stay consistent under every method, updates bump the generation exactly when spec
  or labels change, and the listings are pages of one fixed sequence. The listing is shown to
  be a \<open>paged_listing\<close>, the interface its clients use.
\<close>

section \<open>The audit ring\<close>

text \<open>The retained log, oldest entry first.\<close>

definition audit_log :: "store \<Rightarrow> audit_entry list" where
  "audit_log s = rotate (auditWrite s) (audit s)"

lemma ring_newest_first_eq: "ring_newest_first s = rev (audit_log s)"
proof (rule nth_equalityI)
  show "length (ring_newest_first s) = length (rev (audit_log s))"
    by (simp add: ring_newest_first_def audit_log_def Let_def)
next
  fix k assume "k < length (ring_newest_first s)"
  then have k: "k < length (audit s)" by (simp add: ring_newest_first_def Let_def)
  then have "rev (audit_log s) ! k = audit s ! ((auditWrite s + (length (audit s) - Suc k)) mod length (audit s))"
    by (simp add: audit_log_def rev_nth nth_rotate)
  moreover have "auditWrite s + (length (audit s) - Suc k) = auditWrite s + length (audit s) - 1 - k"
    using k by simp
  ultimately show "ring_newest_first s ! k = rev (audit_log s) ! k"
    using k by (simp add: ring_newest_first_def Let_def)
qed

lemma rotate_overwrite:
  assumes w: "w < length xs"
  shows "rotate (if Suc w = length xs then 0 else Suc w) (xs[w := e]) = tl (rotate w xs) @ [e]"
proof -
  have "rotate w xs = (xs ! w # drop (Suc w) xs) @ take w xs"
    using w by (simp add: rotate_drop_take Cons_nth_drop_Suc)
  then have l: "tl (rotate w xs) @ [e] = drop (Suc w) xs @ take w xs @ [e]" by simp
  have t: "take (Suc w) (xs[w := e]) = take w xs @ [e]"
    using w by (simp add: take_Suc_conv_app_nth)
  show ?thesis
  proof (cases "Suc w = length xs")
    case True
    then have "xs[w := e] = take w xs @ [e]" using t by (metis length_list_update order_refl take_all)
    then show ?thesis using l True by simp
  next
    case False
    then have "rotate (Suc w) (xs[w := e]) = drop (Suc w) xs @ take w xs @ [e]"
      using w t by (simp only: rotate_drop_take length_list_update) simp
    then show ?thesis using l False by simp
  qed
qed

lemma ring_inv_append [simp]: "ring_inv s \<Longrightarrow> ring_inv (appendAuditRingLocked e s)"
  by (auto simp: ring_inv_def appendAuditRingLocked_def Let_def)

text \<open>Appending to the ring refines appending to a list that keeps its newest \<open>auditCap\<close> entries.\<close>

lemma audit_log_append:
  assumes "ring_inv s"
  shows "audit_log (appendAuditRingLocked e s) = last_n (nat (auditCap s)) (audit_log s @ [e])"
proof (cases "int (length (audit s)) < auditCap s")
  case True
  then show ?thesis using assms
    by (simp add: audit_log_def appendAuditRingLocked_def ring_inv_def Let_def last_n_def)
next
  case False
  then have n: "int (length (audit s)) = auditCap s" and w: "auditWrite s < length (audit s)" and c: "0 < auditCap s"
    using assms by (auto simp: ring_inv_def)
  have eq: "1 + int (auditWrite s) = int (length (audit s)) \<longleftrightarrow> Suc (auditWrite s) = length (audit s)"
    by arith
  have "audit_log (appendAuditRingLocked e s) = tl (audit_log s) @ [e]"
    using rotate_overwrite [OF w, of e] c eq
    by (simp add: audit_log_def appendAuditRingLocked_def Let_def n [symmetric] del: rotate_Suc split: if_splits)
  moreover have "audit_log s \<noteq> []" "length (audit_log s) = nat (auditCap s)"
    using w n c by (auto simp: audit_log_def)
  ultimately show ?thesis by (cases "audit_log s") (auto simp: last_n_def)
qed

lemma auditCap_append [simp]: "ring_inv s \<Longrightarrow> auditCap (appendAuditRingLocked e s) = auditCap s"
  by (simp add: appendAuditRingLocked_def ring_inv_def Let_def)

text \<open>The audit ring is a bounded log.\<close>

interpretation ring: bounded_log appendAuditRingLocked audit_log "\<lambda>s. nat (auditCap s)" ring_inv
  by unfold_locales (auto simp: audit_log_append, auto simp: ring_inv_def audit_log_def)

lemmas audit_log_fold = ring.entries_fold

lemma append_frame [simp, frame_simps]:
  "byID (appendAuditRingLocked e s) = byID s" "byLogic (appendAuditRingLocked e s) = byLogic s"
  "seq (appendAuditRingLocked e s) = seq s + 1"
  by (simp_all add: appendAuditRingLocked_def Let_def)

lemma appendAuditLocked_frame [simp, frame_simps]:
  "byID (appendAuditLocked io a b r s) = byID s" "byLogic (appendAuditLocked io a b r s) = byLogic s"
  "seq (appendAuditLocked io a b r s) = seq s + 1"
  by (simp_all add: appendAuditLocked_def)

lemma ring_inv_appendAuditLocked [simp]: "ring_inv s \<Longrightarrow> ring_inv (appendAuditLocked io a b r s)"
  by (simp add: appendAuditLocked_def)

lemma ring_inv_update [simp]:
  "ring_inv (s\<lparr>byID := x\<rparr>) = ring_inv s" "ring_inv (s\<lparr>byLogic := y\<rparr>) = ring_inv s"
  by (simp_all add: ring_inv_def)

section \<open>The store invariant\<close>

lemma wf_resource_simps [simp]:
  "wf_resource (r\<lparr>rID := a\<rparr>) = wf_resource r" "wf_resource (r\<lparr>rGeneration := g\<rparr>) = wf_resource r"
  "wf_resource (r\<lparr>rCreatedAt := t\<rparr>) = wf_resource r" "wf_resource (r\<lparr>rUpdatedAt := t\<rparr>) = wf_resource r"
  "wf_resource (r\<lparr>rStatus := st\<rparr>) = wf_resource r"
  by (simp_all add: wf_resource_def)

lemma Validate_stored_ok:
  assumes "Validate env r = None" "wf_resource r" "rID r = i"
  shows "stored_ok i r"
  using assms Validate_addr_ok [OF assms(1)] Validate_has_spec [OF assms(1)] Validate_reserved [OF assms(1)]
  by (auto simp: stored_ok_def Validate_None dest!: labelRe_nonempty split: if_splits)

text \<open>The fields validation does not read.\<close>

lemma LogicalKey_simps [simp]:
  "LogicalKey (r\<lparr>rID := a\<rparr>) = LogicalKey r" "LogicalKey (r\<lparr>rGeneration := g\<rparr>) = LogicalKey r"
  "LogicalKey (r\<lparr>rCreatedAt := t\<rparr>) = LogicalKey r" "LogicalKey (r\<lparr>rUpdatedAt := t\<rparr>) = LogicalKey r"
  "LogicalKey (r\<lparr>rStatus := st\<rparr>) = LogicalKey r" "LogicalKey (r\<lparr>rSpec := sp\<rparr>) = LogicalKey r"
  "LogicalKey (r\<lparr>rLabels := ls\<rparr>) = LogicalKey r"
  by (simp_all add: LogicalKey_def)

lemma validateAPIKey_simps [simp]:
  "validateAPIKey (r\<lparr>rID := a\<rparr>) = validateAPIKey r" "validateAPIKey (r\<lparr>rGeneration := g\<rparr>) = validateAPIKey r"
  "validateAPIKey (r\<lparr>rCreatedAt := t\<rparr>) = validateAPIKey r" "validateAPIKey (r\<lparr>rUpdatedAt := t\<rparr>) = validateAPIKey r"
  "validateAPIKey (r\<lparr>rStatus := st\<rparr>) = validateAPIKey r"
  by (cases "ParseAPIKeySpec (rSpec r)"; simp add: validateAPIKey_def)+

lemma stored_ok_simps [simp]:
  "stored_ok i (r\<lparr>rGeneration := g\<rparr>) = stored_ok i r"
  "stored_ok i (r\<lparr>rCreatedAt := t\<rparr>) = stored_ok i r" "stored_ok i (r\<lparr>rUpdatedAt := t\<rparr>) = stored_ok i r"
  "stored_ok i (r\<lparr>rStatus := st\<rparr>) = stored_ok i r"
  by (simp_all add: stored_ok_def addr_ok_def)

lemma check_spec_simps [simp]:
  "check_spec env (r\<lparr>rID := a\<rparr>) = check_spec env r" "check_spec env (r\<lparr>rGeneration := g\<rparr>) = check_spec env r"
  "check_spec env (r\<lparr>rCreatedAt := t\<rparr>) = check_spec env r" "check_spec env (r\<lparr>rUpdatedAt := t\<rparr>) = check_spec env r"
  "check_spec env (r\<lparr>rStatus := st\<rparr>) = check_spec env r"
  by (cases "rSpec r"; simp add: check_spec_def)+

lemma Validate_simps [simp]:
  "Validate env (r\<lparr>rID := a\<rparr>) = Validate env r" "Validate env (r\<lparr>rGeneration := g\<rparr>) = Validate env r"
  "Validate env (r\<lparr>rCreatedAt := t\<rparr>) = Validate env r" "Validate env (r\<lparr>rUpdatedAt := t\<rparr>) = Validate env r"
  "Validate env (r\<lparr>rStatus := st\<rparr>) = Validate env r"
  by (simp_all add: Validate_def cong: option.case_cong)

text \<open>The two indexes as mathematical maps.\<close>

definition maps_inv :: "(string \<rightharpoonup> resource) \<Rightarrow> (string \<rightharpoonup> string) \<Rightarrow> bool" where
  "maps_inv m l \<longleftrightarrow>
     (\<forall>i r. m i = Some r \<longrightarrow> stored_ok i r \<and> l (LogicalKey r) = Some i) \<and>
     (\<forall>k i. l k = Some i \<longrightarrow> (\<exists>r. m i = Some r \<and> LogicalKey r = k))"

lemma index_inv_maps:
  "index_inv s \<longleftrightarrow> distinct (map fst (byID s)) \<and> distinct (map fst (byLogic s)) \<and>
     maps_inv (map_of (byID s)) (map_of (byLogic s))"
  unfolding index_inv_def maps_inv_def by (rule refl)

lemma maps_inv_insert:
  "maps_inv m l \<Longrightarrow> stored_ok i r \<Longrightarrow> m i = None \<Longrightarrow> l (LogicalKey r) = None \<Longrightarrow>
   maps_inv (m(i \<mapsto> r)) (l(LogicalKey r \<mapsto> i))"
  unfolding maps_inv_def by (auto split: if_splits) (metis option.distinct(1))+

lemma maps_inv_replace:
  "maps_inv m l \<Longrightarrow> stored_ok i r \<Longrightarrow> m i = Some old \<Longrightarrow> LogicalKey r = LogicalKey old \<Longrightarrow>
   maps_inv (m(i \<mapsto> r)) l"
  unfolding maps_inv_def by (auto split: if_splits) (metis option.inject)+

lemma maps_inv_remove:
  "maps_inv m l \<Longrightarrow> m i = Some r \<Longrightarrow> maps_inv (m(i := None)) (l(LogicalKey r := None))"
  unfolding maps_inv_def by (auto split: if_splits) (metis option.inject)+

lemma index_inv_insert:
  assumes "index_inv s" "stored_ok i r" "map_of (byID s) i = None" "map_of (byLogic s) (LogicalKey r) = None"
  shows "index_inv (s\<lparr>byID := AList.update i r (byID s), byLogic := AList.update (LogicalKey r) i (byLogic s)\<rparr>)"
  using assms by (simp add: index_inv_maps update_conv' maps_inv_insert del: map_of_eq_None_iff)

lemma index_inv_replace:
  assumes "index_inv s" "stored_ok i r" "map_of (byID s) i = Some old" "LogicalKey r = LogicalKey old"
  shows "index_inv (s\<lparr>byID := AList.update i r (byID s)\<rparr>)"
  using assms maps_inv_replace [of "map_of (byID s)" "map_of (byLogic s)" i r old]
  by (simp add: index_inv_maps update_conv' del: map_of_eq_Some_iff)

lemma index_inv_remove:
  assumes "index_inv s" "map_of (byID s) i = Some r"
  shows "index_inv (s\<lparr>byID := AList.delete i (byID s), byLogic := AList.delete (LogicalKey r) (byLogic s)\<rparr>)"
  using assms by (simp add: index_inv_maps delete_conv' maps_inv_remove del: map_of_eq_Some_iff)

lemma index_inv_audit [simp]:
  "index_inv (appendAuditRingLocked e s) = index_inv s"
  "index_inv (appendAuditLocked io a b r s) = index_inv s"
  by (simp_all add: index_inv_def)

lemma stored_wf [dest]: "index_inv s \<Longrightarrow> map_of (byID s) i = Some r \<Longrightarrow> wf_resource r"
  by (auto simp: index_inv_def stored_ok_def)

lemma stored_okD: "index_inv s \<Longrightarrow> map_of (byID s) i = Some r \<Longrightarrow> stored_ok i r"
  by (auto simp: index_inv_def)

lemma fn_okD:
  assumes "fn_ok fn" "fn r = Inr r'"
  shows "r' = r\<lparr>rSpec := rSpec r', rLabels := rLabels r'\<rparr>" "wf_resource r \<Longrightarrow> wf_resource r'"
  using assms by (auto simp: fn_ok_def)

lemma fn_ok_fields:
  assumes "fn_ok fn" "fn r = Inr r'"
  shows "rID r' = rID r" "LogicalKey r' = LogicalKey r" "rGeneration r' = rGeneration r"
    "rKind r' = rKind r" "rStatus r' = rStatus r" "rCreatedAt r' = rCreatedAt r" "rUpdatedAt r' = rUpdatedAt r"
  by (subst fn_okD(1) [OF assms], simp)+

text \<open>Each method keeps the invariant.\<close>

lemma create_inv:
  assumes "store_inv s" "op_ok (OpCreate io ro o') s"
  shows "store_inv (fst (CreateResource env io ro o' s))"
proof (cases ro)
  case None
  then show ?thesis using assms by (simp add: CreateResource_def)
next
  case (Some r)
  let ?st = "rStatus r"
  let ?r = "r\<lparr>rID := newID (ioRand io), rGeneration := 1, rCreatedAt := ioNow io, rUpdatedAt := ioNow io,
     rStatus := ?st\<lparr>sPhase := (if sPhase ?st = [] then PhasePending else sPhase ?st), sObservedGen := 0, sUpdatedAt := ioNow io\<rparr>\<rparr>"
  show ?thesis
  proof (cases "Validate env r = None \<and> map_of (byLogic s) (LogicalKey r) = None")
    case True
    then have "stored_ok (newID (ioRand io)) ?r"
      using assms Some by (intro Validate_stored_ok [of env]) auto
    then have "index_inv (s\<lparr>byID := AList.update (newID (ioRand io)) ?r (byID s),
        byLogic := AList.update (LogicalKey ?r) (newID (ioRand io)) (byLogic s)\<rparr>)"
      using assms Some True by (intro index_inv_insert) (auto simp: store_inv_def)
    then show ?thesis using assms Some True
      by (simp add: CreateResource_def store_inv_def Let_def)
  next
    case False
    then show ?thesis using assms Some
      by (auto simp: CreateResource_def Let_def split: option.splits)
  qed
qed

lemma update_inv:
  assumes "store_inv s" "fn_ok fn"
  shows "store_inv (fst (UpdateResource env io i fn o' s))"
proof (cases "map_of (byID s) i")
  case None
  then show ?thesis using assms by (simp add: UpdateResource_def)
next
  case (Some cur)
  have wf: "wf_resource cur" and id: "rID cur = i"
    using assms Some stored_okD [of s i cur] by (auto simp: store_inv_def stored_ok_def)
  show ?thesis
  proof (cases "fn cur")
    case (Inl e)
    then show ?thesis using assms Some wf by (simp add: UpdateResource_def)
  next
    case (Inr work)
    note f = fn_ok_fields [OF assms(2) Inr] fn_okD(2) [OF assms(2) Inr wf]
    have "index_inv (s\<lparr>byID := AList.update i w (byID s)\<rparr>)"
      if "Validate env work = None"
        "w = work \<or> w = work\<lparr>rGeneration := g, rUpdatedAt := t\<rparr>" for w g t
      using that assms Some f id
      by - (rule index_inv_replace [where old = cur], auto simp: store_inv_def intro: Validate_stored_ok [of env])
    then show ?thesis using assms Some wf Inr
      by (auto simp: UpdateResource_def store_inv_def Let_def split: option.splits)
  qed
qed

lemma status_inv:
  assumes "store_inv s"
  shows "store_inv (fst (UpdateStatus io i p m o' s))"
proof (cases "map_of (byID s) i")
  case (Some r)
  then have "stored_ok i r" using assms stored_okD by (auto simp: store_inv_def)
  moreover have "index_inv (s\<lparr>byID := AList.update i w (byID s)\<rparr>)"
    if "stored_ok i w" "LogicalKey w = LogicalKey r" for w
    using that assms Some by (intro index_inv_replace [where old = r]) (auto simp: store_inv_def)
  ultimately show ?thesis using assms Some by (simp add: UpdateStatus_def store_inv_def Let_def)
qed (use assms in \<open>simp add: UpdateStatus_def\<close>)

lemma delete_inv: "store_inv s \<Longrightarrow> store_inv (fst (DeleteResource io i o' s))"
  by (auto simp: DeleteResource_def store_inv_def index_inv_remove split: option.splits)

lemma op_inv:
  assumes "store_inv s" "op_ok p s"
  shows "store_inv (apply_op env p s)"
proof (cases p)
  case (OpAudit io e)
  then show ?thesis using assms by (simp add: AppendAudit_def store_inv_def Let_def)
qed (use assms create_inv update_inv status_inv delete_inv in auto)

lemma cap_pos: "0 < (if c \<le> 0 then DefaultAuditCap else c)"
  by (simp add: DefaultAuditCap_def)

lemma store_inv_NewStore [simp]: "store_inv (NewStore opts)"
  by (simp add: NewStore_def store_inv_def index_inv_def ring_inv_def Let_def DefaultAuditCap_def)

lemma reachable_inv: "reachable env s \<Longrightarrow> store_inv s"
  by (induction rule: reachable.induct) (auto intro: op_inv)

section \<open>Listings\<close>

lemma list_limit_pos [simp]: "0 < list_limit l" "list_limit l \<le> 200"
  by (auto simp: list_limit_def)

lemma list_match_cursor [simp]: "list_match (q\<lparr>oCursor := c\<rparr>) = list_match q"
  by (simp add: fun_eq_iff list_match_def)

lemma sorted_matches_cursor [simp]: "sorted_matches (q\<lparr>oCursor := c\<rparr>) s = sorted_matches q s"
  by (simp add: sorted_matches_def)

definition cursor_offset :: "string \<Rightarrow> nat option" where
  "cursor_offset c =
     (if c = [] then Some 0 else case decodeCursor c of Inl e \<Rightarrow> None | Inr n \<Rightarrow> Some (unat n))"

lemma encodeCursor_not_Nil [simp]: "encodeCursor n \<noteq> []"
  by (simp add: encodeCursor_def PutUint64_def)

lemma cursor_offset_encode:
  assumes "n \<le> 2147483647"
  shows "cursor_offset (encodeCursor (word_of_nat n)) = Some n"
proof -
  have u: "unat (word_of_nat n :: 64 word) = n"
    using assms by (simp add: unat_of_nat take_bit_nat_eq_self)
  then have "\<not> word_of_nat n > maxCursorOffset"
    using assms by (simp add: maxCursorOffset_def word_less_nat_alt)
  then show ?thesis using u by (simp add: cursor_offset_def decode_encode)
qed

lemma ListResources_page:
  assumes "cursor_offset c = Some n"
  shows "ListResources (q\<lparr>oCursor := c\<rparr>) s =
     (let xs = sorted_matches q s; k = list_limit (oLimit q)
      in Inr (map DeepCopy (take k (drop n xs)),
              if n + k < length xs then encodeCursor (word_of_nat (n + k)) else []))"
proof -
  have "c = [] \<and> n = 0 \<or> c \<noteq> [] \<and> (\<exists>m. decodeCursor c = Inr m \<and> unat m = n)"
    using assms by (auto simp: cursor_offset_def split: if_splits sum.splits)
  then show ?thesis
    by (elim disjE conjE exE) (auto simp: ListResources_def Let_def simp del: of_nat_add)
qed

lemma ListResources_bad_cursor:
  assumes "cursor_offset c = None"
  shows "ListResources (q\<lparr>oCursor := c\<rparr>) s = Inl ErrBadRequest"
  using assms by (auto simp: cursor_offset_def ListResources_def split: if_splits sum.splits)

text \<open>The listing of the memory store meets the interface of its clients.\<close>

definition mem_list :: "store \<times> list_options \<Rightarrow> string \<Rightarrow> go_error + resource list \<times> string" where
  "mem_list = (\<lambda>(s, q) c. ListResources (q\<lparr>oCursor := c\<rparr>) s)"

definition mem_contents :: "store \<times> list_options \<Rightarrow> resource list" where
  "mem_contents = (\<lambda>(s, q). map DeepCopy (sorted_matches q s))"

definition mem_page_size :: "store \<times> list_options \<Rightarrow> nat" where
  "mem_page_size = (\<lambda>(s, q). list_limit (oLimit q))"

definition mem_fits :: "store \<times> list_options \<Rightarrow> bool" where
  "mem_fits = (\<lambda>(s, q). length (sorted_matches q s) \<le> 2147483647)"

lemmas mem_defs = mem_list_def mem_contents_def mem_page_size_def mem_fits_def

interpretation mem: paged_listing mem_list mem_contents mem_page_size "\<lambda>_. cursor_offset" mem_fits
proof unfold_locales
  show "cursor_offset [] = Some 0" by (simp add: cursor_offset_def)
next
  fix q show "0 < mem_page_size q" by (simp add: mem_defs split: prod.split)
next
  fix c n q assume "cursor_offset c = Some n"
  then show "\<exists>next'. mem_list q c = Inr (take (mem_page_size q) (drop n (mem_contents q)), next')"
    by (simp add: mem_defs ListResources_page Let_def take_map drop_map split: prod.split)
next
  fix c n q page next'
  assume "cursor_offset c = Some n" "mem_list q c = Inr (page, next')"
  then show "next' = [] \<longleftrightarrow> length (mem_contents q) \<le> n + mem_page_size q"
    by (auto simp: mem_defs ListResources_page Let_def split: prod.splits if_splits)
next
  fix q c n page next'
  assume "mem_fits q" "cursor_offset c = Some n" "mem_list q c = Inr (page, next')" "next' \<noteq> []"
  then show "cursor_offset next' = Some (n + mem_page_size q)"
    by (auto simp: mem_defs ListResources_page Let_def simp del: of_nat_add
        split: prod.splits if_splits intro!: cursor_offset_encode)
qed

text \<open>Sorting makes the iteration order of the Go map irrelevant.\<close>

lemma sort_key_unique:
  assumes "mset xs = mset ys" "inj_on f (set xs)"
  shows "sort_key f xs = sort_key f ys"
  using assms by (intro sort_key_inj_key_eq) simp_all

lemma list_key_inj: "index_inv s \<Longrightarrow> inj_on list_key (snd ` set (byID s))"
proof (rule inj_onI)
  fix a b assume i: "index_inv s" and a: "a \<in> snd ` set (byID s)" and b: "b \<in> snd ` set (byID s)"
    and e: "list_key a = list_key b"
  have d: "distinct (map fst (byID s))" using i by (simp add: index_inv_def)
  obtain ka kb where "(ka, a) \<in> set (byID s)" "(kb, b) \<in> set (byID s)" using a b by auto
  then have "map_of (byID s) ka = Some a" "map_of (byID s) kb = Some b" using d by simp_all
  moreover from this have "rID a = ka" "rID b = kb" using stored_okD [OF i] by (auto simp: stored_ok_def)
  ultimately show "a = b" using e by (simp add: list_key_def del: map_of_eq_Some_iff)
qed

lemma sorted_matches_order_irrelevant:
  assumes "index_inv s" "mset (byID s') = mset (byID s)"
  shows "sorted_matches q s' = sorted_matches q s"
  unfolding sorted_matches_def
proof (rule sort_key_unique)
  have "mset (map snd (byID s')) = mset (map snd (byID s))" using assms(2) by simp
  then show "mset (filter (list_match q) (map snd (byID s'))) = mset (filter (list_match q) (map snd (byID s)))"
    by (simp add: mset_filter)
  have "set (filter (list_match q) (map snd (byID s'))) \<subseteq> snd ` set (byID s)"
    using mset_eq_setD [OF assms(2)] by auto
  then show "inj_on list_key (set (filter (list_match q) (map snd (byID s'))))"
    using list_key_inj [OF assms(1)] by (rule inj_on_subset [rotated])
qed

lemma sorted_matches_mem:
  "r \<in> set (sorted_matches q s) \<longleftrightarrow> (\<exists>i. (i, r) \<in> set (byID s)) \<and> list_match q r"
  by (force simp: sorted_matches_def)

lemma sorted_matches_sorted: "sorted (map list_key (sorted_matches q s))"
  by (simp add: sorted_matches_def)

lemma distinct_sorted_matches: "index_inv s \<Longrightarrow> distinct (map rID (sorted_matches q s))"
proof -
  assume i: "index_inv s"
  have "map rID (map snd (byID s)) = map fst (byID s)"
    using i by (auto simp: index_inv_def stored_ok_def)
  then have "distinct (map rID (map snd (byID s)))" using i by (metis index_inv_def)
  then show ?thesis
    by (auto simp: sorted_matches_def distinct_map inj_on_def)
qed

lemma DeepCopy_sorted_matches: "index_inv s \<Longrightarrow> map DeepCopy (sorted_matches q s) = sorted_matches q s"
  by (rule map_idI) (auto simp: sorted_matches_mem index_inv_def stored_ok_def)

section \<open>Counting\<close>

lemma count_fold:
  "(case map_of (case map_of (fold count_one rs out) k of None \<Rightarrow> [] | Some m \<Rightarrow> m) p of None \<Rightarrow> 0 | Some n \<Rightarrow> n) =
   (case map_of (case map_of out k of None \<Rightarrow> [] | Some m \<Rightarrow> m) p of None \<Rightarrow> 0 | Some n \<Rightarrow> n) +
   int (length (filter (\<lambda>r. rKind r = k \<and> sPhase (rStatus r) = p) rs))"
proof (induction rs arbitrary: out)
  case (Cons r rs)
  show ?case by (simp add: Cons.IH) (auto simp: count_one_def Let_def split: option.splits)
qed simp

section \<open>What each method does\<close>

text \<open>A successful update: the expected generation matched, the callback's result was valid, and the
  store changed at that one resource, with one audit entry when spec or labels changed.\<close>

lemma update_success:
  assumes "UpdateResource env io i fn o' s = (s', Inr r')" "index_inv s" "fn_ok fn"
  obtains cur work where
    "map_of (byID s) i = Some cur" "fn cur = Inr work" "Validate env work = None"
    "uExpectedGeneration o' \<noteq> 0 \<Longrightarrow> uExpectedGeneration o' = rGeneration cur"
    "r' = (if specLabelsEqual cur work then work
           else work\<lparr>rGeneration := wrap64 (rGeneration cur + 1), rUpdatedAt := ioNow io\<rparr>)"
    "s' = (let t = s\<lparr>byID := AList.update i r' (byID s)\<rparr>
           in if specLabelsEqual cur work then t
              else appendAuditLocked io (or_actor ''anonymous'' (uWrite o')) ''updated'' r' t)"
proof -
  obtain cur where c: "map_of (byID s) i = Some cur"
    using assms(1) by (cases "map_of (byID s) i") (auto simp: UpdateResource_def)
  have wf: "DeepCopy cur = cur" using c assms(2) by auto
  obtain work where f: "fn cur = Inr work"
    using assms(1) c wf by (cases "fn cur") (auto simp: UpdateResource_def split: if_splits)
  have v: "Validate env work = None"
    using assms(1) c wf f by (cases "Validate env work") (auto simp: UpdateResource_def split: if_splits)
  have "wf_resource work" using fn_okD(2) [OF assms(3) f] c assms(2) by auto
  then have w: "DeepCopy work = work"
    "DeepCopy (work\<lparr>rGeneration := g, rUpdatedAt := t\<rparr>) = work\<lparr>rGeneration := g, rUpdatedAt := t\<rparr>" for g t
    by simp_all
  note d = assms(1) c wf f v w
  show ?thesis
    by (rule that [OF c f v]; use d in \<open>force simp: UpdateResource_def Let_def split: if_splits\<close>)
qed

lemma update_failure:
  assumes "UpdateResource env io i fn o' s = (s', Inl e)"
  shows "s' = s"
  using assms by (auto simp: UpdateResource_def Let_def split: option.splits sum.splits if_splits)

lemma update_conflict:
  assumes "map_of (byID s) i = Some cur" "uExpectedGeneration o' \<noteq> 0" "uExpectedGeneration o' \<noteq> rGeneration cur"
  shows "UpdateResource env io i fn o' s = (s, Inl ErrConflict)"
  using assms by (simp add: UpdateResource_def)

text \<open>Outside the reserved kind the change test is exact.\<close>

lemma specLabelsEqual_exact:
  assumes "wf_resource a" "wf_resource b" "\<forall>(k, v) \<in> set (labels_of a). v \<noteq> []"
  shows "specLabelsEqual a b \<longleftrightarrow> rSpec a = rSpec b \<and> labels_of a = labels_of b"
proof -
  have "sorted_keys (labels_of x)" if "wf_resource x" for x
    using that by (cases "rLabels x") (auto simp: wf_resource_def wf_labels_def sorted_keys_def)
  then have "labels_eq (labels_of a) (labels_of b) \<longleftrightarrow> labels_of a = labels_of b"
    using assms by (intro labels_eq_iff) auto
  moreover have "marshal_spec (rSpec a) = marshal_spec (rSpec b) \<longleftrightarrow> rSpec a = rSpec b"
    using assms by (intro marshal_spec_inject) (auto simp: wf_resource_def)
  ultimately show ?thesis by (auto simp: specLabelsEqual_def)
qed

lemma create_success:
  assumes "wf_resource r" "Validate env r = None" "map_of (byLogic s) (LogicalKey r) = None"
  shows "\<exists>st. st = r\<lparr>rID := newID (ioRand io), rGeneration := 1, rCreatedAt := ioNow io, rUpdatedAt := ioNow io,
       rStatus := (rStatus r)\<lparr>sPhase := (if sPhase (rStatus r) = [] then PhasePending else sPhase (rStatus r)),
                              sObservedGen := 0, sUpdatedAt := ioNow io\<rparr>\<rparr> \<and>
     CreateResource env io (Some r) o' s =
       (appendAuditLocked io (or_actor ''anonymous'' o') ''created'' st
          (s\<lparr>byID := AList.update (rID st) st (byID s),
             byLogic := AList.update (LogicalKey r) (rID st) (byLogic s)\<rparr>), Inr st)"
  using assms by (simp add: CreateResource_def Let_def)

lemma wrap64_succ_neq: "wrap64 (x + 1) \<noteq> x"
proof
  assume "wrap64 (x + 1) = x"
  then have "(x + 1 + 2 ^ 63) mod 2 ^ 64 = x + 2 ^ 63" by (simp add: wrap64_def)
  moreover from this have "0 \<le> x + 2 ^ 63" "x + 2 ^ 63 < 2 ^ 64"
    by (metis Euclidean_Rings.pos_mod_sign Euclidean_Rings.pos_mod_bound zero_less_numeral zero_less_power)+
  ultimately show False by (cases "x + 1 + 2 ^ 63 = 2 ^ 64") auto
qed

lemma GetResource_iff: "index_inv s \<Longrightarrow> GetResource i s = Inr r \<longleftrightarrow> map_of (byID s) i = Some r"
  using stored_wf [of s i] by (auto simp: GetResource_def split: option.splits)

lemma GetResource_cong: "map_of (byID s') i = map_of (byID s) i \<Longrightarrow> GetResource i s' = GetResource i s"
  by (simp add: GetResource_def)

lemma update_accepted:
  assumes "index_inv s" "fn_ok fn" "map_of (byID s) i = Some cur"
    "uExpectedGeneration o' = 0 \<or> uExpectedGeneration o' = rGeneration cur"
    "fn cur = Inr work" "Validate env work = None"
  shows "\<exists>s' r'. UpdateResource env io i fn o' s = (s', Inr r')"
  using assms stored_wf [OF assms(1,3)] by (auto simp: UpdateResource_def Let_def)

lemma audit_log_update [simp]:
  "audit_log (s\<lparr>byID := x\<rparr>) = audit_log s" "audit_log (s\<lparr>byLogic := y\<rparr>) = audit_log s"
  by (simp_all add: audit_log_def)

lemma ListAudit_page:
  assumes "cursor_offset (qCursor q) = Some n"
  shows "ListAudit q s =
     Inr (take (audit_limit (qLimit q)) (drop n (filter (audit_match q) (rev (audit_log s)))))"
proof -
  have "qCursor q = [] \<and> n = 0 \<or> qCursor q \<noteq> [] \<and> (\<exists>m. decodeCursor (qCursor q) = Inr m \<and> unat m = n)"
    using assms by (auto simp: cursor_offset_def split: if_splits sum.splits)
  then show ?thesis
    by (elim disjE conjE exE) (auto simp: ListAudit_def Let_def ring_newest_first_eq)
qed

lemma evicted_append:
  "ring_inv s \<Longrightarrow> auditEvicted (appendAuditRingLocked e s) =
     auditEvicted s + (if int (length (audit s)) < auditCap s then 0 else 1)"
  "ring_inv s \<Longrightarrow> length (audit (appendAuditRingLocked e s)) =
     (if int (length (audit s)) < auditCap s then Suc (length (audit s)) else length (audit s))"
  by (simp_all add: appendAuditRingLocked_def ring_inv_def Let_def)

lemma evicted_fold:
  "ring_inv s \<Longrightarrow> auditEvicted (fold appendAuditRingLocked es s) =
     auditEvicted s + word_of_nat (length (audit s) + length es - nat (auditCap s))"
proof (induction es arbitrary: s)
  case Nil
  then have "length (audit s) - nat (auditCap s) = 0" by (auto simp: ring_inv_def)
  then show ?case by simp
next
  case (Cons e es)
  let ?t = "appendAuditRingLocked e s"
  have "auditEvicted (fold appendAuditRingLocked es ?t) =
      auditEvicted ?t + word_of_nat (length (audit ?t) + length es - nat (auditCap ?t))"
    using Cons by simp
  moreover have "length (audit s) = nat (auditCap s)" if "\<not> int (length (audit s)) < auditCap s"
    using that Cons.prems by (auto simp: ring_inv_def)
  ultimately show ?case using Cons.prems by (simp add: evicted_append)
qed

lemma NewStore_cap: "0 < cap \<Longrightarrow> ring_inv (NewStore [Some (WithAuditCap cap)]) \<and>
   auditCap (NewStore [Some (WithAuditCap cap)]) = cap \<and> audit_log (NewStore [Some (WithAuditCap cap)]) = [] \<and>
   audit (NewStore [Some (WithAuditCap cap)]) = [] \<and> auditEvicted (NewStore [Some (WithAuditCap cap)]) = 0"
  by (simp add: NewStore_def WithAuditCap_def Let_def ring_inv_def audit_log_def)

lemma sorted_matches_get:
  assumes i: "index_inv s"
  shows "r \<in> set (sorted_matches q s) \<longleftrightarrow> list_match q r \<and> GetResource (rID r) s = Inr r"
proof -
  have "distinct (map fst (byID s))" using i by (simp add: index_inv_def)
  then have "(\<exists>j. (j, r) \<in> set (byID s)) \<longleftrightarrow> (\<exists>j. map_of (byID s) j = Some r)" by simp
  also have "\<dots> \<longleftrightarrow> map_of (byID s) (rID r) = Some r"
    using stored_okD [OF i, of _ r] unfolding stored_ok_def by metis
  finally show ?thesis unfolding sorted_matches_mem GetResource_iff [OF i] by blast
qed

lemma index_to_logic:
  "index_inv s \<Longrightarrow> map_of (byID s) i = Some r \<Longrightarrow> map_of (byLogic s) (LogicalKey r) = Some i"
  unfolding index_inv_def by blast

lemma logic_to_index:
  "index_inv s \<Longrightarrow> map_of (byLogic s) k = Some i \<Longrightarrow> \<exists>r. map_of (byID s) i = Some r \<and> LogicalKey r = k"
  unfolding index_inv_def by blast

lemma LogicalKey_logical: "LogicalKey r = logical (rOrg r) (rProject r) (rEnv r) (rKind r) (rName r)"
  by (simp add: LogicalKey_def logical_def)

lemma create_byID:
  assumes "wf_resource r" "Validate env r = None" "map_of (byLogic s) (LogicalKey r) = None"
  shows "\<exists>st. rID st = newID (ioRand io) \<and> rKind st = rKind r \<and> rSpec st = rSpec r \<and>
     byID (fst (CreateResource env io (Some r) o' s)) = AList.update (rID st) st (byID s)"
proof -
  obtain st where st: "rID st = newID (ioRand io)" "rKind st = rKind r" "rSpec st = rSpec r"
    "CreateResource env io (Some r) o' s =
       (appendAuditLocked io (or_actor ''anonymous'' o') ''created'' st
          (s\<lparr>byID := AList.update (rID st) st (byID s),
             byLogic := AList.update (LogicalKey r) (rID st) (byLogic s)\<rparr>), Inr st)"
    using create_success [OF assms, of io o'] by force
  then show ?thesis by (intro exI [of _ st]) simp
qed

end
