(* ===== verification/Samples.thy ===== *)
theory Samples
  imports Store_Laws "HOL-Library.Code_Target_Nat"
begin

text \<open>Concrete values for the witnesses of the development: a resolver that knows one public address,
  clock and random readings, a node, a subscription and a managed key.\<close>

definition ex_env :: egress_env where
  "ex_env = \<lparr>AllowPrivate = False, LookupHost = (\<lambda>h. if h = ''hooks.acme.io'' then Some [''93.184.216.34''] else None)\<rparr>"

definition ex_io :: "nat \<Rightarrow> io" where
  "ex_io n = \<lparr>ioNow = int n, ioRand = [char_of n], ioAuditNow = int n, ioAuditRand = [char_of n]\<rparr>"

definition ex_opts :: write_options where
  "ex_opts = \<lparr>wActor = ''ci'', wReason = ''rollout''\<rparr>"

definition ex_status :: status where
  "ex_status = \<lparr>sPhase = [], sMessage = [], sObservedGen = 0, sUpdatedAt = 0\<rparr>"

definition ex_node :: "string \<Rightarrow> nat \<Rightarrow> resource" where
  "ex_node name cpus =
     \<lparr>rID = [], rKind = ''Node'', rOrg = ''acme'', rProject = ''core'', rEnv = ''prod'', rName = name,
      rGeneration = 0, rLabels = None, rSpec = Some [(''cpus'', JNum False cpus 0)],
      rStatus = ex_status, rCreatedAt = 0, rUpdatedAt = 0\<rparr>"

text \<open>An edit that sets the number of CPUs, as a request body would.\<close>

definition ex_set_cpus :: "nat \<Rightarrow> resource \<Rightarrow> go_error + resource" where
  "ex_set_cpus n r = Inr (r\<lparr>rSpec := Some [(''cpus'', JNum False n 0)]\<rparr>)"

definition ex_store :: store where
  "ex_store = fst (CreateResource ex_env (ex_io 1) (Some (ex_node ''web'' 1)) ex_opts (NewStore []))"

definition ex_id :: "nat \<Rightarrow> string" where
  "ex_id n = newID [char_of n]"

definition ex_web :: resource where
  "ex_web =
     \<lparr>rID = ''r-01'', rKind = ''Node'', rOrg = ''acme'', rProject = ''core'', rEnv = ''prod'', rName = ''web'',
      rGeneration = 1, rLabels = None, rSpec = Some [(''cpus'', JNum False 1 0)],
      rStatus = \<lparr>sPhase = ''Pending'', sMessage = [], sObservedGen = 0, sUpdatedAt = 1\<rparr>,
      rCreatedAt = 1, rUpdatedAt = 1\<rparr>"

definition ex_update :: "int \<Rightarrow> update_options" where
  "ex_update g = \<lparr>uWrite = ex_opts, uExpectedGeneration = g\<rparr>"

definition ex_entry :: "nat \<Rightarrow> audit_entry" where
  "ex_entry n = \<lparr>aID = ''a-'' @ dec n, aTime = int n, aActor = ''ci'', aAction = ''created'', aResourceID = ''r-01'',
     aKind = ''Node'', aLogicalKey = ''acme/core/prod/Node/web'', aGeneration = 1, aReason = []\<rparr>"

lemma ex_valid: "Validate ex_env (ex_node ''web'' 1) = None" "Validate ex_env (ex_node ''web'' 2) = None"
  by code_simp+

lemma ex_wf: "wf_resource (ex_node ''web'' 1)" "wf_resource (ex_node ''web'' 2)" "wf_resource ex_web"
  by code_simp+

lemma ex_ids: "newID (ioRand (ex_io 1)) = ''r-01''" "newAuditID (ioAuditRand (ex_io 1)) = ''a-01''"
  "newID (ioRand (ex_io 2)) = ''r-02''" "newAuditID (ioAuditRand (ex_io 2)) = ''a-02''"
  by code_simp+

lemma ex_store_eq:
  "ex_store =
     \<lparr>byID = [(''r-01'', ex_web)], byLogic = [(''acme/core/prod/Node/web'', ''r-01'')],
      audit = [\<lparr>aID = ''a-01'', aTime = 1, aActor = ''ci'', aAction = ''created'', aResourceID = ''r-01'',
                aKind = ''Node'', aLogicalKey = ''acme/core/prod/Node/web'', aGeneration = 1, aReason = []\<rparr>],
      auditWrite = 0, auditCap = 10000, auditEvicted = 0, seq = 1\<rparr>"
  using create_success [OF ex_wf(1) ex_valid(1), of "NewStore []" "ex_io 1" ex_opts] ex_ids(1,2)
  by (simp add: ex_store_def ex_web_def NewStore_def appendAuditLocked_def appendAuditRingLocked_def
      Let_def ex_node_def ex_status_def DefaultAuditCap_def LogicalKey_def ex_io_def or_actor_def
      ex_opts_def PhasePending_def)

lemma ex_store_reachable: "reachable ex_env ex_store"
proof -
  have "op_ok (OpCreate (ex_io 1) (Some (ex_node ''web'' 1)) ex_opts) (NewStore [])"
    using ex_wf(1) by (simp add: NewStore_def Let_def)
  from reachable.step [OF reachable.init this] show ?thesis by (simp add: ex_store_def)
qed

lemma ex_store_inv: "store_inv ex_store"
  by (rule reachable_inv [OF ex_store_reachable])

lemma ex_set_cpus_ok: "wf_spec (Some [(''cpus'', JNum False n 0)]) \<Longrightarrow> fn_ok (ex_set_cpus n)"
  by (auto simp: fn_ok_def ex_set_cpus_def wf_resource_def)

lemma ex_cpus_wf: "wf_spec (Some [(''cpus'', JNum False 1 0)])" "wf_spec (Some [(''cpus'', JNum False 2 0)])"
  by code_simp+

lemma ex_update_result:
  "\<exists>s1. UpdateResource ex_env (ex_io 2) ''r-01'' (ex_set_cpus 2) (ex_update 1) ex_store =
     (s1, Inr (ex_web\<lparr>rSpec := Some [(''cpus'', JNum False 2 0)], rGeneration := 2, rUpdatedAt := 2\<rparr>)) \<and>
   map_of (byID s1) ''r-01'' = Some (ex_web\<lparr>rSpec := Some [(''cpus'', JNum False 2 0)], rGeneration := 2, rUpdatedAt := 2\<rparr>)"
proof -
  have "Validate ex_env (ex_web\<lparr>rSpec := Some [(''cpus'', JNum False 2 0)]\<rparr>) = None"
    "\<not> specLabelsEqual ex_web (ex_web\<lparr>rSpec := Some [(''cpus'', JNum False 2 0)]\<rparr>)"
    "wf_resource (ex_web\<lparr>rSpec := Some [(''cpus'', JNum False 2 0)]\<rparr>)"
    "wrap64 (rGeneration ex_web + 1) = 2"
    by code_simp+
  then show ?thesis using ex_wf(3)
    by (simp add: UpdateResource_def ex_store_eq ex_set_cpus_def Let_def ex_update_def ex_io_def)
      (simp add: ex_web_def)
qed

end
