(* ===== verification/Store_Props.thy ===== *)
theory Store_Props
  imports Samples
begin

text \<open>
  Properties of the state store over whole histories: what holds in every reachable store, optimistic
  concurrency, audit coverage, and the behaviour of each method as its clients see it.
\<close>

section \<open>Histories\<close>

fun ops_ok :: "egress_env \<Rightarrow> store_op list \<Rightarrow> store \<Rightarrow> bool" where
  "ops_ok env [] s = True"
| "ops_ok env (p # ps) s = (op_ok p s \<and> ops_ok env ps (apply_op env p s))"

definition run_ops :: "egress_env \<Rightarrow> store_op list \<Rightarrow> store \<Rightarrow> store" where
  "run_ops env ps s = fold (apply_op env) ps s"

fun deletes :: "string \<Rightarrow> store_op \<Rightarrow> bool" where
  "deletes i (OpDelete io j o') = (j = i)"
| "deletes i p = False"

lemma run_ops_simps [simp]:
  "run_ops env [] s = s" "run_ops env (p # ps) s = run_ops env ps (apply_op env p s)"
  by (simp_all add: run_ops_def)

lemma run_ops_inv: "store_inv s \<Longrightarrow> ops_ok env ps s \<Longrightarrow> store_inv (run_ops env ps s)"
  by (induction ps arbitrary: s) (auto intro: op_inv)

text \<open>A successful update in terms of the map: only the one resource changes, and its generation
  stays or advances by one.\<close>

lemma update_stored:
  assumes "UpdateResource env io i fn o' s = (s', Inr r')" "index_inv s" "fn_ok fn"
  shows "\<exists>cur. map_of (byID s) i = Some cur \<and>
     (uExpectedGeneration o' \<noteq> 0 \<longrightarrow> uExpectedGeneration o' = rGeneration cur) \<and>
     map_of (byID s') = (map_of (byID s))(i \<mapsto> r') \<and>
     (rGeneration r' = rGeneration cur \<or> rGeneration r' = wrap64 (rGeneration cur + 1))"
proof -
  obtain cur work where c: "map_of (byID s) i = Some cur" "fn cur = Inr work"
    "uExpectedGeneration o' \<noteq> 0 \<Longrightarrow> uExpectedGeneration o' = rGeneration cur"
    "r' = (if specLabelsEqual cur work then work
           else work\<lparr>rGeneration := wrap64 (rGeneration cur + 1), rUpdatedAt := ioNow io\<rparr>)"
    "s' = (let t = s\<lparr>byID := AList.update i r' (byID s)\<rparr>
           in if specLabelsEqual cur work then t
              else appendAuditLocked io (or_actor ''anonymous'' (uWrite o')) ''updated'' r' t)"
    by (rule update_success [OF assms]) blast
  then show ?thesis using fn_ok_fields [OF assms(3) c(2)] by (simp add: Let_def update_conv')
qed

text \<open>What one operation can do to one stored resource: keep its generation or advance it by one.\<close>

lemma op_generation_step:
  assumes "store_inv s" "op_ok p s" "\<not> deletes i p" "map_of (byID s) i = Some r"
  shows "\<exists>r'. map_of (byID (apply_op env p s)) i = Some r' \<and>
     (rGeneration r' = rGeneration r \<or> rGeneration r' = wrap64 (rGeneration r + 1))"
proof (cases p)
  case (OpCreate io ro o')
  then show ?thesis using assms
    by (auto simp: CreateResource_def Let_def split: option.splits)
next
  case (OpUpdate io j fn o')
  obtain s' res where u: "UpdateResource env io j fn o' s = (s', res)" by fastforce
  show ?thesis
  proof (cases res)
    case (Inl e)
    then show ?thesis using u update_failure [of env io j fn o' s s' e] assms OpUpdate by auto
  next
    case (Inr r')
    then show ?thesis
      using update_stored [of env io j fn o' s s' r'] u assms OpUpdate
      by (cases "i = j") (auto simp: store_inv_def)
  qed
next
  case (OpStatus io j ph m o')
  then show ?thesis using assms by (auto simp: UpdateStatus_def Let_def split: option.splits)
next
  case (OpDelete io j o')
  then show ?thesis using assms by (auto simp: DeleteResource_def split: option.splits)
next
  case (OpAudit io e)
  then show ?thesis using assms by (simp add: AppendAudit_def Let_def)
qed

lemma run_generation_bounds:
  assumes "store_inv s" "ops_ok env ps s" "\<forall>p \<in> set ps. \<not> deletes i p" "map_of (byID s) i = Some r"
    "0 < rGeneration r" "rGeneration r + int (length ps) < 2 ^ 63"
  shows "\<exists>r'. map_of (byID (run_ops env ps s)) i = Some r' \<and>
     rGeneration r \<le> rGeneration r' \<and> rGeneration r' \<le> rGeneration r + int (length ps)"
  using assms
proof (induction ps arbitrary: s r)
  case (Cons p ps)
  have "op_ok p s" "\<not> deletes i p" using Cons.prems by auto
  from op_generation_step [OF Cons.prems(1) this Cons.prems(4)]
  obtain r1 where r1: "map_of (byID (apply_op env p s)) i = Some r1"
    "rGeneration r1 = rGeneration r \<or> rGeneration r1 = wrap64 (rGeneration r + 1)" by blast
  have "int64_range (rGeneration r + 1)" using Cons.prems(5,6) by (simp add: int64_range_def)
  then have g: "rGeneration r1 = rGeneration r \<or> rGeneration r1 = rGeneration r + 1" using r1(2) by simp
  have "store_inv (apply_op env p s)" using Cons.prems by (auto intro: op_inv)
  from Cons.IH [OF this _ _ r1(1)] show ?case using Cons.prems g by auto
qed simp

definition updated_entry :: "io \<Rightarrow> update_options \<Rightarrow> resource \<Rightarrow> audit_entry" where
  "updated_entry io o' r =
     \<lparr>aID = newAuditID (ioAuditRand io), aTime = ioAuditNow io, aActor = or_actor ''anonymous'' (uWrite o'),
      aAction = ''updated'', aResourceID = rID r, aKind = rKind r, aLogicalKey = LogicalKey r,
      aGeneration = rGeneration r, aReason = []\<rparr>"

text \<open>A resource up to the representation of absent labels (a nil and an empty map).\<close>

definition view :: "resource \<Rightarrow> resource" where
  "view r = r\<lparr>rLabels := Some (labels_of r)\<rparr>"

lemma seq_unchanged_update:
  assumes "index_inv s" "fn_ok fn" "seq (fst (UpdateResource env io i fn o' s)) = seq s"
    "map_of (byID s) j = Some r" "rKind r \<noteq> KindAPIKey"
  shows "map_option view (map_of (byID (fst (UpdateResource env io i fn o' s))) j) = Some (view r)"
proof -
  obtain s' res where u: "UpdateResource env io i fn o' s = (s', res)" by fastforce
  show ?thesis
  proof (cases res)
    case (Inl e)
    then show ?thesis using u update_failure [of env io i fn o' s s' e] assms by simp
  next
    case (Inr r')
    from u have u': "UpdateResource env io i fn o' s = (s', Inr r')" using Inr by simp
    then obtain cur work where c: "map_of (byID s) i = Some cur" "fn cur = Inr work"
      and r': "r' = (if specLabelsEqual cur work then work
           else work\<lparr>rGeneration := wrap64 (rGeneration cur + 1), rUpdatedAt := ioNow io\<rparr>)"
      and s': "s' = (let t = s\<lparr>byID := AList.update i r' (byID s)\<rparr>
         in if specLabelsEqual cur work then t
            else appendAuditLocked io (or_actor ''anonymous'' (uWrite o')) ''updated'' r' t)"
      by (rule update_success [OF _ assms(1,2)])
    have e: "specLabelsEqual cur work" using assms(3) u' s' by (auto simp: Let_def split: if_splits)
    show ?thesis
    proof (cases "i = j")
      case True
      then have [simp]: "cur = r" using c assms(4) by simp
      have "stored_ok i cur" using stored_okD [OF assms(1) c(1)] .
      then have "rSpec r = rSpec work \<and> labels_of r = labels_of work"
        using e assms(5) fn_okD(2) [OF assms(2) c(2)] specLabelsEqual_exact [of cur work] by (auto simp: stored_ok_def)
      then have "view work = view r"
        using fn_okD(1) [OF assms(2) c(2)] unfolding view_def
        by (metis \<open>cur = r\<close> resource.surjective resource.update_convs(8,9))
      then show ?thesis using u' s' r' e True by (simp add: Let_def)
    next
      case False
      then show ?thesis using u' s' e assms(4) by (simp add: Let_def)
    qed
  qed
qed

section \<open>Properties\<close>





text \<open>C3: an accepted update of an ordinary resource advances the generation by one and appends one
  \<open>updated\<close> audit entry exactly when the spec or the labels differ; otherwise generation, update
  time and audit log stay as they are. No other resource changes.\<close>

theorem update_generation_exact:
  assumes "store_inv s" "fn_ok fn" "map_of (byID s) i = Some cur" "rKind cur \<noteq> KindAPIKey"
    "uExpectedGeneration o' = 0 \<or> uExpectedGeneration o' = rGeneration cur"
    "fn cur = Inr work" "Validate env work = None"
  shows "\<exists>s' r'. UpdateResource env io i fn o' s = (s', Inr r') \<and> GetResource i s' = Inr r' \<and>
     (\<forall>j. j \<noteq> i \<longrightarrow> GetResource j s' = GetResource j s) \<and>
     (if rSpec cur = rSpec work \<and> labels_of cur = labels_of work
      then r' = work \<and> audit_log s' = audit_log s
      else r' = work\<lparr>rGeneration := wrap64 (rGeneration cur + 1), rUpdatedAt := ioNow io\<rparr> \<and>
           audit_log s' = last_n (nat (auditCap s)) (audit_log s @ [updated_entry io o' r']))"
proof -
  have i: "index_inv s" "ring_inv s" using assms(1) by (simp_all add: store_inv_def)
  have ok: "stored_ok i cur" using stored_okD [OF i(1) assms(3)] .
  have eq: "specLabelsEqual cur work \<longleftrightarrow> rSpec cur = rSpec work \<and> labels_of cur = labels_of work"
    using ok assms(4) fn_okD(2) [OF assms(2,6)] by (intro specLabelsEqual_exact) (auto simp: stored_ok_def)
  obtain s' r' where u: "UpdateResource env io i fn o' s = (s', Inr r')"
    using update_accepted [OF i(1) assms(2,3,5,6,7)] by blast
  have r': "r' = (if specLabelsEqual cur work then work
         else work\<lparr>rGeneration := wrap64 (rGeneration cur + 1), rUpdatedAt := ioNow io\<rparr>)"
    and s': "s' = (let t = s\<lparr>byID := AList.update i r' (byID s)\<rparr>
         in if specLabelsEqual cur work then t
            else appendAuditLocked io (or_actor ''anonymous'' (uWrite o')) ''updated'' r' t)"
    using assms(3,6) by (auto intro: update_success [OF u i(1) assms(2)])
  have m: "map_of (byID s') = (map_of (byID s))(i \<mapsto> r')"
    using update_stored [OF u i(1) assms(2)] by blast
  have "index_inv s'" using update_inv [OF assms(1,2), of env io i o'] u by (simp add: store_inv_def)
  then have "GetResource i s' = Inr r'" using m by (simp add: GetResource_iff)
  moreover have "GetResource j s' = GetResource j s" if "j \<noteq> i" for j
    using that m by (intro GetResource_cong) simp
  moreover have "audit_log s' = (if specLabelsEqual cur work then audit_log s
      else last_n (nat (auditCap s)) (audit_log s @ [updated_entry io o' r']))"
    using s' i(2) by (simp add: Let_def appendAuditLocked_def audit_log_append updated_entry_def)
  ultimately show ?thesis using u r' eq by (intro exI [of _ s'] exI [of _ r']) auto
qed


theorem update_generation_exact_witness:
  "\<exists>s' r'. UpdateResource ex_env (ex_io 2) ''r-01'' (ex_set_cpus 2) (ex_update 1) ex_store = (s', Inr r') \<and>
     rGeneration r' = 2 \<and> audit_log s' = audit_log ex_store @ [updated_entry (ex_io 2) (ex_update 1) r']"
proof -
  let ?work = "ex_web\<lparr>rSpec := Some [(''cpus'', JNum False 2 0)]\<rparr>"
  have "Validate ex_env ?work = None" "rKind ex_web \<noteq> KindAPIKey" "wrap64 (rGeneration ex_web + 1) = 2"
    "rSpec ex_web \<noteq> rSpec ?work"
    by code_simp+
  moreover have "length (audit_log ex_store) = 1" "auditCap ex_store = 10000"
    by (simp_all add: audit_log_def ex_store_eq)
  ultimately show ?thesis
    using update_generation_exact [OF ex_store_inv ex_set_cpus_ok [OF ex_cpus_wf(2)], of "''r-01''" ex_web "ex_update 1" ?work ex_env "ex_io 2"]
    by (auto simp: ex_update_def ex_store_eq ex_set_cpus_def last_n_def) (auto simp: ex_web_def)
qed

text \<open>C4: nothing changes without a trace. If an operation leaves the append counter of the audit log
  where it was, every ordinary resource reads the same before and after it.\<close>

theorem unaudited_operation_changes_nothing:
  assumes "store_inv s" "op_ok p s" "seq (apply_op env p s) = seq s"
    "map_of (byID s) i = Some r" "rKind r \<noteq> KindAPIKey"
  shows "map_option view (map_of (byID (apply_op env p s)) i) = Some (view r)"
proof (cases p)
  case (OpUpdate io j fn o')
  then show ?thesis using assms seq_unchanged_update [of s fn env io j o' i r] by (simp add: store_inv_def)
next
  case (OpCreate io ro o')
  then show ?thesis using assms
    by (auto simp: CreateResource_def Let_def split: option.splits if_splits)
qed (use assms in \<open>auto simp: UpdateStatus_def DeleteResource_def AppendAudit_def Let_def split: option.splits\<close>)

theorem unaudited_operation_changes_nothing_witness:
  "map_option view (map_of (byID (apply_op ex_env (OpDelete (ex_io 2) ''r-99'' ex_opts) ex_store)) ''r-01'') = Some (view ex_web)"
  by (rule unaudited_operation_changes_nothing [OF ex_store_inv])
    (simp_all add: ex_store_eq DeleteResource_def ex_web_def KindAPIKey_def)

text \<open>C5: the audit ring keeps exactly the newest \<open>auditCap\<close> entries in order. Reading a store to which
  the entries \<open>es\<close> were appended returns the requested page of the matching entries among
  the last \<open>cap\<close> of them, newest first, and the eviction counter is the number of entries dropped.\<close>

theorem audit_log_bounded:
  assumes "0 < cap" "cursor_offset (qCursor q) = Some n"
  shows "let s = fold appendAuditRingLocked es (NewStore [Some (WithAuditCap cap)])
     in ListAudit q s =
          Inr (take (audit_limit (qLimit q)) (drop n (filter (audit_match q) (rev (last_n (nat cap) es))))) \<and>
        AuditEvicted s = word_of_nat (length es - nat cap)"
proof -
  note c = NewStore_cap [OF assms(1)]
  then have "audit_log (fold appendAuditRingLocked es (NewStore [Some (WithAuditCap cap)])) = last_n (nat cap) es"
    using audit_log_fold [of "NewStore [Some (WithAuditCap cap)]" es] by simp
  then show ?thesis
    using c evicted_fold [of "NewStore [Some (WithAuditCap cap)]" es]
    by (simp add: Let_def ListAudit_page [OF assms(2)] AuditEvicted_def)
qed

theorem audit_log_bounded_witness:
  "ListAudit \<lparr>qOrg = ''acme'', qKind = [], qLimit = 10, qCursor = []\<rparr>
     (fold appendAuditRingLocked (map ex_entry [1, 2, 3]) (NewStore [Some (WithAuditCap 2)])) =
   Inr (map ex_entry [3, 2])"
proof -
  have "audit_match \<lparr>qOrg = ''acme'', qKind = [], qLimit = 10, qCursor = []\<rparr> (ex_entry n)" for n
    by (simp add: audit_match_def ex_entry_def HasPrefix_def)
  then show ?thesis
    using audit_log_bounded [of 2 "\<lparr>qOrg = ''acme'', qKind = [], qLimit = 10, qCursor = []\<rparr>" 0 "map ex_entry [1, 2, 3]"]
    by (simp add: Let_def cursor_offset_def last_n_def audit_limit_def maxAuditQueryLimit_def)
qed

text \<open>C6: a client that follows the cursors of \<open>ListResources\<close> to the end, with any filter and page
  size, terminates and has read every matching resource exactly once, in order of creation time and
  ID, independently of the order in which Go iterates over the map.\<close>

theorem list_walk_complete:
  assumes "store_inv s" "Count s \<le> 2147483647"
  shows "\<exists>xs. page_loop stop_on_last (\<lambda>c. ListResources (q\<lparr>oCursor := c\<rparr>) s) (\<lambda>r acc. acc @ [r]) [] [] = Some (Inr xs) \<and>
     sorted (map list_key xs) \<and> distinct (map rID xs) \<and>
     (\<forall>r. r \<in> set xs \<longleftrightarrow> list_match q r \<and> GetResource (rID r) s = Inr r) \<and>
     (\<forall>s'. mset (byID s') = mset (byID s) \<longrightarrow> sorted_matches q s' = xs)"
proof -
  have i: "index_inv s" using assms(1) by (simp add: store_inv_def)
  have "length (sorted_matches q s) \<le> Count s"
    by (simp add: sorted_matches_def Count_def le_trans [OF length_filter_le])
  then have f: "mem_fits (s, q)" using assms(2) by (simp add: mem_fits_def)
  have snoc: "fold (\<lambda>r acc. acc @ [r]) ys zs = zs @ ys" for ys zs :: "resource list"
    by (induction ys arbitrary: zs) auto
  have "page_loop stop_on_last (\<lambda>c. ListResources (q\<lparr>oCursor := c\<rparr>) s) (\<lambda>r acc. acc @ [r]) [] [] =
      Some (Inr (sorted_matches q s))"
    using mem.walk_all [OF f good_stops(1), of "\<lambda>r acc. acc @ [r]" "[]"]
    by (simp add: mem_list_def mem_contents_def snoc DeepCopy_sorted_matches [OF i])
  moreover have "r \<in> set (sorted_matches q s) \<longleftrightarrow> list_match q r \<and> GetResource (rID r) s = Inr r" for r
    by (rule sorted_matches_get [OF i])
  ultimately show ?thesis
    using sorted_matches_order_irrelevant [OF i] sorted_matches_sorted distinct_sorted_matches [OF i] by blast
qed

theorem list_walk_complete_witness:
  "\<exists>xs. page_loop stop_on_last
      (\<lambda>c. ListResources (\<lparr>oOrg = ''acme'', oProject = [], oEnv = [], oKind = [], oLimit = 1, oCursor = []\<rparr>\<lparr>oCursor := c\<rparr>) ex_store)
      (\<lambda>r acc. acc @ [r]) [] [] = Some (Inr xs) \<and> ex_web \<in> set xs"
proof -
  let ?q = "\<lparr>oOrg = ''acme'', oProject = [], oEnv = [], oKind = [], oLimit = 1, oCursor = []\<rparr>"
  have "Count ex_store \<le> 2147483647" by (simp add: Count_def ex_store_eq)
  from list_walk_complete [OF ex_store_inv this, of ?q] obtain xs where
    "page_loop stop_on_last (\<lambda>c. ListResources (?q\<lparr>oCursor := c\<rparr>) ex_store) (\<lambda>r acc. acc @ [r]) [] [] = Some (Inr xs)"
    "ex_web \<in> set xs \<longleftrightarrow> list_match ?q ex_web \<and> GetResource (rID ex_web) ex_store = Inr ex_web" by blast
  moreover have "list_match ?q ex_web" "GetResource (rID ex_web) ex_store = Inr ex_web"
    using ex_wf(3) by (simp_all add: list_match_def ex_web_def GetResource_def ex_store_eq)
  ultimately show ?thesis by blast
qed

text \<open>C7: creating a valid resource at a free address succeeds with generation 1, observed
  generation 0 and, unless the caller supplied one, phase \<open>Pending\<close>; it is then found by ID and by
  address with the spec and labels it was given, every other resource reads as before, and creating
  the same address again is refused with \<open>ErrAlreadyExists\<close> and changes nothing.\<close>

theorem create_then_get:
  assumes "store_inv s" "wf_resource r" "Validate env r = None" "map_of (byLogic s) (LogicalKey r) = None"
    "map_of (byID s) (newID (ioRand io)) = None"
  shows "\<exists>s' c. CreateResource env io (Some r) o' s = (s', Inr c) \<and>
     rID c = newID (ioRand io) \<and> rGeneration c = 1 \<and> sObservedGen (rStatus c) = 0 \<and>
     (sPhase (rStatus r) = [] \<longrightarrow> sPhase (rStatus c) = PhasePending) \<and>
     rSpec c = rSpec r \<and> rLabels c = rLabels r \<and>
     GetResource (rID c) s' = Inr c \<and>
     GetByLogicalKey (rOrg r) (rProject r) (rEnv r) (rKind r) (rName r) s' = Inr c \<and>
     (\<forall>i. i \<noteq> rID c \<longrightarrow> GetResource i s' = GetResource i s) \<and>
     (\<forall>io2 o2. CreateResource env io2 (Some r) o2 s' = (s', Inl ErrAlreadyExists))"
proof -
  obtain c where c: "c = r\<lparr>rID := newID (ioRand io), rGeneration := 1, rCreatedAt := ioNow io, rUpdatedAt := ioNow io,
       rStatus := (rStatus r)\<lparr>sPhase := (if sPhase (rStatus r) = [] then PhasePending else sPhase (rStatus r)),
                              sObservedGen := 0, sUpdatedAt := ioNow io\<rparr>\<rparr>"
    and cr: "CreateResource env io (Some r) o' s =
       (appendAuditLocked io (or_actor ''anonymous'' o') ''created'' c
          (s\<lparr>byID := AList.update (rID c) c (byID s),
             byLogic := AList.update (LogicalKey r) (rID c) (byLogic s)\<rparr>), Inr c)" (is "_ = (?s', _)")
    using create_success [OF assms(2,3,4)] by blast
  have wf: "DeepCopy c = c" using assms(2) c by simp
  have "map_of (byLogic ?s') (LogicalKey r) = Some (rID c)" "map_of (byID ?s') = (map_of (byID s))(rID c \<mapsto> c)"
    by (simp_all add: update_conv')
  moreover from this have "GetByLogicalKey (rOrg r) (rProject r) (rEnv r) (rKind r) (rName r) ?s' = Inr c"
    using wf by (simp add: GetByLogicalKey_def flip: LogicalKey_logical)
  moreover have "CreateResource env io2 (Some r) o2 ?s' = (?s', Inl ErrAlreadyExists)" for io2 o2
    using assms(3) by (simp add: CreateResource_def Let_def)
  ultimately show ?thesis using cr c wf
    by (intro exI [of _ ?s'] exI [of _ c]) (simp add: GetResource_def)
qed

theorem create_then_get_witness:
  "\<exists>s' c. CreateResource ex_env (ex_io 1) (Some (ex_node ''web'' 1)) ex_opts (NewStore []) = (s', Inr c) \<and>
     rID c = ''r-01'' \<and> GetByLogicalKey ''acme'' ''core'' ''prod'' ''Node'' ''web'' s' = Inr c \<and>
     (\<forall>io2 o2. CreateResource ex_env io2 (Some (ex_node ''web'' 1)) o2 s' = (s', Inl ErrAlreadyExists))"
  using create_then_get [OF store_inv_NewStore ex_wf(1) ex_valid(1), of "[]" "ex_io 1" ex_opts] ex_ids(1)
  by (auto simp: NewStore_def Let_def ex_node_def)

text \<open>Deleting a resource removes it from both indexes (it is no longer found by ID or by address),
  leaves every other resource, appends one \<open>deleted\<close> entry to the audit log, and frees its address for
  a new resource; deleting an unknown ID reports \<open>ErrNotFound\<close> and changes nothing.\<close>

theorem delete_removes:
  assumes "store_inv s"
  shows "case map_of (byID s) i of
       None \<Rightarrow> DeleteResource io i o' s = (s, Some ErrNotFound)
     | Some r \<Rightarrow> \<exists>s'. DeleteResource io i o' s = (s', None) \<and> store_inv s' \<and>
         GetResource i s' = Inl ErrNotFound \<and>
         GetByLogicalKey (rOrg r) (rProject r) (rEnv r) (rKind r) (rName r) s' = Inl ErrNotFound \<and>
         (\<forall>j. j \<noteq> i \<longrightarrow> GetResource j s' = GetResource j s) \<and>
         map aAction (audit_log s') = last_n (nat (auditCap s)) (map aAction (audit_log s) @ [''deleted'']) \<and>
         map_of (byLogic s') (LogicalKey r) = None"
proof (cases "map_of (byID s) i")
  case None
  then show ?thesis by (simp add: DeleteResource_def)
next
  case (Some r)
  obtain s' where d: "DeleteResource io i o' s = (s', None)"
    and s': "s' = appendAuditLocked io (or_actor ''anonymous'' o') ''deleted'' r
       (s\<lparr>byID := AList.delete i (byID s), byLogic := AList.delete (LogicalKey r) (byLogic s)\<rparr>)"
    using Some by (simp add: DeleteResource_def)
  have m: "map_of (byID s') = (map_of (byID s))(i := None)" "map_of (byLogic s') (LogicalKey r) = None"
    by (simp_all add: s' delete_conv')
  have "store_inv s'" using delete_inv [OF assms, of io i o'] d by simp
  moreover have "map aAction (audit_log s') = last_n (nat (auditCap s)) (map aAction (audit_log s) @ [''deleted''])"
    using assms by (simp add: s' appendAuditLocked_def audit_log_append store_inv_def last_n_def drop_map [symmetric])
  ultimately show ?thesis using Some d m
    by (simp add: GetResource_def GetByLogicalKey_def flip: LogicalKey_logical)
qed

theorem delete_removes_witness:
  "\<exists>s'. DeleteResource (ex_io 2) ''r-01'' ex_opts ex_store = (s', None) \<and> GetResource ''r-01'' s' = Inl ErrNotFound"
  using delete_removes [OF ex_store_inv, of "ex_io 2" "''r-01''" ex_opts] by (auto simp: ex_store_eq)

text \<open>A lookup by address never dereferences a missing resource, and finds a resource exactly when one
  with these five address parts is stored (parts as URL path segments, without a slash).\<close>

theorem lookup_by_address:
  assumes "store_inv s" "CHR ''/'' \<notin> set org \<union> set project \<union> set e \<union> set kind \<union> set name"
  shows "GetByLogicalKey org project e kind name s \<in> {Inl ErrNotFound} \<union> range Inr \<and>
     (GetByLogicalKey org project e kind name s = Inr r \<longleftrightarrow>
        GetResource (rID r) s = Inr r \<and> rOrg r = org \<and> rProject r = project \<and> rEnv r = e \<and> rKind r = kind \<and> rName r = name)"
proof -
  have i: "index_inv s" using assms(1) by (simp add: store_inv_def)
  have key: "LogicalKey q = logical org project e kind name \<longleftrightarrow>
      rOrg q = org \<and> rProject q = project \<and> rEnv q = e \<and> rKind q = kind \<and> rName q = name"
    if "stored_ok j q" for j q
  proof
    assume "LogicalKey q = logical org project e kind name"
    then have "[rOrg q, rProject q, rEnv q, rKind q, rName q] = [org, project, e, kind, name]"
      using that assms(2) by (intro Join_inject [where d = "CHR ''/''"])
        (auto simp: LogicalKey_def logical_def stored_ok_def addr_ok_def dest: scopeRe_no_slash Kinds_no_slash)
    then show "rOrg q = org \<and> rProject q = project \<and> rEnv q = e \<and> rKind q = kind \<and> rName q = name" by simp
  qed (simp add: LogicalKey_logical)
  show ?thesis
  proof (cases "map_of (byLogic s) (logical org project e kind name)")
    case None
    have "\<not> (GetResource (rID r) s = Inr r \<and> LogicalKey r = logical org project e kind name)"
      using None index_to_logic [OF i, of "rID r" r] by (auto simp: GetResource_iff [OF i])
    then show ?thesis using None key [OF stored_okD [OF i]] by (auto simp: GetByLogicalKey_def GetResource_iff [OF i])
  next
    case (Some j)
    then obtain q where q: "map_of (byID s) j = Some q" "LogicalKey q = logical org project e kind name"
      using logic_to_index [OF i] by blast
    then have ok: "stored_ok j q" using stored_okD [OF i] by blast
    then have id: "rID q = j" "DeepCopy q = q" by (auto simp: stored_ok_def)
    have "r = q" if "map_of (byID s) (rID r) = Some r" "LogicalKey r = LogicalKey q"
      using that q index_to_logic [OF i] by (metis option.inject)
    then show ?thesis using Some q id key [OF ok] key [OF stored_okD [OF i], of "rID r" r]
      by (auto simp: GetByLogicalKey_def GetResource_iff [OF i] simp del: map_of_eq_Some_iff)
  qed
qed

text \<open>The counters behind the resource gauge are exact: for every kind and phase the tally is
  the number of stored resources of that kind in that phase.\<close>

theorem CountByKindPhase_exact:
  "(case map_of (case map_of (CountByKindPhase s) k of None \<Rightarrow> [] | Some m \<Rightarrow> m) p of None \<Rightarrow> 0 | Some n \<Rightarrow> n) =
     int (length (filter (\<lambda>(i, r). rKind r = k \<and> sPhase (rStatus r) = p) (byID s)))"
  unfolding CountByKindPhase_def count_fold by (simp add: filter_map o_def case_prod_unfold)


theorem lookup_by_address_witness:
  "GetByLogicalKey ''acme'' ''core'' ''prod'' ''Node'' ''web'' ex_store = Inr ex_web"
  using lookup_by_address [OF ex_store_inv, of "''acme''" "''core''" "''prod''" "''Node''" "''web''" ex_web] ex_wf(3)
  by (simp add: GetResource_def ex_store_eq) (simp add: ex_web_def)

end
