(* ===== verification/Sha256.thy ===== *)
theory Sha256
  imports Prelude
begin

unbundle bit_operations_syntax

text \<open>
  \<open>crypto/sha256\<close> and \<open>crypto/hmac\<close> of Go's standard library, which the sources use to derive the
  digest of a bearer token and to sign webhook bodies: FIPS 180-4 on 32-bit words and RFC 2104.
\<close>

section \<open>SHA-256\<close>

definition rotr32 :: "nat \<Rightarrow> 32 word \<Rightarrow> 32 word" where
  "rotr32 n w = drop_bit n w OR push_bit (32 - n) w"

text \<open>The constants, as the standard defines them: the first 32 bits of the fractional parts of the cube roots
  of the first 64 primes, and of the square roots of the first eight.\<close>

definition int_root :: "nat \<Rightarrow> nat \<Rightarrow> nat" where
  "int_root k n = fold (\<lambda>b r. if (r + 2 ^ b) ^ k \<le> n then r + 2 ^ b else r) (rev [0..<40]) 0"

definition small_primes :: "nat list" where
  "small_primes = filter (\<lambda>p. list_all (\<lambda>d. p mod d \<noteq> 0) [2..<p]) [2..<312]"

definition sha_K :: "32 word list" where
  "sha_K = map (\<lambda>p. of_nat (int_root 3 (p * 2 ^ 96))) small_primes"

definition sha_H0 :: "32 word list" where
  "sha_H0 = map (\<lambda>p. of_nat (int_root 2 (p * 2 ^ 64))) [2, 3, 5, 7, 11, 13, 17, 19]"

definition be_bytes :: "nat \<Rightarrow> nat \<Rightarrow> nat list" where
  "be_bytes n v = map (\<lambda>k. v div 256 ^ (n - 1 - k) mod 256) [0..<n]"

text \<open>Padding: a one bit, zeros up to 56 mod 64 bytes, the bit length as 8 bytes.\<close>

definition sha_pad :: "nat list \<Rightarrow> nat list" where
  "sha_pad m = m @ [128] @ replicate ((119 - length m mod 64) mod 64) 0 @ be_bytes 8 (8 * length m)"

fun words_of :: "nat list \<Rightarrow> 32 word list" where
  "words_of (a # b # c # d # bs) =
     word_of_nat (((a * 256 + b) * 256 + c) * 256 + d) # words_of bs"
| "words_of _ = []"

text \<open>The message schedule, newest word first, extended from the 16 words of a block to 64.\<close>

definition sched_step :: "32 word list \<Rightarrow> 32 word list" where
  "sched_step ws =
     (let w15 = ws ! 14; w2 = ws ! 1;
          s0 = rotr32 7 w15 XOR rotr32 18 w15 XOR drop_bit 3 w15;
          s1 = rotr32 17 w2 XOR rotr32 19 w2 XOR drop_bit 10 w2
      in (ws ! 15 + s0 + ws ! 6 + s1) # ws)"

definition schedule :: "32 word list \<Rightarrow> 32 word list" where
  "schedule blk = rev ((sched_step ^^ 48) (rev blk))"

fun sha_round :: "32 word \<times> 32 word \<Rightarrow> 32 word list \<Rightarrow> 32 word list" where
  "sha_round (k, w) [a, b, c, d, e, f, g, h] =
     (let s1 = rotr32 6 e XOR rotr32 11 e XOR rotr32 25 e;
          ch = (e AND f) XOR (NOT e AND g);
          t1 = h + s1 + ch + k + w;
          s0 = rotr32 2 a XOR rotr32 13 a XOR rotr32 22 a;
          maj = (a AND b) XOR (a AND c) XOR (b AND c)
      in [t1 + s0 + maj, a, b, c, d + t1, e, f, g])"
| "sha_round _ st = st"

definition sha_block :: "32 word list \<Rightarrow> 32 word list \<Rightarrow> 32 word list" where
  "sha_block blk st = map2 (+) st (fold sha_round (zip sha_K (schedule blk)) st)"

fun blocks_of :: "nat \<Rightarrow> 'a list \<Rightarrow> 'a list list" where
  "blocks_of 0 xs = []"
| "blocks_of (Suc n) xs = take 16 xs # blocks_of n (drop 16 xs)"

definition sha_words :: "string \<Rightarrow> 32 word list" where
  "sha_words s =
     (let ws = words_of (sha_pad (map byte s)) in fold sha_block (blocks_of (length ws div 16) ws) sha_H0)"

definition Sum256 :: "string \<Rightarrow> string" where
  "Sum256 s = concat (map (\<lambda>w. map char_of (be_bytes 4 (unat w))) (sha_words s))"

section \<open>HMAC-SHA256\<close>

definition hmac_key :: "string \<Rightarrow> string" where
  "hmac_key k = (let k' = (if length k > 64 then Sum256 k else k) in k' @ replicate (64 - length k') (char_of (0 :: nat)))"

definition xor_pad :: "nat \<Rightarrow> string \<Rightarrow> string" where
  "xor_pad p k = map (\<lambda>c. char_of (byte c XOR p)) k"

definition hmac_sha256 :: "string \<Rightarrow> string \<Rightarrow> string" where
  "hmac_sha256 key m = Sum256 (xor_pad 92 (hmac_key key) @ Sum256 (xor_pad 54 (hmac_key key) @ m))"

section \<open>Lemmas\<close>

lemma length_be_bytes [simp]: "length (be_bytes n v) = n"
  by (simp add: be_bytes_def)

lemma length_sha_round [simp]: "length (sha_round kw st) = length st"
  by (cases "(kw, st)" rule: sha_round.cases) (auto simp: Let_def)

lemma length_rounds [simp]: "length (fold sha_round kws st) = length st"
  by (induction kws arbitrary: st) auto

lemma length_sha_block [simp]: "length (sha_block blk st) = length st"
  by (simp add: sha_block_def)

lemma length_blocks [simp]: "length (fold sha_block bs st) = length st"
  by (induction bs arbitrary: st) auto

lemma length_sha_words [simp]: "length (sha_words s) = 8"
  by (simp add: sha_words_def Let_def sha_H0_def)

lemma length_Sum256 [simp]: "length (Sum256 s) = 32"
proof -
  have "length (concat (map (\<lambda>w. map char_of (be_bytes 4 (unat (w :: 32 word)))) ws)) = 4 * length ws" for ws
    by (induction ws) auto
  then show ?thesis by (simp add: Sum256_def)
qed

end
