(* ===== verification/Authz.thy ===== *)
theory Authz
  imports Store_Laws Sha256
begin

text \<open>
  Role-based access control, \<^verbatim>\<open>internal/authz/authz.go\<close>: the digest of a token, the cache of managed
  keys that \<open>Refresh\<close> rebuilds from the store, and the decisions \<open>Authenticate\<close> and \<open>Authorize\<close>
  take on it. The lemmas relate the cache to the store it was read from.
\<close>

section \<open>Definitions\<close>

record decision =
  dAllowed :: bool
  dReason :: string

definition allow :: "string \<Rightarrow> decision" where
  "allow reason = \<lparr>dAllowed = True, dReason = reason\<rparr>"

definition deny :: "string \<Rightarrow> decision" where
  "deny reason = \<lparr>dAllowed = False, dReason = reason\<rparr>"

record key_info =
  iID :: string
  iPrincipal :: string
  iRoles :: "string list"
  iScopes :: "string list"
  iActive :: bool

record hash_entry =
  hHash :: string
  hInfo :: key_info

text \<open>The mutable part of the authoriser. Refresh builds both caches aside and swaps them in under
  the lock, so a reader sees one refresh's caches.\<close>

record authorizer =
  byHash :: "hash_entry list"
  byPrincipal :: "(string, key_info) gomap"

definition RefreshInterval :: duration where
  "RefreshInterval = 30 * second"

definition KeyEventPattern :: string where
  "KeyEventPattern = ''ryvex.resource.ryvex.>''"

definition NewAuthorizer :: authorizer where
  "NewAuthorizer = \<lparr>byHash = [], byPrincipal = []\<rparr>"

definition HashToken :: "string \<Rightarrow> string" where
  "HashToken token = EncodeToHex (Sum256 token)"

text \<open>One iteration of the inner loop of \<open>Refresh\<close>; a key that does not parse is skipped.\<close>

definition refresh_one :: "resource \<Rightarrow> hash_entry list \<times> (string, key_info) gomap \<Rightarrow> hash_entry list \<times> (string, key_info) gomap" where
  "refresh_one res acc =
     (case ParseAPIKeySpec (rSpec res) of
        Inl e \<Rightarrow> acc
      | Inr spec \<Rightarrow>
          let info = \<lparr>iID = rID res, iPrincipal = kPrincipal spec, iRoles = kRoles spec,
                      iScopes = kScopes spec, iActive = kActive spec\<rparr>;
              (hashes, principals) = acc
          in (hashes @ [\<lparr>hHash = kKeyHash spec, hInfo = info\<rparr>],
              case map_of principals (kPrincipal spec) of
                Some i \<Rightarrow> principals
              | None \<Rightarrow> AList.update (kPrincipal spec) info principals))"

definition key_list_options :: list_options where
  "key_list_options =
     \<lparr>oOrg = ReservedOrg, oProject = [], oEnv = [], oKind = KindAPIKey, oLimit = 200, oCursor = []\<rparr>"

text \<open>\<open>None\<close> would be a listing whose cursors never end.\<close>

definition Refresh :: "store \<Rightarrow> authorizer \<Rightarrow> (authorizer \<times> go_error option) option" where
  "Refresh s a =
     (case page_loop stop_on_last_or_empty (\<lambda>c. ListResources (key_list_options\<lparr>oCursor := c\<rparr>) s)
             refresh_one [] ([], []) of
        None \<Rightarrow> None
      | Some (Inl e) \<Rightarrow> Some (a, Some e)
      | Some (Inr (hashes, principals)) \<Rightarrow> Some (a\<lparr>byHash := hashes, byPrincipal := principals\<rparr>, None))"

text \<open>The scan of \<open>Authenticate\<close>: the first entry with the digest decides, also when it is disabled.\<close>

fun find_hash :: "string \<Rightarrow> hash_entry list \<Rightarrow> string option" where
  "find_hash digest [] = None"
| "find_hash digest (e # es) =
     (if hHash e = digest then (if iActive (hInfo e) then Some (iPrincipal (hInfo e)) else None)
      else find_hash digest es)"

definition Authenticate :: "authorizer \<Rightarrow> string \<Rightarrow> string option" where
  "Authenticate a token = (if token = [] then None else find_hash (HashToken token) (byHash a))"

definition Lookup :: "authorizer \<Rightarrow> string \<Rightarrow> key_info option" where
  "Lookup a p = map_of (byPrincipal a) p"

definition IsReservedOrg :: "string \<Rightarrow> bool" where
  "IsReservedOrg org \<longleftrightarrow> org = ReservedOrg"

definition ScopeMatches :: "string \<Rightarrow> string \<Rightarrow> string \<Rightarrow> bool" where
  "ScopeMatches scope org project =
     (case CutPrefix scope ''org/'' of
        None \<Rightarrow> False
      | Some rest \<Rightarrow>
          (case Cut rest ''/project/'' of
             Some (o', p) \<Rightarrow> o' = org \<and> project \<noteq> [] \<and> p = project
           | None \<Rightarrow> rest = org))"

definition HasRole :: "string list \<Rightarrow> string \<Rightarrow> bool" where
  "HasRole roles role \<longleftrightarrow> list_ex (\<lambda>r. r = role) roles"

definition scopeTarget :: "string \<Rightarrow> string \<Rightarrow> string" where
  "scopeTarget org project =
     (if project = [] then ''org/'' @ org else ''org/'' @ org @ ''/project/'' @ project)"

definition Authorize :: "authorizer \<Rightarrow> string \<Rightarrow> string \<Rightarrow> string \<Rightarrow> bool \<Rightarrow> decision" where
  "Authorize a p org project write =
     (case map_of (byPrincipal a) p of
        None \<Rightarrow> deny ''unknown principal''
      | Some info \<Rightarrow>
          if \<not> iActive info then deny ''key is disabled''
          else if HasRole (iRoles info) RoleAdmin then allow ''admin role''
          else if write \<and> IsReservedOrg org then
            deny (''org '' @ org @ '' is reserved for managed keys; writes require the admin role'')
          else if write \<and> HasRole (iRoles info) RoleViewer then deny ''viewer role is read-only''
          else case find (\<lambda>scope. ScopeMatches scope org project) (iScopes info) of
            Some scope \<Rightarrow>
              (if write then allow (''write granted by scope '' @ scope)
               else allow (''read granted by scope '' @ scope))
          | None \<Rightarrow> deny (''no scope covers '' @ scopeTarget org project))"

text \<open>\<open>AuditDenied\<close>: the entry of a refused request, under the target organisation.\<close>

definition AuditDenied ::
    "io \<Rightarrow> string \<Rightarrow> string \<Rightarrow> string \<Rightarrow> string \<Rightarrow> string \<Rightarrow> string \<Rightarrow> store \<Rightarrow> store" where
  "AuditDenied io actor org project meth path reason s =
     fst (AppendAudit io
       \<lparr>aID = [], aTime = 0, aActor = actor, aAction = ''authz_denied'', aResourceID = [], aKind = [],
        aLogicalKey = (if org \<noteq> [] then org @ ''/'' @ project else []), aGeneration = 0,
        aReason = meth @ '' '' @ path @ '': '' @ reason\<rparr> s)"

section \<open>Specification\<close>

text \<open>The managed keys a store holds, as authorisation sees them.\<close>

definition key_of :: "resource \<Rightarrow> key_info option" where
  "key_of r =
     (if rKind r \<noteq> KindAPIKey then None
      else case ParseAPIKeySpec (rSpec r) of
        Inl e \<Rightarrow> None
      | Inr spec \<Rightarrow> Some \<lparr>iID = rID r, iPrincipal = kPrincipal spec, iRoles = kRoles spec,
                        iScopes = kScopes spec, iActive = kActive spec\<rparr>)"

definition stored_key :: "store \<Rightarrow> key_info \<Rightarrow> string \<Rightarrow> bool" where
  "stored_key s info h \<longleftrightarrow>
     (\<exists>r spec. GetResource (rID r) s = Inr r \<and> key_of r = Some info \<and>
        ParseAPIKeySpec (rSpec r) = Inr spec \<and> kKeyHash spec = h)"

text \<open>The access rule of the package documentation.\<close>

definition may_access :: "key_info \<Rightarrow> string \<Rightarrow> string \<Rightarrow> bool \<Rightarrow> bool" where
  "may_access info org project write \<longleftrightarrow>
     iActive info \<and>
     (RoleAdmin \<in> set (iRoles info) \<or>
      (write \<longrightarrow> org \<noteq> ReservedOrg \<and> RoleViewer \<notin> set (iRoles info)) \<and>
      (\<exists>scope \<in> set (iScopes info). ScopeMatches scope org project))"

end
