(* ===== verification/Authz_Laws.thy ===== *)
theory Authz_Laws
  imports Authz
begin

text \<open>
  Laws of access control: digests and key resources are well formed, a refresh leaves exactly the stored
  keys in the caches, and the decisions on the caches are the access rule on the store.
\<close>

section \<open>ASCII and digests\<close>

definition ascii :: "string \<Rightarrow> bool" where
  "ascii s \<longleftrightarrow> list_all (\<lambda>c. byte c < 128) s"

lemma ascii_append [simp]: "ascii (s @ t) \<longleftrightarrow> ascii s \<and> ascii t"
  by (simp add: ascii_def)

lemma ascii_utf8: "ascii s \<Longrightarrow> valid_utf8 s"
  by (induction s) (auto simp: ascii_def utf8_next.simps)

lemma scopeRe_ascii: "scopeRe s \<Longrightarrow> ascii s"
  unfolding scopeRe_def ascii_def list_all_iff
  by (auto dest!: bounded_token_set simp: scope_edge_def is_lower_def is_digit_def byte_def)

lemma keyHashRe_ascii: "keyHashRe h \<Longrightarrow> ascii h"
  by (auto simp: keyHashRe_def ascii_def list_all_iff is_lower_hex_def is_digit_def)

lemma ValidScope_ascii: "ValidScope s admin \<Longrightarrow> ascii s"
proof -
  assume v: "ValidScope s admin"
  have "ascii ''org/''" "ascii ''/project/''" "ascii wildcardScope"
    by (simp_all add: ascii_def byte_def wildcardScope_def)
  then show "ascii s" using v by (auto simp only: ValidScope_iff ascii_append dest: scopeRe_ascii)
qed

lemma Roles_ascii: "r \<in> set Roles \<Longrightarrow> ascii r"
  by (auto simp: Roles_def role_defs ascii_def byte_def)

lemma hex_digit_lower: "n < 16 \<Longrightarrow> is_lower_hex (hex_digit n)"
  by (auto simp: hex_digit_def is_lower_hex_def is_digit_def byte_def of_char_of)

lemma EncodeToHex_lower: "list_all is_lower_hex (EncodeToHex s)"
proof (induction s)
  case (Cons c s)
  have "byte c div 16 < 16" using byte_less [of c] by linarith
  then show ?case using Cons by (simp add: EncodeToHex_def hex_digit_lower)
qed (simp add: EncodeToHex_def)

lemma length_EncodeToHex: "length (EncodeToHex s) = 2 * length s"
  by (induction s) (auto simp: EncodeToHex_def)

lemma HashToken_re [simp]: "keyHashRe (HashToken t)"
  by (simp add: HashToken_def keyHashRe_def EncodeToHex_lower length_EncodeToHex)

text \<open>A key resource built from valid parts is well formed and passes validation.\<close>

lemma NewAPIKeyResource_wf:
  assumes "wf_key_spec \<lparr>kPrincipal = p, kRoles = roles, kKeyHash = h, kScopes = scopes, kActive = True\<rparr>"
  shows "wf_resource (NewAPIKeyResource p roles scopes h)"
proof -
  have "valid_utf8 p" "valid_utf8 h" "list_all valid_utf8 roles" "list_all valid_utf8 scopes"
    using assms by (auto simp: wf_key_spec_def list_all_iff
        intro!: ascii_utf8 dest: scopeRe_ascii keyHashRe_ascii ValidScope_ascii Roles_ascii)
  moreover have "valid_utf8 ''active''" "valid_utf8 ''key_hash''" "valid_utf8 ''principal''" "valid_utf8 ''roles''" "valid_utf8 ''scopes''"
    by (rule ascii_utf8, simp add: ascii_def byte_def)+
  moreover have "sorted_keys [(''active'', a :: json), (''key_hash'', b), (''principal'', c), (''roles'', d), (''scopes'', e)]" for a b c d e
    by (simp add: sorted_keys_def)
  ultimately show ?thesis
    by (simp add: wf_resource_def NewAPIKeyResource_def wf_spec_def wf_labels_def anySlice_def list_all_iff
        del: valid_utf8.simps)
qed

lemma NewAPIKeyResource_valid:
  assumes "wf_key_spec \<lparr>kPrincipal = p, kRoles = roles, kKeyHash = h, kScopes = scopes, kActive = True\<rparr>"
  shows "Validate env (NewAPIKeyResource p roles scopes h) = None"
  using ParseAPIKeySpec_New [OF assms] assms
  by (auto simp: Validate_None validateAPIKey_None wf_key_spec_def KindAPIKey_Kinds) (simp_all add: NewAPIKeyResource_def KindAPIKey_Kinds)

section \<open>Decisions\<close>

lemma HasRole_iff [simp]: "HasRole roles role \<longleftrightarrow> role \<in> set roles"
  by (auto simp: HasRole_def list_ex_iff)

lemma dAllowed_simps [simp]: "dAllowed (allow r)" "\<not> dAllowed (deny r)"
  by (simp_all add: allow_def deny_def)

lemma Authorize_iff:
  "dAllowed (Authorize a p org project write) \<longleftrightarrow>
     (\<exists>info. Lookup a p = Some info \<and> may_access info org project write)"
  by (auto simp: Authorize_def Lookup_def may_access_def IsReservedOrg_def find_None_iff find_Some_iff
      split: option.splits)

lemma find_hash_Some:
  "find_hash d es = Some p \<Longrightarrow> \<exists>e \<in> set es. hHash e = d \<and> iActive (hInfo e) \<and> iPrincipal (hInfo e) = p"
  by (induction es) (auto split: if_splits)

lemma find_hash_unique:
  assumes "e \<in> set es" "hHash e = d" "iActive (hInfo e)" "\<forall>e' \<in> set es. hHash e' = d \<longrightarrow> e' = e"
  shows "find_hash d es = Some (iPrincipal (hInfo e))"
  using assms(1,4)
proof (induction es)
  case (Cons x xs)
  show ?case
  proof (cases "hHash x = d")
    case True
    then have "x = e" using bspec [OF Cons.prems(2), of x] by simp
    then show ?thesis using True assms(3) by simp
  next
    case False
    then have "e \<in> set xs" using Cons.prems(1) assms(2) by auto
    then show ?thesis using False Cons.IH Cons.prems(2) by simp
  qed
qed simp

section \<open>The cache\<close>

definition info_of :: "resource \<Rightarrow> key_info" where
  "info_of r = (case ParseAPIKeySpec (rSpec r) of Inr spec \<Rightarrow>
     \<lparr>iID = rID r, iPrincipal = kPrincipal spec, iRoles = kRoles spec, iScopes = kScopes spec, iActive = kActive spec\<rparr>)"

definition entry_of :: "resource \<Rightarrow> hash_entry" where
  "entry_of r = (case ParseAPIKeySpec (rSpec r) of Inr spec \<Rightarrow> \<lparr>hHash = kKeyHash spec, hInfo = info_of r\<rparr>)"

lemma refresh_one_ok:
  assumes "\<exists>spec. ParseAPIKeySpec (rSpec r) = Inr spec"
  shows "refresh_one r (hs, ps) = (hs @ [entry_of r],
      case map_of ps (iPrincipal (info_of r)) of Some i \<Rightarrow> ps | None \<Rightarrow> AList.update (iPrincipal (info_of r)) (info_of r) ps)"
  using assms by (auto simp: refresh_one_def entry_of_def info_of_def Let_def split: option.split)

lemma fold_refresh_one:
  assumes "\<forall>r \<in> set rs. \<exists>spec. ParseAPIKeySpec (rSpec r) = Inr spec"
  shows "fst (fold refresh_one rs (hs, ps)) = hs @ map entry_of rs"
    and "map_of (snd (fold refresh_one rs (hs, ps))) p =
      (case map_of ps p of Some i \<Rightarrow> Some i | None \<Rightarrow> map_of (map (\<lambda>r. (iPrincipal (info_of r), info_of r)) rs) p)"
  using assms
proof (induction rs arbitrary: hs ps)
  case (Cons r rs)
  { case 1 then show ?case using Cons.IH refresh_one_ok [of r hs ps] by simp }
  { case 2 then show ?case using Cons.IH refresh_one_ok [of r hs ps] by (auto split: option.splits) }
qed (auto split: option.splits)

lemma stored_api_key:
  assumes "index_inv s" "GetResource (rID r) s = Inr r" "rKind r = KindAPIKey"
  obtains spec where "ParseAPIKeySpec (rSpec r) = Inr spec" "kPrincipal spec = rName r"
    "LogicalKey r = Join ''/'' [ReservedOrg, ReservedProject, ReservedEnv, KindAPIKey, rName r]" "rOrg r = ReservedOrg"
proof -
  have "stored_ok (rID r) r" using assms stored_okD by (auto simp: GetResource_iff)
  then have v: "validateAPIKey r = None" using assms(3) by (simp add: stored_ok_def)
  then obtain spec where "ParseAPIKeySpec (rSpec r) = Inr spec" "kPrincipal spec = rName r"
    by (auto simp: validateAPIKey_None)
  moreover have "LogicalKey r = Join ''/'' [ReservedOrg, ReservedProject, ReservedEnv, KindAPIKey, rName r]" "rOrg r = ReservedOrg"
    using v assms(3) by (auto simp: validateAPIKey_None LogicalKey_def)
  ultimately show ?thesis using that by blast
qed

lemma key_principal_unique:
  assumes "index_inv s" "GetResource (rID r) s = Inr r" "rKind r = KindAPIKey"
    "GetResource (rID q) s = Inr q" "rKind q = KindAPIKey" "iPrincipal (info_of r) = iPrincipal (info_of q)"
  shows "r = q"
proof -
  obtain spec where r: "ParseAPIKeySpec (rSpec r) = Inr spec" "kPrincipal spec = rName r"
    "LogicalKey r = Join ''/'' [ReservedOrg, ReservedProject, ReservedEnv, KindAPIKey, rName r]"
    by (rule stored_api_key [OF assms(1-3)])
  obtain spec' where q: "ParseAPIKeySpec (rSpec q) = Inr spec'" "kPrincipal spec' = rName q"
    "LogicalKey q = Join ''/'' [ReservedOrg, ReservedProject, ReservedEnv, KindAPIKey, rName q]"
    by (rule stored_api_key [OF assms(1,4,5)])
  have "rName r = rName q" using r(1,2) q(1,2) assms(6) by (simp add: info_of_def)
  then have "LogicalKey r = LogicalKey q" using r(3) q(3) by simp
  moreover have "map_of (byLogic s) (LogicalKey r) = Some (rID r)" "map_of (byLogic s) (LogicalKey q) = Some (rID q)"
    using assms(2,4) index_to_logic [OF assms(1)] by (simp_all add: GetResource_iff [OF assms(1)] del: map_of_eq_Some_iff)
  ultimately have "rID r = rID q" by simp
  then have "(Inr r :: go_error + resource) = Inr q" using assms(2,4) by metis
  then show ?thesis by simp
qed

definition keys_in :: "store \<Rightarrow> resource list" where
  "keys_in s = sorted_matches key_list_options s"

lemma keys_in_iff:
  assumes "index_inv s"
  shows "r \<in> set (keys_in s) \<longleftrightarrow> GetResource (rID r) s = Inr r \<and> rKind r = KindAPIKey"
proof -
  have "rOrg r = ReservedOrg" if "GetResource (rID r) s = Inr r" "rKind r = KindAPIKey"
    by (rule stored_api_key [OF assms that])
  then show ?thesis
    unfolding keys_in_def sorted_matches_get [OF assms]
    by (auto simp: list_match_def key_list_options_def KindAPIKey_def ReservedOrg_def)
qed

lemma keys_parse:
  assumes "index_inv s" "r \<in> set (keys_in s)"
  shows "\<exists>spec. ParseAPIKeySpec (rSpec r) = Inr spec"
  using assms by (auto simp: keys_in_iff elim: stored_api_key)

text \<open>A refresh succeeds and leaves exactly the stored keys in both caches.\<close>

lemma Refresh_result:
  assumes "store_inv s" "length (keys_in s) \<le> 2147483647"
  shows "\<exists>a'. Refresh s a = Some (a', None) \<and> byHash a' = map entry_of (keys_in s) \<and>
     (\<forall>p. Lookup a' p = map_of (map (\<lambda>r. (iPrincipal (info_of r), info_of r)) (keys_in s)) p)"
proof -
  have i: "index_inv s" using assms(1) by (simp add: store_inv_def)
  have "mem_fits (s, key_list_options)" using assms(2) by (simp add: mem_fits_def keys_in_def)
  from mem.walk_all [OF this good_stops(2), of refresh_one "([], [])"]
  have w: "page_loop stop_on_last_or_empty (\<lambda>c. ListResources (key_list_options\<lparr>oCursor := c\<rparr>) s) refresh_one [] ([], []) =
      Some (Inr (fold refresh_one (keys_in s) ([], [])))"
    by (simp add: mem_list_def mem_contents_def keys_in_def DeepCopy_sorted_matches [OF i])
  have "\<forall>r \<in> set (keys_in s). \<exists>spec. ParseAPIKeySpec (rSpec r) = Inr spec" using keys_parse [OF i] by blast
  note f = fold_refresh_one [OF this, of "[]" "[]"]
  then show ?thesis
    by (auto simp: Refresh_def w Lookup_def split: prod.splits)
qed

lemma stored_key_iff:
  assumes "index_inv s"
  shows "stored_key s info h \<longleftrightarrow> (\<exists>r \<in> set (keys_in s). entry_of r = \<lparr>hHash = h, hInfo = info\<rparr>)"
proof -
  have "key_of r = Some info \<and> ParseAPIKeySpec (rSpec r) = Inr spec \<and> kKeyHash spec = h \<longleftrightarrow>
      rKind r = KindAPIKey \<and> ParseAPIKeySpec (rSpec r) = Inr spec \<and> entry_of r = \<lparr>hHash = h, hInfo = info\<rparr>" for r spec
    by (auto simp: key_of_def entry_of_def info_of_def)
  then show ?thesis
    unfolding stored_key_def Bex_def keys_in_iff [OF assms] using keys_parse [OF assms] keys_in_iff [OF assms]
    by blast
qed

lemma stored_key_principal_unique:
  assumes "index_inv s" "stored_key s i1 h1" "stored_key s i2 h2" "iPrincipal i1 = iPrincipal i2"
  shows "i1 = i2 \<and> h1 = h2"
proof -
  obtain r q where r: "r \<in> set (keys_in s)" "entry_of r = \<lparr>hHash = h1, hInfo = i1\<rparr>"
    and q: "q \<in> set (keys_in s)" "entry_of q = \<lparr>hHash = h2, hInfo = i2\<rparr>"
    using assms by (auto simp: stored_key_iff)
  have "info_of r = i1" "info_of q = i2"
    using r q keys_parse [OF assms(1)] by (fastforce simp: entry_of_def)+
  then have "r = q" using assms(1,4) r(1) q(1) by (intro key_principal_unique) (auto simp: keys_in_iff)
  then show ?thesis using r q by simp
qed

lemma hash_entry_eta: "\<lparr>hHash = hHash e, hInfo = hInfo e\<rparr> = (e :: hash_entry)"
  by (cases e) simp

text \<open>The refreshed caches hold exactly the stored keys.\<close>

lemma Refresh_caches:
  assumes "store_inv s" "length (keys_in s) \<le> 2147483647"
  obtains a' where "Refresh s a = Some (a', None)"
    "\<And>e. e \<in> set (byHash a') \<longleftrightarrow> stored_key s (hInfo e) (hHash e)"
    "\<And>p info. Lookup a' p = Some info \<longleftrightarrow> iPrincipal info = p \<and> (\<exists>h. stored_key s info h)"
proof -
  have i: "index_inv s" using assms(1) by (simp add: store_inv_def)
  obtain a' where a': "Refresh s a = Some (a', None)" "byHash a' = map entry_of (keys_in s)"
    "\<And>p. Lookup a' p = map_of (map (\<lambda>r. (iPrincipal (info_of r), info_of r)) (keys_in s)) p"
    using Refresh_result [OF assms] by blast
  have e: "entry_of r = \<lparr>hHash = h, hInfo = info\<rparr> \<longleftrightarrow> h = hHash (entry_of r) \<and> info = info_of r"
    if "r \<in> set (keys_in s)" for r h info
    using keys_parse [OF i that] by (auto simp: entry_of_def)
  have d: "distinct (map fst (map (\<lambda>r. (iPrincipal (info_of r), info_of r)) (keys_in s)))"
    using distinct_sorted_matches [OF i, of key_list_options] key_principal_unique [OF i]
    by (auto simp: distinct_map inj_on_def keys_in_iff [OF i] keys_in_def [symmetric])
  have "Lookup a' p = Some info \<longleftrightarrow> iPrincipal info = p \<and> (\<exists>h. stored_key s info h)" for p info
  proof -
    have "Lookup a' p = Some info \<longleftrightarrow> (\<exists>r \<in> set (keys_in s). p = iPrincipal (info_of r) \<and> info = info_of r)"
      unfolding a'(3) using d by (auto simp del: map_map)
    also have "\<dots> \<longleftrightarrow> iPrincipal info = p \<and> (\<exists>h. stored_key s info h)"
      unfolding stored_key_iff [OF i] using e by (auto cong: bex_cong)
    finally show ?thesis .
  qed
  moreover have "e \<in> set (byHash a') \<longleftrightarrow> stored_key s (hInfo e) (hHash e)" for e
    unfolding stored_key_iff [OF i] a'(2) hash_entry_eta set_map image_iff by metis
  ultimately show ?thesis using that a'(1) by blast
qed

lemma access_right:
  assumes "store_inv s" "length (keys_in s) \<le> 2147483647" "Refresh s a = Some (a', None)"
    "Authenticate a' token = Some p" "dAllowed (Authorize a' p org project write)"
  shows "\<exists>info. stored_key s info (HashToken token) \<and> iPrincipal info = p \<and> may_access info org project write"
proof -
  have i: "index_inv s" using assms(1) by (simp add: store_inv_def)
  have h: "\<And>e. e \<in> set (byHash a') \<longleftrightarrow> stored_key s (hInfo e) (hHash e)"
    and l: "\<And>p info. Lookup a' p = Some info \<longleftrightarrow> iPrincipal info = p \<and> (\<exists>h. stored_key s info h)"
    by (rule Refresh_caches [OF assms(1,2), of a], use assms(3) in simp)+
  obtain e where e: "e \<in> set (byHash a')" "hHash e = HashToken token" "iPrincipal (hInfo e) = p"
    using assms(4) by (auto simp: Authenticate_def split: if_splits dest!: find_hash_Some)
  then have e': "stored_key s (hInfo e) (HashToken token)"
    using h by simp
  obtain info where "Lookup a' p = Some info" "may_access info org project write"
    using assms(5) by (auto simp: Authorize_iff)
  then have "hInfo e = info" "may_access info org project write"
    using l stored_key_principal_unique [OF i e'] e(3) by auto
  then show ?thesis using e' e(3) by blast
qed

lemma decision_exact:
  assumes "store_inv s" "length (keys_in s) \<le> 2147483647" "token \<noteq> []"
    "\<And>i1 i2. stored_key s i1 (HashToken token) \<Longrightarrow> stored_key s i2 (HashToken token) \<Longrightarrow> i1 = i2"
  shows "\<exists>a'. Refresh s a = Some (a', None) \<and>
     ((\<exists>p. Authenticate a' token = Some p \<and> dAllowed (Authorize a' p org project write)) \<longleftrightarrow>
      (\<exists>info. stored_key s info (HashToken token) \<and> may_access info org project write))"
proof -
  have i: "index_inv s" using assms(1) by (simp add: store_inv_def)
  obtain a' where a': "Refresh s a = Some (a', None)" and h: "\<And>e. e \<in> set (byHash a') \<longleftrightarrow> stored_key s (hInfo e) (hHash e)"
    and l: "\<And>p info. Lookup a' p = Some info \<longleftrightarrow> iPrincipal info = p \<and> (\<exists>h. stored_key s info h)"
    by (rule Refresh_caches [OF assms(1,2), of a]) blast
  have "\<exists>p. Authenticate a' token = Some p \<and> dAllowed (Authorize a' p org project write)"
    if k: "stored_key s info (HashToken token)" "may_access info org project write" for info
  proof -
    let ?e = "\<lparr>hHash = HashToken token, hInfo = info\<rparr>"
    have "find_hash (HashToken token) (byHash a') = Some (iPrincipal (hInfo ?e))"
    proof (rule find_hash_unique)
      show "?e \<in> set (byHash a')" using h k(1) by simp
      show "hHash ?e = HashToken token" by simp
      show "iActive (hInfo ?e)" using k(2) by (simp add: may_access_def)
      show "\<forall>e' \<in> set (byHash a'). hHash e' = HashToken token \<longrightarrow> e' = ?e"
      proof (intro ballI impI)
        fix e' assume "e' \<in> set (byHash a')" "hHash e' = HashToken token"
        then have "hInfo e' = info" using h [of e'] assms(4) [OF _ k(1)] by simp
        then show "e' = ?e" using \<open>hHash e' = HashToken token\<close> by simp
      qed
    qed
    moreover have "Lookup a' (iPrincipal info) = Some info" using l k(1) by blast
    ultimately show ?thesis using assms(3) k(2) by (auto simp: Authenticate_def Authorize_iff)
  qed
  then show ?thesis using a' access_right [OF assms(1,2) a'] by blast
qed

end
