(* ===== verification/Authz_Props.thy ===== *)
theory Authz_Props
  imports Samples Authz_Laws
begin

text \<open>Properties of access control, from a bearer token to the stored right it rests on.\<close>

section \<open>A store with one operator key\<close>

definition ex_key :: resource where
  "ex_key = NewAPIKeyResource ''ci'' [RoleOperator] [''org/acme''] (HashToken ''ryk_ci'')"

definition ex_key_store :: store where
  "ex_key_store = fst (CreateResource ex_env (ex_io 3) (Some ex_key) ex_opts (NewStore []))"

definition ex_key_info :: key_info where
  "ex_key_info = \<lparr>iID = ''r-03'', iPrincipal = ''ci'', iRoles = [RoleOperator], iScopes = [''org/acme''], iActive = True\<rparr>"

lemma ex_key_spec_wf:
  "wf_key_spec \<lparr>kPrincipal = ''ci'', kRoles = [RoleOperator], kKeyHash = HashToken ''ryk_ci'', kScopes = [''org/acme''], kActive = True\<rparr>"
proof -
  have "scopeRe ''ci''" "RoleOperator \<in> set Roles" "length [''org/acme''] \<le> MaxAPIKeyScopes" "ValidScope ''org/acme'' False" "RoleAdmin \<noteq> RoleOperator"
    by code_simp+
  then show ?thesis by (simp add: wf_key_spec_def)
qed

lemma ex_key_store_keys:
  "store_inv ex_key_store" "length (keys_in ex_key_store) \<le> 2147483647"
  "stored_key ex_key_store info h \<longleftrightarrow> info = ex_key_info \<and> h = HashToken ''ryk_ci''"
  "length (byID ex_key_store) = 1"
proof -
  note wf = NewAPIKeyResource_wf [OF ex_key_spec_wf, folded ex_key_def]
  note v = NewAPIKeyResource_valid [OF ex_key_spec_wf, folded ex_key_def]
  have "op_ok (OpCreate (ex_io 3) (Some ex_key) ex_opts) (NewStore [])" using wf by (simp add: NewStore_def Let_def)
  then show inv: "store_inv ex_key_store"
    unfolding ex_key_store_def by (intro create_inv) simp_all
  then have i: "index_inv ex_key_store" by (simp add: store_inv_def)
  obtain c where c: "rID c = ''r-03''" "rKind c = KindAPIKey" "rSpec c = rSpec ex_key" "map_of (byID ex_key_store) = [''r-03'' \<mapsto> c]" "byID ex_key_store = [(''r-03'', c)]"
  proof -
    have id: "newID (ioRand (ex_io 3)) = ''r-03''" by code_simp
    have "map_of (byLogic (NewStore [])) (LogicalKey ex_key) = None" by (simp add: NewStore_def Let_def)
    then have "\<exists>st. rID st = ''r-03'' \<and> rKind st = rKind ex_key \<and> rSpec st = rSpec ex_key \<and>
        byID ex_key_store = AList.update (rID st) st (byID (NewStore []))"
      using create_byID [OF wf v [of ex_env], of "NewStore []" "ex_io 3" ex_opts]
      by (simp add: ex_key_store_def id)
    then obtain st where st: "rID st = ''r-03''" "rKind st = rKind ex_key" "rSpec st = rSpec ex_key"
      and e: "byID ex_key_store = AList.update (rID st) st (byID (NewStore []))" by blast
    then have "byID ex_key_store = [(''r-03'', st)]" by (simp add: NewStore_def Let_def)
    then show ?thesis using that [of st] st by (simp add: ex_key_def NewAPIKeyResource_def)
  qed
  have "length (keys_in ex_key_store) \<le> length (byID ex_key_store)"
    by (simp add: keys_in_def sorted_matches_def le_trans [OF length_filter_le])
  then show "length (keys_in ex_key_store) \<le> 2147483647" using c(5) by simp
  have p: "ParseAPIKeySpec (rSpec c) =
      Inr \<lparr>kPrincipal = ''ci'', kRoles = [RoleOperator], kKeyHash = HashToken ''ryk_ci'', kScopes = [''org/acme''], kActive = True\<rparr>"
    using ParseAPIKeySpec_New [OF ex_key_spec_wf] c(3) by (simp add: ex_key_def)
  have g: "GetResource (rID r) ex_key_store = Inr r \<longleftrightarrow> r = c" for r
    unfolding GetResource_iff [OF i] c(4) using c(1) by (auto split: if_splits)
  show "stored_key ex_key_store info h \<longleftrightarrow> info = ex_key_info \<and> h = HashToken ''ryk_ci''"
    unfolding stored_key_def g using p c(1,2) by (auto simp: key_of_def ex_key_info_def)
  show "length (byID ex_key_store) = 1" using c(5) by simp
qed

lemma ex_key_access: "may_access ex_key_info ''acme'' ''core'' True"
  by code_simp

section \<open>Properties\<close>

text \<open>C21: access implies a stored right. If, after a refresh from the store, a bearer token
  authenticates as a principal and that principal is authorised for an action, then the store holds
  an active key with the digest of this very token whose roles and scopes grant the action.\<close>

theorem access_implies_stored_right:
  assumes "store_inv s" "length (keys_in s) \<le> 2147483647" "Refresh s a = Some (a', None)"
    "Authenticate a' token = Some p" "dAllowed (Authorize a' p org project write)"
  shows "\<exists>info. stored_key s info (HashToken token) \<and> iPrincipal info = p \<and> may_access info org project write"
  using assms by (rule access_right)

theorem access_implies_stored_right_witness:
  "\<exists>info. stored_key ex_key_store info (HashToken ''ryk_ci'') \<and> may_access info ''acme'' ''core'' True"
proof -
  obtain a' p where "Refresh ex_key_store NewAuthorizer = Some (a', None)" "Authenticate a' ''ryk_ci'' = Some p"
      "dAllowed (Authorize a' p ''acme'' ''core'' True)"
    using decision_exact [OF ex_key_store_keys(1,2), of "''ryk_ci''" NewAuthorizer "''acme''" "''core''" True]
      ex_key_access by (auto simp: ex_key_store_keys(3))
  from access_implies_stored_right [OF ex_key_store_keys(1,2) this] show ?thesis by blast
qed



text \<open>A scope is exactly what it names. A valid scope of a non-admin key covers an
  organisation-wide scope's whole organisation and a project scope's one project, and nothing else;
  a project scope never covers an organisation-wide request.\<close>

theorem ScopeMatches_exact:
  assumes "ValidScope scope False"
  shows "ScopeMatches scope org project \<longleftrightarrow>
     scopeRe org \<and> scope = ''org/'' @ org \<or>
     scopeRe org \<and> scopeRe project \<and> scope = ''org/'' @ org @ ''/project/'' @ project"
proof -
  consider (org) o' where "scope = ''org/'' @ o'" "scopeRe o'"
    | (project) o' q where "scope = ''org/'' @ o' @ ''/project/'' @ q" "scopeRe o'" "scopeRe q"
    using assms by (auto simp: ValidScope_iff)
  then show ?thesis
  proof cases
    case org
    have "CHR ''/'' \<notin> set o'" using org(2) by (rule scopeRe_no_slash)
    then have "Cut o' ''/project/'' = None" "o' \<noteq> org @ ''/project/'' @ project" by (auto simp: Cut_none)
    moreover have "CutPrefix scope ''org/'' = Some o'" using org(1) by (simp only: CutPrefix_append)
    ultimately show ?thesis using org(2) unfolding org(1) by (auto simp: ScopeMatches_def)
  next
    case project
    have c: "Cut (o' @ ''/project/'' @ q) ''/project/'' = Some (o', q)"
      using scopeRe_no_slash [OF project(2)] by (intro Cut_first) auto
    have n: "q \<noteq> []" using scopeRe_nonempty [OF project(3)] .
    have j: "o' @ ''/project/'' @ q = org @ ''/project/'' @ project \<longleftrightarrow> o' = org \<and> q = project" if "scopeRe org"
    proof
      assume e: "o' @ ''/project/'' @ q = org @ ''/project/'' @ project"
      have "Cut (org @ ''/project/'' @ project) ''/project/'' = Some (org, project)"
        using scopeRe_no_slash [OF that] by (intro Cut_first) auto
      then have "Some (o', q) = Some (org, project)" using c unfolding e by simp
      then show "o' = org \<and> q = project" by simp
    qed simp
    have ne: "scope \<noteq> ''org/'' @ org" if "scopeRe org"
      unfolding project(1) same_append_eq using scopeRe_no_slash [OF that] by auto
    have eq: "scope = ''org/'' @ org @ ''/project/'' @ project \<longleftrightarrow> o' = org \<and> q = project" if "scopeRe org"
      unfolding project(1) same_append_eq by (rule j [OF that])
    have "CutPrefix scope ''org/'' = Some (o' @ ''/project/'' @ q)" using project(1) by (simp only: CutPrefix_append)
    then have "ScopeMatches scope org project \<longleftrightarrow> o' = org \<and> project \<noteq> [] \<and> q = project"
      using c by (simp add: ScopeMatches_def)
    then show ?thesis using ne eq n project(2,3) by blast
  qed
qed

theorem ScopeMatches_exact_witness:
  "ScopeMatches ''org/acme/project/core'' ''acme'' ''core'' \<and> \<not> ScopeMatches ''org/acme/project/core'' ''acme'' []"
proof -
  have v: "ValidScope ''org/acme/project/core'' False" and "scopeRe ''acme''" "scopeRe ''core''" "\<not> scopeRe []" by code_simp+
  then show ?thesis by (simp add: ScopeMatches_exact [OF v])
qed

text \<open>No escalation through the reserved organisation. No key without the admin role is ever
  allowed to write in the organisation that holds the managed keys, whatever its scopes say, and a
  viewer key is never allowed to write anywhere.\<close>

theorem non_admin_write_denied:
  assumes "Lookup a p = Some info" "RoleAdmin \<notin> set (iRoles info)"
    "IsReservedOrg org \<or> RoleViewer \<in> set (iRoles info)"
  shows "\<not> dAllowed (Authorize a p org project True)"
  using assms by (auto simp: Authorize_iff may_access_def IsReservedOrg_def)

theorem non_admin_write_denied_witness:
  "\<not> dAllowed (Authorize \<lparr>byHash = [], byPrincipal = [(''ci'', ex_key_info\<lparr>iScopes := [''org/ryvex'']\<rparr>)]\<rparr> ''ci'' ReservedOrg ''system'' True)"
  by (rule non_admin_write_denied [where info = "ex_key_info\<lparr>iScopes := [''org/ryvex'']\<rparr>"])
    (simp_all add: Lookup_def ex_key_info_def role_defs IsReservedOrg_def)

text \<open>Every refusal leaves a trace where its organisation's auditors look. After \<open>AuditDenied\<close> the
  newest entry of the organisation's audit listing is the refusal, with its actor and the request.\<close>

theorem AuditDenied_visible:
  assumes "store_inv s" "org \<noteq> []" "0 < l" "l \<le> 1000"
  shows "\<exists>e es. ListAudit \<lparr>qOrg = org, qKind = [], qLimit = l, qCursor = []\<rparr>
       (AuditDenied io actor org project meth path reason s) = Inr (e # es) \<and>
     aActor e = actor \<and> aAction e = ''authz_denied'' \<and> aReason e = meth @ '' '' @ path @ '': '' @ reason"
proof -
  let ?q = "\<lparr>qOrg = org, qKind = [], qLimit = l, qCursor = []\<rparr>"
  have r: "ring_inv s" using assms(1) by (simp add: store_inv_def)
  obtain e where e: "AuditDenied io actor org project meth path reason s = appendAuditRingLocked e s"
    "aActor e = actor" "aAction e = ''authz_denied''" "aReason e = meth @ '' '' @ path @ '': '' @ reason"
    "aLogicalKey e = org @ ''/'' @ project" "aKind e = []"
    using assms(2) by (simp add: AuditDenied_def AppendAudit_def Let_def)
  have m: "audit_match ?q e" using e(5) by (simp add: audit_match_def HasPrefix_iff)
  obtain xs where "audit_log (appendAuditRingLocked e s) = xs @ [e]"
    using ring.newest_entry [OF r] by blast
  moreover have "audit_limit l = Suc (nat l - 1)"
    using assms(3,4) by (simp add: audit_limit_def maxAuditQueryLimit_def)
  ultimately show ?thesis
    using m e by (simp add: ListAudit_page cursor_offset_def)
qed

theorem AuditDenied_visible_witness:
  "\<exists>e es. ListAudit \<lparr>qOrg = ''acme'', qKind = [], qLimit = 10, qCursor = []\<rparr>
     (AuditDenied (ex_io 4) ''eve'' ''acme'' ''core'' ''PUT'' ''/v1/acme'' ''viewer role is read-only'' ex_store) = Inr (e # es) \<and> aActor e = ''eve''"
  using AuditDenied_visible [OF ex_store_inv, of "''acme''" 10 "ex_io 4" "''eve''" "''core''" "''PUT''" "''/v1/acme''" "''viewer role is read-only''"]
  by auto

end
