(* ===== verification/Bus.thy ===== *)
theory Bus
  imports Resource
begin

text \<open>
  The in-process event bus, \<^verbatim>\<open>internal/bus/bus.go\<close>: subjects and the pattern matcher, subscriptions,
  publication with its replay ring, and the replay query. Handlers are kept abstract as values of
  type \<open>'h\<close>: \<open>Publish\<close> returns the handlers it goes on to run, each with the stamped event and each
  shielded from the others' panics.
\<close>

section \<open>State\<close>

definition SubjectNamespace :: string where "SubjectNamespace = ''ryvex.resource''"

definition EventCreated :: string where "EventCreated = ''created''"
definition EventUpdated :: string where "EventUpdated = ''updated''"
definition EventDeleted :: string where "EventDeleted = ''deleted''"
definition EventStatusChanged :: string where "EventStatusChanged = ''status_changed''"

record event =
  eID :: string
  eTime :: go_time
  eType :: string
  eSubject :: string
  eOrg :: string
  eProject :: string
  eEnv :: string
  eKind :: string
  eName :: string
  eResourceID :: string
  eGeneration :: int
  ePhase :: string
  eActor :: string
  eData :: "jobj option"

record 'h subscription =
  sID :: string
  sPattern :: string
  sHandler :: 'h

record 'h bus =
  subs :: "(string, 'h subscription list) gomap"
  ring :: "event list"
  next_id :: "64 word"

definition RingSize :: nat where "RingSize = 1024"

section \<open>Subjects\<close>

definition Subject :: "string \<Rightarrow> string \<Rightarrow> string \<Rightarrow> string" where
  "Subject org kind eventType = Join ''.'' [SubjectNamespace, org, ToLower kind, eventType]"

text \<open>The index loop of \<open>Match\<close> over the pattern's segments.\<close>

function match_from :: "string list \<Rightarrow> string list \<Rightarrow> nat \<Rightarrow> bool" where
  "match_from pt st i =
     (if i < length pt then
        (if pt ! i = ''>'' then i < length st
         else if i \<ge> length st then False
         else if pt ! i \<noteq> ''*'' \<and> pt ! i \<noteq> st ! i then False
         else match_from pt st (i + 1))
      else length pt = length st)"
  by pat_completeness auto
termination by (relation "measure (\<lambda>(pt, st, i). length pt - i)") auto

declare match_from.simps [simp del]

definition Match :: "string \<Rightarrow> string \<Rightarrow> bool" where
  "Match pattern subject = match_from (Split (CHR ''.'') pattern) (Split (CHR ''.'') subject) 0"

section \<open>Subscriptions\<close>

definition NewBus :: "'h bus" where
  "NewBus = \<lparr>subs = [], ring = [], next_id = 0\<rparr>"

definition subs_at :: "'h bus \<Rightarrow> string \<Rightarrow> 'h subscription list" where
  "subs_at b pattern = (case map_of (subs b) pattern of None \<Rightarrow> [] | Some xs \<Rightarrow> xs)"

definition Subscribe :: "string \<Rightarrow> 'h option \<Rightarrow> 'h bus \<Rightarrow> 'h bus \<times> 'h subscription option" where
  "Subscribe pattern h b =
     (case h of
        None \<Rightarrow> (b, None)
      | Some hd' \<Rightarrow>
          let n = next_id b + 1;
              sub = \<lparr>sID = ''sub-'' @ dec (unat n), sPattern = pattern, sHandler = hd'\<rparr>
          in (b\<lparr>next_id := n, subs := AList.update pattern (subs_at b pattern @ [sub]) (subs b)\<rparr>, Some sub))"

text \<open>The slice delete of \<open>Cancel\<close>: the first entry with the ID goes, the rest shift down.\<close>

fun delete_sub :: "string \<Rightarrow> 'h subscription list \<Rightarrow> 'h subscription list" where
  "delete_sub i [] = []"
| "delete_sub i (x # xs) = (if sID x = i then xs else x # delete_sub i xs)"

text \<open>\<open>Cancel\<close> of a live handle (a cancelled one has no bus and does nothing). Writing back an unchanged
  slice leaves the map alone; an empty one is removed.\<close>

definition Cancel :: "'h subscription \<Rightarrow> 'h bus \<Rightarrow> 'h bus" where
  "Cancel s b =
     (let xs = subs_at b (sPattern s);
          b1 = (if list_ex (\<lambda>x. sID x = sID s) xs
                then b\<lparr>subs := AList.update (sPattern s) (delete_sub (sID s) xs) (subs b)\<rparr> else b)
      in if subs_at b1 (sPattern s) = [] then b1\<lparr>subs := AList.delete (sPattern s) (subs b1)\<rparr> else b1)"

section \<open>Publication and replay\<close>

definition ring_append :: "event \<Rightarrow> 'h bus \<Rightarrow> 'h bus" where
  "ring_append e b =
     (let r = ring b @ [e] in b\<lparr>ring := (if length r > RingSize then drop (length r - RingSize) r else r)\<rparr>)"

definition matching :: "string \<Rightarrow> 'h bus \<Rightarrow> 'h subscription list" where
  "matching subject b = concat (map snd (filter (\<lambda>(pattern, xs). Match pattern subject) (subs b)))"

definition stamp :: "go_time \<Rightarrow> event \<Rightarrow> event" where
  "stamp now e =
     e\<lparr>eSubject := (if eSubject e = [] then Subject (eOrg e) (eKind e) (eType e) else eSubject e),
       eTime := (if eTime e = 0 then now else eTime e)\<rparr>"

definition Publish :: "go_time \<Rightarrow> event \<Rightarrow> 'h bus \<Rightarrow> 'h bus \<times> event \<times> 'h list" where
  "Publish now e b =
     (let n = next_id b + 1;
          e1 = (stamp now e)\<lparr>eID := ''evt-'' @ dec (unat n)\<rparr>;
          b1 = ring_append e1 (b\<lparr>next_id := n\<rparr>)
      in (b1, e1, map sHandler (matching (eSubject e1) b1)))"

definition eventTypeLabel :: "string \<Rightarrow> string" where
  "eventTypeLabel t = (if t = [] then ''unknown'' else t)"

definition Healthy :: "'h bus \<Rightarrow> go_error option" where
  "Healthy b = None"

text \<open>The backward loop of \<open>Recent\<close>: stop at the limit or at the start of the ring.\<close>

fun collect_recent :: "string \<Rightarrow> nat \<Rightarrow> event list \<Rightarrow> event list" where
  "collect_recent org 0 es = []"
| "collect_recent org (Suc n) [] = []"
| "collect_recent org (Suc n) (e # es) =
     (if org = [] \<or> eOrg e = org then e # collect_recent org n es else collect_recent org (Suc n) es)"

definition Recent :: "string \<Rightarrow> int \<Rightarrow> 'h bus \<Rightarrow> event list" where
  "Recent org limit b =
     collect_recent org (if limit \<le> 0 \<or> limit > int RingSize then 100 else nat limit) (rev (ring b))"

section \<open>Invariant\<close>

text \<open>Every pattern of the map has a subscription, each subscription stands under its own pattern, no two
  live ones share an ID, and the IDs handed out lie below the counter.\<close>

definition bus_inv :: "'h bus \<Rightarrow> bool" where
  "bus_inv b \<longleftrightarrow>
     distinct (map fst (subs b)) \<and> length (ring b) \<le> RingSize \<and>
     (\<forall>p. map_of (subs b) p \<noteq> Some []) \<and>
     (\<forall>p. \<forall>x \<in> set (subs_at b p). sPattern x = p \<and>
        (\<exists>n. 0 < n \<and> n \<le> unat (next_id b) \<and> sID x = ''sub-'' @ dec n)) \<and>
     (\<forall>p. distinct (map sID (subs_at b p))) \<and>
     (\<forall>p q. \<forall>x \<in> set (subs_at b p). \<forall>y \<in> set (subs_at b q). sID x = sID y \<longrightarrow> x = y)"

definition live :: "'h bus \<Rightarrow> 'h subscription \<Rightarrow> bool" where
  "live b x \<longleftrightarrow> x \<in> set (subs_at b (sPattern x))"

end
