(* ===== verification/Bus_Laws.thy ===== *)
theory Bus_Laws
  imports Bus Bounded_Log
begin

text \<open>
  Laws of the event bus: the matcher is the subject grammar, every operation keeps the subscription
  table's invariant, and the replay ring is a bounded log.
\<close>

section \<open>The matcher\<close>

text \<open>Reference: segment by segment, a wildcard stands for one segment and a tail wildcard for one
  or more.\<close>

definition seg_ok :: "string \<Rightarrow> string \<Rightarrow> bool" where
  "seg_ok p s \<longleftrightarrow> p = ''*'' \<or> p = s"

definition pattern_covers :: "string list \<Rightarrow> string list \<Rightarrow> bool" where
  "pattern_covers pt st =
     (let pre = takeWhile (\<lambda>p. p \<noteq> ''>'') pt
      in if pre = pt then list_all2 seg_ok pt st
         else length pre < length st \<and> list_all2 seg_ok pre (take (length pre) st))"

fun match_segs :: "string list \<Rightarrow> string list \<Rightarrow> bool" where
  "match_segs [] st = (st = [])"
| "match_segs (p # ps) st =
     (if p = ''>'' then st \<noteq> []
      else case st of [] \<Rightarrow> False | s # ss \<Rightarrow> seg_ok p s \<and> match_segs ps ss)"

lemma match_from_segs:
  "i \<le> length pt \<Longrightarrow> i \<le> length st \<Longrightarrow> match_from pt st i = match_segs (drop i pt) (drop i st)"
proof (induction pt st i rule: match_from.induct)
  case (1 pt st i)
  show ?case
  proof (cases "i < length pt")
    case False
    then show ?thesis using "1.prems" by (subst match_from.simps) auto
  next
    case True
    then have d: "drop i pt = pt ! i # drop (i + 1) pt" by (simp add: Cons_nth_drop_Suc)
    show ?thesis
    proof (cases "i < length st")
      case False
      then show ?thesis using True d by (subst match_from.simps) simp
    next
      case lt: True
      then have "drop i st = st ! i # drop (i + 1) st" by (simp add: Cons_nth_drop_Suc)
      then show ?thesis using True d lt "1.IH" by (subst match_from.simps) (auto simp: seg_ok_def)
    qed
  qed
qed

lemma match_segs_covers: "match_segs pt st = pattern_covers pt st"
proof (induction pt st rule: match_segs.induct)
  case (2 p ps st)
  then show ?case
    by (cases st) (auto simp: pattern_covers_def Let_def split: if_splits)
qed (simp add: pattern_covers_def)

lemma Match_covers: "Match pattern subject \<longleftrightarrow> pattern_covers (Split (CHR ''.'') pattern) (Split (CHR ''.'') subject)"
  by (simp add: Match_def match_from_segs match_segs_covers)

section \<open>Subscriptions\<close>

lemma subs_at_update [simp]:
  "subs_at (b\<lparr>subs := AList.update p xs (subs b)\<rparr>) q = (if p = q then xs else subs_at b q)"
  "subs_at (b\<lparr>subs := AList.delete p (subs b)\<rparr>) q = (if p = q then [] else subs_at b q)"
  by (simp_all add: subs_at_def)

text \<open>The subscriptions of one pattern, and what the operations do to them.\<close>

lemma Subscribe_subs_at:
  "Subscribe p (Some h) b = (b', Some x) \<Longrightarrow>
   sPattern x = p \<and> sHandler x = h \<and> sID x = ''sub-'' @ dec (unat (next_id b + 1)) \<and>
   subs_at b' q = (if q = p then subs_at b p @ [x] else subs_at b q)"
  by (auto simp: Subscribe_def Let_def subs_at_def)

lemma Cancel_subs_at:
  "subs_at (Cancel x b) q = (if q = sPattern x then delete_sub (sID x) (subs_at b q) else subs_at b q)"
proof -
  have "delete_sub i xs = xs" if "\<not> list_ex (\<lambda>y. sID y = i) xs" for i and xs :: "'a subscription list"
    using that by (induction xs) auto
  then show ?thesis by (auto simp: Cancel_def Let_def subs_at_def split: option.splits)
qed


lemma delete_sub_subset: "set (delete_sub i xs) \<subseteq> set xs"
  by (induction xs) auto

lemma distinct_delete_sub: "distinct (map sID xs) \<Longrightarrow> distinct (map sID (delete_sub i xs))"
  by (induction xs) (auto dest: delete_sub_subset [THEN subsetD])

lemma delete_sub_mem:
  "distinct (map sID xs) \<Longrightarrow> y \<in> set (delete_sub i xs) \<longleftrightarrow> y \<in> set xs \<and> sID y \<noteq> i"
  by (induction xs) (auto simp: image_iff)

lemma bus_inv_NewBus [simp]: "bus_inv NewBus"
  by (simp add: bus_inv_def NewBus_def subs_at_def)

lemma sub_id_inject: "''sub-'' @ dec m = ''sub-'' @ dec n \<longleftrightarrow> m = n"
  by simp

lemma bus_inv_subs:
  assumes "bus_inv b"
  shows "distinct (map fst (subs b))" "map_of (subs b) p \<noteq> Some []"
    "x \<in> set (subs_at b p) \<Longrightarrow> sPattern x = p"
    "x \<in> set (subs_at b p) \<Longrightarrow> \<exists>n. 0 < n \<and> n \<le> unat (next_id b) \<and> sID x = ''sub-'' @ dec n"
    "distinct (map sID (subs_at b p))"
    "x \<in> set (subs_at b p) \<Longrightarrow> y \<in> set (subs_at b q) \<Longrightarrow> sID x = sID y \<Longrightarrow> x = y"
  using assms unfolding bus_inv_def by blast+

lemma Subscribe_inv:
  assumes "bus_inv b" "unat (next_id b) + 1 < 2 ^ 64"
  shows "bus_inv (fst (Subscribe p h b))"
proof (cases h)
  case None
  then show ?thesis using assms by (simp add: Subscribe_def)
next
  case (Some k)
  have n: "unat (next_id b + 1) = unat (next_id b) + 1" using assms(2) by (simp add: unat_word_ariths)
  define x where "x = \<lparr>sID = ''sub-'' @ dec (unat (next_id b) + 1), sPattern = p, sHandler = k\<rparr>"
  define b' where "b' = b\<lparr>next_id := next_id b + 1, subs := AList.update p (subs_at b p @ [x]) (subs b)\<rparr>"
  have b: "fst (Subscribe p h b) = b'" using Some n by (simp add: Subscribe_def Let_def x_def b'_def)
  have at: "subs_at b' q = (if p = q then subs_at b p @ [x] else subs_at b q)" for q by (simp add: subs_at_def b'_def)
  note inv = bus_inv_subs [OF assms(1)]
  have xid: "sID x = ''sub-'' @ dec (unat (next_id b) + 1)" "sPattern x = p" by (simp_all add: x_def)
  have fresh: "sID y \<noteq> sID x" if "y \<in> set (subs_at b q)" for y q
    using inv(4) [OF that] xid(1) by auto
  have split: "y \<in> set (subs_at b' q) \<longleftrightarrow> y \<in> set (subs_at b q) \<or> (y = x \<and> p = q)" for y q by (auto simp: at)
  have "bus_inv b'"
    unfolding bus_inv_def
  proof (intro conjI allI ballI impI)
    show "distinct (map fst (subs b'))" using inv(1) by (simp add: b'_def)
    show "length (ring b') \<le> RingSize" using assms(1) by (simp add: bus_inv_def b'_def)
    fix q show "map_of (subs b') q \<noteq> Some []" using inv(2) by (simp add: b'_def)
    show "distinct (map sID (subs_at b' q))"
    proof (cases "p = q")
      case True
      have "sID x \<notin> sID ` set (subs_at b q)" using fresh [of _ q] by (metis imageE)
      then show ?thesis using inv(5) [of q] True by (simp add: at)
    qed (simp add: at inv(5))
    fix y assume y: "y \<in> set (subs_at b' q)"
    then show "sPattern y = q" using inv(3) xid(2) split by blast
    show "\<exists>m. 0 < m \<and> m \<le> unat (next_id b') \<and> sID y = ''sub-'' @ dec m"
    proof (cases "y = x")
      case True
      then show ?thesis using xid(1) n by (intro exI [of _ "unat (next_id b) + 1"]) (simp add: b'_def)
    next
      case False
      then obtain m where "0 < m" "m \<le> unat (next_id b)" "sID y = ''sub-'' @ dec m"
        using y split inv(4) by blast
      then show ?thesis using n by (intro exI [of _ m]) (simp add: b'_def)
    qed
  next
    fix q q' y z assume "y \<in> set (subs_at b' q)" "z \<in> set (subs_at b' q')" "sID y = sID z"
    then show "y = z" unfolding split using inv(6) fresh by metis
  qed
  then show ?thesis using b by simp
qed

lemma Cancel_inv:
  assumes "bus_inv b"
  shows "bus_inv (Cancel x b)"
proof -
  note inv = bus_inv_subs [OF assms]
  have f: "ring (Cancel x b) = ring b" "next_id (Cancel x b) = next_id b" by (simp_all add: Cancel_def Let_def)
  have sub: "set (subs_at (Cancel x b) q) \<subseteq> set (subs_at b q)" for q
    using delete_sub_subset by (auto simp: Cancel_subs_at)
  show ?thesis
    unfolding bus_inv_def
  proof (intro conjI allI ballI impI)
    show "distinct (map fst (subs (Cancel x b)))" using inv(1) by (simp add: Cancel_def Let_def)
    show "length (ring (Cancel x b)) \<le> RingSize" using assms f by (simp add: bus_inv_def)
    fix q show "map_of (subs (Cancel x b)) q \<noteq> Some []"
      using inv(2) by (auto simp: Cancel_def Let_def subs_at_def)
    show "distinct (map sID (subs_at (Cancel x b) q))" using inv(5) by (simp add: Cancel_subs_at distinct_delete_sub)
    fix y assume "y \<in> set (subs_at (Cancel x b) q)"
    then have "y \<in> set (subs_at b q)" using sub by blast
    then show "sPattern y = q" "\<exists>n. 0 < n \<and> n \<le> unat (next_id (Cancel x b)) \<and> sID y = ''sub-'' @ dec n"
      using inv(3,4) f by auto
  next
    fix q q' y z assume "y \<in> set (subs_at (Cancel x b) q)" "z \<in> set (subs_at (Cancel x b) q')" "sID y = sID z"
    then show "y = z" using inv(6) sub by blast
  qed
qed


section \<open>Publication\<close>

text \<open>The replay ring is a bounded log.\<close>

interpretation replay: bounded_log ring_append ring "\<lambda>b. RingSize" "\<lambda>b. length (ring b) \<le> RingSize"
  by unfold_locales (auto simp: ring_append_def Let_def RingSize_def last_n_def)

lemma ring_append_frame [simp]: "subs (ring_append e b) = subs b" "next_id (ring_append e b) = next_id b"
  "subs_at (ring_append e b) = subs_at b" "matching s (ring_append e b) = matching s b"
  by (simp_all add: ring_append_def Let_def subs_at_def matching_def fun_eq_iff)

lemma Publish_inv:
  assumes "bus_inv b" "unat (next_id b) + 1 < 2 ^ 64"
  shows "bus_inv (fst (Publish now e b))"
proof -
  obtain e1 where e1: "fst (Publish now e b) = ring_append e1 (b\<lparr>next_id := next_id b + 1\<rparr>)"
    by (simp add: Publish_def Let_def)
  have n: "unat (next_id b + 1) = unat (next_id b) + 1" using assms(2) by (simp add: unat_word_ariths)
  have at: "subs_at (b\<lparr>next_id := next_id b + 1\<rparr>) q = subs_at b q" for q by (simp add: subs_at_def)
  have "length (ring (fst (Publish now e b))) \<le> RingSize"
    using replay.invar_append [of "b\<lparr>next_id := next_id b + 1\<rparr>" e1] assms(1) e1 by (simp add: bus_inv_def)
  moreover have "\<exists>k. 0 < k \<and> k \<le> unat (next_id b) + 1 \<and> i = ''sub-'' @ dec k"
    if "\<exists>k. 0 < k \<and> k \<le> unat (next_id b) \<and> i = ''sub-'' @ dec k" for i
    using that trans_le_add1 by blast
  ultimately show ?thesis using assms(1) n e1 by (simp add: bus_inv_def at)
qed

lemma concat_subs_mem:
  "x \<in> set (concat (map snd (filter (\<lambda>(p, xs). P p) m))) \<longleftrightarrow> (\<exists>p xs. (p, xs) \<in> set m \<and> P p \<and> x \<in> set xs)"
proof (induction m)
  case (Cons kv m)
  obtain q ys where "kv = (q, ys)" by (cases kv)
  then have "x \<in> set (concat (map snd (filter (\<lambda>(p, xs). P p) (kv # m)))) \<longleftrightarrow>
      P q \<and> x \<in> set ys \<or> x \<in> set (concat (map snd (filter (\<lambda>(p, xs). P p) m)))" by simp
  also have "\<dots> \<longleftrightarrow> (\<exists>p xs. (p, xs) \<in> set (kv # m) \<and> P p \<and> x \<in> set xs)"
    unfolding Cons.IH using \<open>kv = (q, ys)\<close> by (metis Pair_inject set_ConsD list.set_intros)
  finally show ?case .
qed simp

lemma distinct_concat_subs:
  "distinct (map fst m) \<Longrightarrow> \<forall>(p, xs) \<in> set m. distinct (map sID xs) \<and> (\<forall>x \<in> set xs. sPattern x = p) \<Longrightarrow>
   distinct (concat (map snd (filter (\<lambda>(p, xs). P p) m)))"
proof (induction m)
  case (Cons kv m)
  obtain p xs where kv: "kv = (p, xs)" by (cases kv)
  have d: "distinct xs" using Cons.prems(2) kv by (auto simp: distinct_map)
  have "sPattern y \<noteq> p" if t: "y \<in> set (concat (map snd (filter (\<lambda>(p, xs). P p) m)))" for y
  proof -
    obtain q ys where "(q, ys) \<in> set m" "y \<in> set ys" using t unfolding concat_subs_mem by blast
    then have "sPattern y = q" "q \<in> fst ` set m" 
      using bspec [OF Cons.prems(2), of "(q, ys)"] by (simp_all add: image_iff Bex_def) blast
    then show ?thesis using Cons.prems(1) kv by auto
  qed
  then have "set xs \<inter> set (concat (map snd (filter (\<lambda>(p, xs). P p) m))) = {}"
    using bspec [OF Cons.prems(2), of kv] kv by (simp only: set_simps insertI1 prod.case) blast
  then show ?case using Cons d kv by auto
qed simp

lemma matching_mem:
  assumes "bus_inv b"
  shows "x \<in> set (matching subject b) \<longleftrightarrow> live b x \<and> Match (sPattern x) subject"
    "distinct (matching subject b)"
proof -
  note inv = bus_inv_subs [OF assms]
  have m: "(p, xs) \<in> set (subs b) \<longleftrightarrow> xs \<noteq> [] \<and> subs_at b p = xs" for p xs
    using inv(2) [of p] unfolding map_of_mem [OF inv(1)]
    by (auto simp: subs_at_def simp del: map_of_eq_Some_iff split: option.splits)
  show "x \<in> set (matching subject b) \<longleftrightarrow> live b x \<and> Match (sPattern x) subject"
    unfolding matching_def concat_subs_mem m live_def using inv(3) by (metis empty_iff list.set(1))
  show "distinct (matching subject b)"
    unfolding matching_def
    by (rule distinct_concat_subs) (use inv m in auto)
qed

lemma collect_recent_take:
  "collect_recent org n es = take n (filter (\<lambda>e. org = [] \<or> eOrg e = org) es)"
  by (induction org n es rule: collect_recent.induct) auto

end
