(* ===== verification/Bus_Props.thy ===== *)
theory Bus_Props
  imports Bus_Laws "HOL-Library.Code_Target_Nat"
begin

text \<open>Properties of the event bus over its histories.\<close>

section \<open>Histories of the bus\<close>

text \<open>The bus under any interleaving of subscriptions, cancellations and publications that does not
  exhaust its 64-bit counter.\<close>

inductive bus_reach :: "'h bus \<Rightarrow> bool" where
  fresh: "bus_reach NewBus"
| subscribe: "bus_reach b \<Longrightarrow> unat (next_id b) + 1 < 2 ^ 64 \<Longrightarrow> bus_reach (fst (Subscribe p h b))"
| cancel: "bus_reach b \<Longrightarrow> bus_reach (Cancel x b)"
| publish: "bus_reach b \<Longrightarrow> unat (next_id b) + 1 < 2 ^ 64 \<Longrightarrow> bus_reach (fst (Publish now e b))"

fun publish_all :: "(go_time \<times> event) list \<Rightarrow> 'h bus \<Rightarrow> 'h bus \<times> event list" where
  "publish_all [] b = (b, [])"
| "publish_all ((now, e) # es) b =
     (let (b1, e1, hs) = Publish now e b; (b2, es2) = publish_all es b1 in (b2, e1 # es2))"

lemma Publish_ring:
  "Publish now e b = (b', e1, hs) \<Longrightarrow> ring b' = ring (ring_append e1 b)"
  by (auto simp: Publish_def Let_def ring_append_def)

lemma publish_all_ring:
  "length (ring b) \<le> RingSize \<Longrightarrow> publish_all es b = (b', es') \<Longrightarrow> ring b' = last_n RingSize (ring b @ es')"
proof (induction es b arbitrary: b' es' rule: publish_all.induct)
  case (2 now e es b)
  obtain b1 e1 hs where p: "Publish now e b = (b1, e1, hs)" by (cases "Publish now e b")
  obtain b2 es2 where r: "publish_all es b1 = (b2, es2)" by fastforce
  have r1: "ring b1 = last_n RingSize (ring b @ [e1])"
    using Publish_ring [OF p] replay.entries_append [of b e1] "2.prems"(1) by simp
  then have "length (ring b1) \<le> RingSize" by simp
  from "2.IH" [OF p [symmetric] refl refl this r] have "ring b2 = last_n RingSize (ring b1 @ es2)" .
  then show ?case using "2.prems"(2) p r r1 by (simp add: last_n_last_n)
qed simp

lemma delete_sub_filter:
  assumes "distinct (map sID xs)" "x \<in> set xs"
  shows "delete_sub (sID x) xs = filter (\<lambda>y. y \<noteq> x) xs"
  using assms
proof (induction xs)
  case (Cons y ys)
  show ?case
  proof (cases "sID y = sID x")
    case True
    then have "y = x" "x \<notin> set ys" using Cons.prems by (auto simp: image_iff)
    then have "filter (\<lambda>z. z \<noteq> x) ys = ys" by (auto simp: filter_id_conv)
    then show ?thesis using \<open>y = x\<close> by simp
  next
    case False
    then show ?thesis using Cons by auto
  qed
qed simp

lemma Cancel_absent:
  assumes "bus_inv b" "sID x \<notin> sID ` set (subs_at b (sPattern x))"
  shows "Cancel x b = b"
proof -
  have n: "\<not> list_ex (\<lambda>y. sID y = sID x) (subs_at b (sPattern x))" using assms(2) by (auto simp: list_ex_iff image_iff)
  have "map_of (subs b) (sPattern x) = None" if "subs_at b (sPattern x) = []"
    using that bus_inv_subs(2) [OF assms(1), of "sPattern x"]
    by (auto simp: subs_at_def simp del: map_of_eq_Some_iff map_of_eq_None_iff split: option.splits)
  then have "AList.delete (sPattern x) (subs b) = subs b" if "subs_at b (sPattern x) = []"
    using that by (simp add: map_of_eq_None_iff)
  then show ?thesis using n by (simp add: Cancel_def)
qed

definition ex_bus :: "nat bus" where
  "ex_bus = fst (Subscribe ''ryvex.resource.acme.*.created'' (Some 1) (fst (Subscribe ''ryvex.>'' (Some 2) NewBus)))"

definition ex_event :: event where
  "ex_event = \<lparr>eID = [], eTime = 0, eType = EventCreated, eSubject = [], eOrg = ''acme'', eProject = ''core'',
     eEnv = ''prod'', eKind = ''Node'', eName = ''web'', eResourceID = ''r-01'', eGeneration = 1, ePhase = ''Pending'',
     eActor = ''ci'', eData = None\<rparr>"

lemma ex_bus_inv: "bus_inv ex_bus"
proof -
  have "unat (next_id (NewBus :: nat bus)) + 1 < 2 ^ 64"
    "unat (next_id (fst (Subscribe ''ryvex.>'' (Some (2 :: nat)) NewBus))) + 1 < 2 ^ 64"
    by (simp_all add: NewBus_def Subscribe_def Let_def)
  then show ?thesis unfolding ex_bus_def by (intro Subscribe_inv bus_inv_NewBus)
qed

section \<open>Properties\<close>

text \<open>C23: the index loop of \<open>Match\<close> decides the NATS subject grammar: without a tail wildcard the
  pattern and the subject agree segment by segment (a star stands for any one segment); with
  one, the segments before it agree and at least one more segment follows.\<close>

theorem Match_exact:
  "Match pattern subject \<longleftrightarrow> pattern_covers (Split (CHR ''.'') pattern) (Split (CHR ''.'') subject)"
  by (rule Match_covers)

text \<open>C24: under every interleaving of subscriptions, cancellations and publications the bus keeps its
  bookkeeping: no pattern without subscribers, subscriptions under their own pattern, unique IDs, and
  at most \<open>RingSize\<close> retained events.\<close>

theorem bus_reach_inv:
  assumes "bus_reach b"
  shows "bus_inv b"
  using assms by induction (auto intro: Subscribe_inv Cancel_inv Publish_inv)

theorem bus_reach_inv_witness: "bus_inv (fst (Subscribe ''ryvex.>'' (Some (7 :: nat)) NewBus))"
  by (rule bus_reach_inv [OF bus_reach.subscribe [OF bus_reach.fresh]]) (simp add: NewBus_def)



text \<open>Cancelling a live subscription removes that subscription and only it; the others of the
  same pattern keep their order, and a second cancellation changes nothing.\<close>

theorem cancel_exact:
  assumes "bus_inv b" "live b x"
  shows "bus_inv (Cancel x b) \<and> (\<forall>y. live (Cancel x b) y \<longleftrightarrow> live b y \<and> y \<noteq> x) \<and>
     (\<forall>p. subs_at (Cancel x b) p = filter (\<lambda>y. y \<noteq> x) (subs_at b p)) \<and>
     Cancel x (Cancel x b) = Cancel x b"
proof -
  note inv = bus_inv_subs [OF assms(1)]
  have at: "subs_at (Cancel x b) p = filter (\<lambda>y. y \<noteq> x) (subs_at b p)" for p
  proof (cases "p = sPattern x")
    case True
    then show ?thesis using assms(2) inv(5) by (simp add: Cancel_subs_at live_def delete_sub_filter)
  next
    case False
    then have "x \<notin> set (subs_at b p)" using inv(3) by blast
    then have "filter (\<lambda>y. y \<noteq> x) (subs_at b p) = subs_at b p" by (auto simp: filter_id_conv)
    then show ?thesis using False by (simp add: Cancel_subs_at)
  qed
  have l: "live (Cancel x b) y \<longleftrightarrow> live b y \<and> y \<noteq> x" for y by (auto simp: live_def at)
  have i: "bus_inv (Cancel x b)" by (rule Cancel_inv [OF assms(1)])
  have "sID x \<notin> sID ` set (subs_at (Cancel x b) (sPattern x))"
    using inv(6) assms(2) unfolding at live_def by fastforce
  from Cancel_absent [OF i this] show ?thesis using at l i by blast
qed

theorem cancel_exact_witness:
  "\<not> live (Cancel \<lparr>sID = ''sub-1'', sPattern = ''ryvex.>'', sHandler = (2 :: nat)\<rparr> ex_bus) \<lparr>sID = ''sub-1'', sPattern = ''ryvex.>'', sHandler = (2 :: nat)\<rparr>"
proof -
  have "live ex_bus \<lparr>sID = ''sub-1'', sPattern = ''ryvex.>'', sHandler = (2 :: nat)\<rparr>" by code_simp
  from cancel_exact [OF ex_bus_inv this] show ?thesis by blast
qed

text \<open>Replay is exact. After any sequence of publications \<open>Recent\<close> returns the newest events of the
  organisation (of every organisation for the empty name) among the last \<open>RingSize\<close> published,
  newest first, up to the limit.\<close>

theorem recent_exact:
  assumes "publish_all es NewBus = (b, stamped)"
  shows "Recent org limit b =
     take (if limit \<le> 0 \<or> limit > 1024 then 100 else nat limit)
       (filter (\<lambda>e. org = [] \<or> eOrg e = org) (rev (last_n 1024 stamped)))"
  using publish_all_ring [OF _ assms]
  by (simp add: NewBus_def Recent_def collect_recent_take RingSize_def)

theorem recent_exact_witness:
  "\<exists>b s. publish_all [(5, ex_event), (6, ex_event\<lparr>eOrg := ''other''\<rparr>)] (NewBus :: nat bus) = (b, s) \<and>
     Recent ''acme'' 10 b = take 10 (filter (\<lambda>e. eOrg e = ''acme'') (rev s)) \<and> length s = 2"
proof -
  obtain b s where p: "publish_all [(5, ex_event), (6, ex_event\<lparr>eOrg := ''other''\<rparr>)] (NewBus :: nat bus) = (b, s)"
    by fastforce
  then have "length s = 2" by (auto simp: Let_def split: prod.splits)
  then show ?thesis using recent_exact [OF p, of "''acme''" 10] p by simp
qed

end
