(* ===== verification/Provider.thy ===== *)
theory Provider
  imports Resource
begin

text \<open>
  The actuator interface, \<^verbatim>\<open>internal/provider/provider.go\<close>: references, plans, observations, the error
  taxonomy, field comparison and the registry of actuators by kind. The world an actuator acts on
  is a value of type \<open>'w\<close> that \<open>Apply\<close> transforms and \<open>Inspect\<close> reads.
\<close>

section \<open>Data\<close>

record ref =
  fResourceID :: string
  fOrg :: string
  fProject :: string
  fEnv :: string
  fKind :: string
  fName :: string

definition RefFor :: "resource \<Rightarrow> ref" where
  "RefFor r = \<lparr>fResourceID = rID r, fOrg = rOrg r, fProject = rProject r, fEnv = rEnv r, fKind = rKind r, fName = rName r\<rparr>"

definition Key :: "ref \<Rightarrow> string" where
  "Key f = Join ''/'' [fOrg f, fProject f, fEnv f, fKind f, fName f]"

datatype action = ActionNoop | ActionCreate | ActionUpdate

record change =
  cField :: string
  cFrom :: string
  cTo :: string

record plan =
  pKind :: string
  pAction :: action
  pChanges :: "change list"
  pDesired :: resource

record result =
  tAction :: action
  tExternalID :: string
  tMessage :: string

record observed =
  oExists :: bool
  oExternalID :: string
  oState :: string
  oReady :: bool
  oFields :: "(string, string) gomap"

record caps =
  cDriftDetection :: bool
  cName :: string

section \<open>Error taxonomy\<close>

datatype err_class = Transient | Permanent | Unavailable

fun class_string :: "err_class \<Rightarrow> string" where
  "class_string Permanent = ''permanent''"
| "class_string Unavailable = ''unavailable''"
| "class_string Transient = ''transient''"

text \<open>An actuator's error value: a plain error, a sentinel (a package variable, compared by identity), one
  wrapped with \<open>%w\<close> at the end or at the start of its text, or the classified error.\<close>

datatype act_error =
    PlainError string
  | SentinelError string
  | WrappedError string act_error
  | SuffixedError act_error string
  | ProviderError err_class string act_error

definition E :: "err_class \<Rightarrow> string \<Rightarrow> act_error option \<Rightarrow> act_error option" where
  "E c op err = map_option (ProviderError c op) err"

fun Error :: "act_error \<Rightarrow> string" where
  "Error (PlainError s) = s"
| "Error (SentinelError s) = s"
| "Error (WrappedError s e) = s @ Error e"
| "Error (SuffixedError e s) = Error e @ s"
| "Error (ProviderError c op e) =
     (if op = [] then class_string c @ '' provider error: '' @ Error e
      else class_string c @ '' provider error at '' @ op @ '': '' @ Error e)"

fun Unwrap :: "act_error \<Rightarrow> act_error option" where
  "Unwrap (PlainError s) = None"
| "Unwrap (SentinelError s) = None"
| "Unwrap (WrappedError s e) = Some e"
| "Unwrap (SuffixedError e s) = Some e"
| "Unwrap (ProviderError c op e) = Some e"

text \<open>\<open>errors.As\<close> walks the chain to the first classified error.\<close>

fun ClassOf :: "act_error \<Rightarrow> err_class" where
  "ClassOf (ProviderError c op e) = c"
| "ClassOf (WrappedError s e) = ClassOf e"
| "ClassOf (SuffixedError e s) = ClassOf e"
| "ClassOf (SentinelError s) = Transient"
| "ClassOf (PlainError s) = Transient"

section \<open>Fields\<close>

definition CompareFields :: "(string, string) gomap \<Rightarrow> (string, string) gomap \<Rightarrow> string list" where
  "CompareFields want got =
     filter (\<lambda>k. case map_of got k of None \<Rightarrow> True | Some v \<Rightarrow> Some v \<noteq> map_of want k)
       (sort (map fst want))"

text \<open>The spec is kept in key order, the order its encoding has.\<close>

definition FieldsToSpec :: "(string, string) gomap \<Rightarrow> jobj" where
  "FieldsToSpec fs = map (\<lambda>(k, v). (k, JStr v)) (sort_key fst fs)"

section \<open>Actuators and their registry\<close>

record 'w actuator =
  actKind :: string
  actPlan :: "resource option \<Rightarrow> resource \<Rightarrow> act_error + plan"
  actApply :: "plan \<Rightarrow> 'w \<Rightarrow> 'w \<times> (act_error + result)"
  actInspect :: "ref \<Rightarrow> 'w \<Rightarrow> act_error + observed"
  actCaps :: caps
  actDesiredFields :: "(jobj option \<Rightarrow> act_error + (string, string) gomap) option"  \<comment> \<open>the optional \<open>FieldMapper\<close>\<close>

type_synonym 'w registry = "(string, 'w actuator) gomap"

definition NewRegistry :: "'w registry" where
  "NewRegistry = []"

definition Register :: "'w actuator option \<Rightarrow> 'w registry \<Rightarrow> 'w registry \<times> string option" where
  "Register ao rg =
     (case ao of
        None \<Rightarrow> (rg, Some ''provider: nil actuator'')
      | Some a \<Rightarrow>
          if actKind a = [] then (rg, Some ''provider: actuator with empty kind'')
          else if map_of rg (actKind a) \<noteq> None then
            (rg, Some (''provider: actuator for kind '' @ actKind a @ '' already registered''))
          else (AList.update (actKind a) a rg, None))"

definition LookupKind :: "'w registry \<Rightarrow> string \<Rightarrow> 'w actuator option" where
  "LookupKind rg kind = map_of rg kind"

definition RegisteredKinds :: "'w registry \<Rightarrow> string list" where
  "RegisteredKinds rg = sort (map fst rg)"

definition Len :: "'w registry \<Rightarrow> nat" where
  "Len rg = length rg"

section \<open>Lemmas\<close>

lemma CompareFields_mem:
  assumes "distinct (map fst want)"
  shows "k \<in> set (CompareFields want got) \<longleftrightarrow> k \<in> fst ` set want \<and> map_of got k \<noteq> map_of want k"
proof -
  have "k \<in> fst ` set want \<longleftrightarrow> map_of want k \<noteq> None" by (simp add: map_of_eq_None_iff)
  then show ?thesis
    by (cases "map_of got k") (auto simp: CompareFields_def simp del: map_of_eq_None_iff map_of_eq_Some_iff)
qed

lemma CompareFields_sorted: "sorted (CompareFields want got)"
  by (simp add: CompareFields_def sorted_filter [where f = id, simplified])

lemma CompareFields_empty:
  assumes "distinct (map fst want)"
  shows "CompareFields want got = [] \<longleftrightarrow> (\<forall>(k, v) \<in> set want. map_of got k = Some v)"
proof -
  have "CompareFields want got = [] \<longleftrightarrow> (\<forall>k. k \<notin> set (CompareFields want got))" by (cases "CompareFields want got") auto
  also have "\<dots> \<longleftrightarrow> (\<forall>(k, v) \<in> set want. map_of got k = map_of want k)"
    using CompareFields_mem [OF assms] by force
  also have "\<dots> \<longleftrightarrow> (\<forall>(k, v) \<in> set want. map_of got k = Some v)"
    using assms by (auto simp: map_of_is_SomeI)
  finally show ?thesis .
qed

lemma ClassOf_wrapped: "ClassOf (WrappedError s e) = ClassOf e"
  by simp

lemma Register_keeps: "map_of rg k = Some a \<Longrightarrow> map_of (fst (Register ao rg)) k = Some a"
  by (auto simp: Register_def split: option.splits)

end
