(* ===== verification/Retry.thy ===== *)
theory Retry
  imports Prelude
begin

text \<open>
  The retry policy and the book of attempts, \<^verbatim>\<open>internal/reconcile/retry.go\<close>. Durations are nanoseconds;
  the multiplication of \<open>Backoff\<close> wraps like the \<open>int64\<close> it is. The book is a map from resource IDs to
  the state of their episode.
\<close>

section \<open>Policy\<close>

record retry_policy =
  MaxAttempts :: int
  BaseDelay :: duration
  MaxDelay :: duration

definition DefaultRetryPolicy :: retry_policy where
  "DefaultRetryPolicy = \<lparr>MaxAttempts = 4, BaseDelay = 1 * second, MaxDelay = 30 * second\<rparr>"

definition sanitized :: "retry_policy \<Rightarrow> retry_policy" where
  "sanitized p =
     (let p1 = (if BaseDelay p \<le> 0 then p\<lparr>BaseDelay := BaseDelay DefaultRetryPolicy\<rparr> else p);
          p2 = (if MaxDelay p1 < BaseDelay p1 then p1\<lparr>MaxDelay := MaxDelay DefaultRetryPolicy\<rparr> else p1)
      in if MaxAttempts p2 \<le> 0 then p2\<lparr>MaxAttempts := MaxAttempts DefaultRetryPolicy\<rparr> else p2)"

definition maxShift :: int where "maxShift = 20"

definition Backoff :: "retry_policy \<Rightarrow> int \<Rightarrow> duration" where
  "Backoff p0 n0 =
     (let p = sanitized p0;
          n = (if n0 < 1 then 1 else n0);
          shift = (if n - 1 > maxShift then maxShift else n - 1);
          d = wrap64 (BaseDelay p * 2 ^ nat shift)
      in if d > MaxDelay p then MaxDelay p else d)"

section \<open>The attempt book\<close>

record attempt_state =
  gen :: int
  attempts :: int
  next_due :: go_time

type_synonym book = "(string, attempt_state) gomap"

definition newAttemptBook :: book where
  "newAttemptBook = []"

definition fresh_attempt :: "int \<Rightarrow> attempt_state" where
  "fresh_attempt g = \<lparr>gen = g, attempts = 0, next_due = 0\<rparr>"

text \<open>The recorded state of an episode, or a new one when there is none for this generation.\<close>

definition episode :: "string \<Rightarrow> int \<Rightarrow> book \<Rightarrow> attempt_state" where
  "episode i g b =
     (case map_of b i of None \<Rightarrow> fresh_attempt g | Some st \<Rightarrow> if gen st \<noteq> g then fresh_attempt g else st)"

definition begin_episode :: "string \<Rightarrow> int \<Rightarrow> book \<Rightarrow> book" where
  "begin_episode i g b =
     (case map_of b i of
        None \<Rightarrow> AList.update i (fresh_attempt g) b
      | Some st \<Rightarrow> if gen st \<noteq> g then AList.update i (fresh_attempt g) b else b)"

definition record_attempt :: "string \<Rightarrow> int \<Rightarrow> book \<Rightarrow> book \<times> int" where
  "record_attempt i g b =
     (let st = episode i g b; n = wrap64 (attempts st + 1) in (AList.update i (st\<lparr>attempts := n\<rparr>) b, n))"

definition schedule_retry :: "go_time \<Rightarrow> string \<Rightarrow> int \<Rightarrow> duration \<Rightarrow> book \<Rightarrow> book" where
  "schedule_retry now i g delay b = AList.update i ((episode i g b)\<lparr>next_due := now + delay\<rparr>) b"

definition due :: "go_time \<Rightarrow> string \<Rightarrow> int \<Rightarrow> book \<Rightarrow> bool" where
  "due now i g b =
     (case map_of b i of None \<Rightarrow> True | Some st \<Rightarrow> if gen st \<noteq> g then True else \<not> now < next_due st)"

definition clear_episode :: "string \<Rightarrow> book \<Rightarrow> book" where
  "clear_episode i b = AList.delete i b"

section \<open>Printing durations\<close>

text \<open>\<open>time.Duration.String\<close>: the fraction without trailing zeros, then the unit.\<close>

definition trim_zeros :: "string \<Rightarrow> string" where
  "trim_zeros s = rev (dropWhile (\<lambda>c. c = CHR ''0'') (rev s))"

definition pad_left :: "nat \<Rightarrow> string \<Rightarrow> string" where
  "pad_left n s = replicate (n - length s) (CHR ''0'') @ s"

definition with_fraction :: "nat \<Rightarrow> nat \<Rightarrow> string" where
  "with_fraction digits v =
     (let frac = trim_zeros (pad_left digits (dec (v mod 10 ^ digits)))
      in dec (v div 10 ^ digits) @ (if v mod 10 ^ digits = 0 then [] else ''.'' @ frac))"

definition duration_string :: "duration \<Rightarrow> string" where
  "duration_string d =
     (let u = nat \<bar>d\<bar>; sign = (if d < 0 then ''-'' else []);
          secs = u div 1000000000
      in sign @
         (if u = 0 then ''0s''
          else if u < 1000 then dec u @ ''ns''
          else if u < 1000000 then with_fraction 3 u @ [CHR 0xC2, CHR 0xB5] @ ''s''
          else if u < 1000000000 then with_fraction 6 u @ ''ms''
          else
            (if secs \<ge> 3600 then dec (secs div 3600) @ ''h'' else []) @
            (if secs \<ge> 60 then dec (secs div 60 mod 60) @ ''m'' else []) @
            with_fraction 9 (u - (secs div 60) * 60000000000) @ ''s''))"

section \<open>Lemmas\<close>

lemma sanitized_pos: "0 < BaseDelay (sanitized p)" "0 < MaxAttempts (sanitized p)" "0 < MaxDelay (sanitized p)"
  by (auto simp: sanitized_def Let_def DefaultRetryPolicy_def)

text \<open>No overflow up to base delays of \<open>2^42\<close> nanoseconds (73 minutes).\<close>

lemma Backoff_formula:
  assumes "BaseDelay (sanitized p) \<le> 2 ^ 42"
  shows "Backoff p n = min (MaxDelay (sanitized p)) (BaseDelay (sanitized p) * 2 ^ nat (min 20 (max 0 (n - 1))))"
proof -
  let ?s = "nat (min 20 (max 0 (n - 1)))"
  have "(2 :: int) ^ ?s \<le> 2 ^ 20" by (intro power_increasing) auto
  then have "BaseDelay (sanitized p) * 2 ^ ?s \<le> 2 ^ 42 * 2 ^ 20"
    using assms sanitized_pos(1) [of p] by (intro mult_mono) auto
  moreover have "0 < BaseDelay (sanitized p) * 2 ^ ?s" using sanitized_pos(1) [of p] by simp
  ultimately have "int64_range (BaseDelay (sanitized p) * 2 ^ ?s)" by (simp add: int64_range_def)
  then have w: "wrap64 (BaseDelay (sanitized p) * 2 ^ ?s) = BaseDelay (sanitized p) * 2 ^ ?s" by simp
  have "nat (if (if n < 1 then 1 else n) - 1 > maxShift then maxShift else (if n < 1 then 1 else n) - 1) = ?s"
    by (auto simp: maxShift_def)
  then show ?thesis using w by (simp add: Backoff_def Let_def min_def)
qed

lemma record_attempt_result:
  "map_of (fst (record_attempt i g b)) j =
     (if i = j then Some ((episode i g b)\<lparr>attempts := wrap64 (attempts (episode i g b) + 1)\<rparr>) else map_of b j)"
  "snd (record_attempt i g b) = wrap64 (attempts (episode i g b) + 1)"
  by (simp_all add: record_attempt_def Let_def)

lemma gen_episode [simp]: "gen (episode i g b) = g"
  by (auto simp: episode_def fresh_attempt_def split: option.splits)

lemma episode_begin [simp]: "episode i g (begin_episode i g b) = episode i g b"
  by (auto simp: episode_def begin_episode_def fresh_attempt_def split: option.splits)

end
