(* ===== verification/Reconcile.thy ===== *)
theory Reconcile
  imports Store Bus Provider Retry
begin

text \<open>
  The reconciler, \<^verbatim>\<open>internal/reconcile\<close> (\<open>reconcile.go\<close>, \<open>actuate.go\<close>, \<open>drift.go\<close>): the scan that queues what has
  not converged, the worker step, the status-only flow, the actuated flow with its retry budget, and
  the drift pass. A pass is a function on the reconciler's state; the readings of clock and random
  source it consumes are numbered by \<open>xTick\<close>. Logging, spans and metrics are left out.
\<close>

section \<open>State\<close>

record 'w recon_options =
  xInterval :: duration
  xConcurrency :: int
  xDriftInterval :: duration
  xActuators :: "'w actuator option list"
  xRetryDefaults :: "retry_policy option"
  xRetryPolicies :: "(string, retry_policy) gomap"

record 'w recon_config =
  cfgOptions :: "'w recon_options"
  cfgActuators :: "'w registry"
  cfgCancelled :: bool          \<comment> \<open>\<open>ctx.Err() != nil\<close>: the daemon is shutting down\<close>
  cfgIO :: "nat \<Rightarrow> io"

record 'w recon =
  xStore :: store
  xBus :: "nat bus"
  xQueue :: "string list"
  xBook :: book
  xClaims :: "string list"
  xWorld :: 'w
  xTick :: nat

definition queue_cap :: nat where "queue_cap = 128"

definition registerActuators :: "'w actuator option list \<Rightarrow> 'w registry \<Rightarrow> 'w registry" where
  "registerActuators acts rg = fold (\<lambda>a rg. case a of None \<Rightarrow> rg | Some x \<Rightarrow> fst (Register (Some x) rg)) acts rg"

definition normalize :: "'w recon_options \<Rightarrow> 'w recon_options" where
  "normalize o' =
     o'\<lparr>xInterval := (if xInterval o' \<le> 0 then 30 * second else xInterval o'),
        xConcurrency := (if xConcurrency o' \<le> 0 then 2 else xConcurrency o'),
        xDriftInterval := (if xDriftInterval o' \<le> 0 then 60 * second else xDriftInterval o')\<rparr>"

definition NewReconciler :: "(nat \<Rightarrow> io) \<Rightarrow> 'w recon_options \<Rightarrow> store \<Rightarrow> nat bus \<Rightarrow> 'w \<Rightarrow> 'w recon_config \<times> 'w recon" where
  "NewReconciler ios o' s b w =
     (\<lparr>cfgOptions = normalize o', cfgActuators = registerActuators (xActuators o') NewRegistry,
       cfgCancelled = False, cfgIO = ios\<rparr>,
      \<lparr>xStore = s, xBus = b, xQueue = [], xBook = newAttemptBook, xClaims = [], xWorld = w, xTick = 0\<rparr>)"

definition now :: "'w recon_config \<Rightarrow> 'w recon \<Rightarrow> go_time" where
  "now cfg r = ioNow (cfgIO cfg (xTick r))"

section \<open>Shared steps\<close>

definition set_status ::
    "'w recon_config \<Rightarrow> string \<Rightarrow> string \<Rightarrow> string \<Rightarrow> write_options \<Rightarrow> 'w recon \<Rightarrow> 'w recon \<times> go_error option" where
  "set_status cfg i phase msg actor r =
     (let (s, e) = UpdateStatus (cfgIO cfg (xTick r)) i phase msg actor (xStore r)
      in (r\<lparr>xStore := s, xTick := xTick r + 1\<rparr>, e))"

definition publish_event :: "'w recon_config \<Rightarrow> event \<Rightarrow> 'w recon \<Rightarrow> 'w recon" where
  "publish_event cfg e r = r\<lparr>xBus := fst (Publish (now cfg r) e (xBus r)), xTick := xTick r + 1\<rparr>"

definition append_audit :: "'w recon_config \<Rightarrow> audit_entry \<Rightarrow> 'w recon \<Rightarrow> 'w recon" where
  "append_audit cfg e r =
     r\<lparr>xStore := fst (AppendAudit (cfgIO cfg (xTick r)) e (xStore r)), xTick := xTick r + 1\<rparr>"

definition emit :: "'w recon_config \<Rightarrow> resource \<Rightarrow> string \<Rightarrow> 'w recon \<Rightarrow> 'w recon" where
  "emit cfg res phase r =
     publish_event cfg
       \<lparr>eID = [], eTime = 0, eType = EventStatusChanged, eSubject = [], eOrg = rOrg res, eProject = rProject res,
        eEnv = rEnv res, eKind = rKind res, eName = rName res, eResourceID = rID res, eGeneration = 0,
        ePhase = phase, eActor = ''reconciler'', eData = None\<rparr> r"

definition itoa :: "int \<Rightarrow> string" where
  "itoa n = (if n = 0 then ''0'' else if n < 0 then [] else dec (nat n))"

definition send :: "string \<Rightarrow> 'w recon \<Rightarrow> 'w recon" where
  "send i r = (if length (xQueue r) < queue_cap then r\<lparr>xQueue := xQueue r @ [i]\<rparr> else r)"

definition Trigger :: "string \<Rightarrow> 'w recon \<Rightarrow> 'w recon" where
  "Trigger i r = send i r"

definition evaluate :: "resource \<Rightarrow> string \<times> string" where
  "evaluate res =
     (if EqualFold (rKind res) KindSecret then (PhaseReady, ''secret sealed and mounted'')
      else (PhaseReady, ''converged to desired spec''))"

section \<open>Actuation\<close>

definition actorName :: string where "actorName = ''reconciler''"
definition driftCause :: string where "driftCause = ''drift''"

definition reconciler_actor :: "string \<Rightarrow> write_options" where
  "reconciler_actor cause = \<lparr>wActor = actorName, wReason = cause\<rparr>"

definition policyFor :: "'w recon_config \<Rightarrow> string \<Rightarrow> retry_policy" where
  "policyFor cfg kind =
     (case map_of (xRetryPolicies (cfgOptions cfg)) kind of
        Some p \<Rightarrow> sanitized p
      | None \<Rightarrow>
          (case xRetryDefaults (cfgOptions cfg) of Some p \<Rightarrow> sanitized p | None \<Rightarrow> DefaultRetryPolicy))"

definition tryClaim :: "string \<Rightarrow> 'w recon \<Rightarrow> 'w recon \<times> bool" where
  "tryClaim i r = (if i \<in> set (xClaims r) then (r, False) else (r\<lparr>xClaims := i # xClaims r\<rparr>, True))"

definition release :: "string \<Rightarrow> 'w recon \<Rightarrow> 'w recon" where
  "release i r = r\<lparr>xClaims := removeAll i (xClaims r)\<rparr>"

definition providerName :: "'w actuator \<Rightarrow> string" where
  "providerName act = (if cName (actCaps act) \<noteq> [] then cName (actCaps act) else ''provider'')"

definition externalRef :: "result \<Rightarrow> string" where
  "externalRef t =
     (if tExternalID t \<noteq> [] then ''external id '' @ tExternalID t
      else if tMessage t \<noteq> [] then tMessage t else ''no external id'')"

definition clampMessage :: "string \<Rightarrow> string" where
  "clampMessage msg =
     (if length msg \<le> 512 then msg
      else TrimSuffix (take 512 msg) '' '' @ [CHR 0xE2, CHR 0x80, CHR 0xA6])"

definition planFor :: "'w actuator \<Rightarrow> resource \<Rightarrow> observed \<Rightarrow> act_error + plan" where
  "planFor act res obs =
     (if \<not> oExists obs then actPlan act None res
      else if actDesiredFields act \<noteq> None then
        actPlan act (Some ((DeepCopy res)\<lparr>rSpec := Some (FieldsToSpec (oFields obs))\<rparr>)) res
      else if sObservedGen (rStatus res) < rGeneration res then actPlan act None res
      else Inr \<lparr>pKind = rKind res, pAction = ActionNoop, pChanges = [], pDesired = res\<rparr>)"

definition settled_message :: "'w actuator \<Rightarrow> plan \<Rightarrow> result \<Rightarrow> string \<Rightarrow> string" where
  "settled_message act plan t cause =
     (if pAction plan = ActionNoop then
        ''converged to desired spec (actuated by '' @ providerName act @ '': no changes)''
      else if cause = driftCause \<and> pAction plan = ActionUpdate then
        ''drift corrected: re-applied desired spec (actuated by '' @ providerName act @ '', '' @ externalRef t @ '')''
      else ''converged to desired spec (actuated by '' @ providerName act @ '', '' @ externalRef t @ '')'')"

definition actuationSettled ::
    "'w recon_config \<Rightarrow> resource \<Rightarrow> 'w actuator \<Rightarrow> plan \<Rightarrow> result \<Rightarrow> string \<Rightarrow> 'w recon \<Rightarrow> 'w recon" where
  "actuationSettled cfg res act plan t cause r =
     (let (r1, e) = set_status cfg (rID res) PhaseReady (clampMessage (settled_message act plan t cause))
                      (reconciler_actor cause) r;
          r2 = emit cfg res PhaseReady r1
      in r2\<lparr>xBook := clear_episode (rID res) (xBook r2)\<rparr>)"

text \<open>The outcomes of a failed attempt: permanent, budget spent, or retry after the backoff.\<close>

definition fail_terminal ::
    "'w recon_config \<Rightarrow> resource \<Rightarrow> string \<Rightarrow> string \<Rightarrow> 'w recon \<Rightarrow> 'w recon" where
  "fail_terminal cfg res msg cause r =
     (let (r1, e) = set_status cfg (rID res) PhaseFailed (clampMessage msg) (reconciler_actor cause) r;
          r2 = emit cfg res PhaseFailed r1
      in r2\<lparr>xBook := clear_episode (rID res) (xBook r2)\<rparr>)"

definition actuationFailed ::
    "'w recon_config \<Rightarrow> resource \<Rightarrow> 'w actuator \<Rightarrow> act_error \<Rightarrow> string \<Rightarrow> 'w recon \<Rightarrow> 'w recon" where
  "actuationFailed cfg res act err cause r0 =
     (let cls = ClassOf err;
          (b, n) = record_attempt (rID res) (rGeneration res) (xBook r0);
          r = r0\<lparr>xBook := b\<rparr>;
          policy = policyFor cfg (rKind res)
      in if cfgCancelled cfg then r
         else if cls = Permanent then
           fail_terminal cfg res
             (''actuation failed permanently (attempt '' @ dec_int n @ '', '' @ class_string cls @ ''): '' @ Error err) cause r
         else if n \<ge> MaxAttempts policy then
           fail_terminal cfg res
             (''actuation failed after '' @ dec_int n @ '' attempts ('' @ class_string cls @ ''): '' @ Error err) cause r
         else
           let delay = Backoff policy n;
               r1 = r\<lparr>xBook := schedule_retry (now cfg r) (rID res) (rGeneration res) delay (xBook r)\<rparr>;
               (r2, e) = set_status cfg (rID res) PhaseDegraded
                  (clampMessage (''actuation degraded, retry '' @ dec_int n @ ''/'' @ dec_int (MaxAttempts policy) @ '' in '' @
                     duration_string delay @ '' ('' @ class_string cls @ ''): '' @ Error err))
                  (reconciler_actor cause) r1
           in emit cfg res PhaseDegraded r2)"

definition runActuation ::
    "'w recon_config \<Rightarrow> resource \<Rightarrow> 'w actuator \<Rightarrow> observed \<Rightarrow> string \<Rightarrow> 'w recon \<Rightarrow> 'w recon" where
  "runActuation cfg res act obs cause r =
     (case planFor act res obs of
        Inl err \<Rightarrow> actuationFailed cfg res act err cause r
      | Inr plan \<Rightarrow>
          if pAction plan = ActionNoop then
            actuationSettled cfg res act plan \<lparr>tAction = ActionNoop, tExternalID = [], tMessage = []\<rparr> cause r
          else
            let (w, out) = actApply act plan (xWorld r); r1 = r\<lparr>xWorld := w\<rparr>
            in case out of
                 Inl err \<Rightarrow> actuationFailed cfg res act err cause r1
               | Inr t \<Rightarrow> actuationSettled cfg res act plan t cause r1)"

text \<open>The part of \<open>reconcileActuated\<close> between claim and release.\<close>

definition actuate_claimed :: "'w recon_config \<Rightarrow> 'w actuator \<Rightarrow> resource \<Rightarrow> string \<Rightarrow> 'w recon \<Rightarrow> 'w recon" where
  "actuate_claimed cfg act res cause r =
     (if sPhase (rStatus res) = PhaseFailed \<and> sObservedGen (rStatus res) \<ge> rGeneration res then r
      else if sPhase (rStatus res) = PhaseReady \<and> sObservedGen (rStatus res) \<ge> rGeneration res then r
      else if sPhase (rStatus res) = PhaseDegraded \<and> \<not> due (now cfg r) (rID res) (rGeneration res) (xBook r) then r
      else
        let r1 = r\<lparr>xBook := begin_episode (rID res) (rGeneration res) (xBook r)\<rparr>
        in case (if sPhase (rStatus res) = PhasePending
                 then let (r2, e) = set_status cfg (rID res) PhaseProvisioning
                                      ''provisioning underlying infrastructure'' (reconciler_actor cause) r1
                      in case e of
                           Some x \<Rightarrow> Inl r2
                         | None \<Rightarrow> Inr (emit cfg res PhaseProvisioning r2,
                                       res\<lparr>rStatus := (rStatus res)\<lparr>sPhase := PhaseProvisioning\<rparr>\<rparr>)
                 else Inr (r1, res)) of
             Inl r2 \<Rightarrow> r2
           | Inr (r2, res2) \<Rightarrow>
               (case actInspect act (RefFor res2) (xWorld r2) of
                  Inl err \<Rightarrow> actuationFailed cfg res2 act err cause r2
                | Inr obs \<Rightarrow> runActuation cfg res2 act obs cause r2))"

definition reconcileActuated :: "'w recon_config \<Rightarrow> resource \<Rightarrow> string \<Rightarrow> 'w recon \<Rightarrow> 'w recon" where
  "reconcileActuated cfg res cause r =
     (let (r1, ok) = tryClaim (rID res) r
      in if \<not> ok then r
         else case LookupKind (cfgActuators cfg) (rKind res) of
           None \<Rightarrow> release (rID res) r1
         | Some act \<Rightarrow> release (rID res) (actuate_claimed cfg act res cause r1))"

section \<open>One resource\<close>

definition reconcileOne :: "'w recon_config \<Rightarrow> string \<Rightarrow> string \<Rightarrow> 'w recon \<Rightarrow> 'w recon" where
  "reconcileOne cfg i cause r =
     (case GetResource i (xStore r) of
        Inl e \<Rightarrow> r
      | Inr res \<Rightarrow>
          if LookupKind (cfgActuators cfg) (rKind res) \<noteq> None then reconcileActuated cfg res cause r
          else if sObservedGen (rStatus res) \<ge> rGeneration res \<and> sPhase (rStatus res) \<noteq> PhasePending \<and>
                  sPhase (rStatus res) \<noteq> PhaseProvisioning then r
          else if sPhase (rStatus res) = PhasePending then
            emit cfg res PhaseProvisioning
              (fst (set_status cfg i PhaseProvisioning ''provisioning underlying infrastructure'' (reconciler_actor cause) r))
          else if sPhase (rStatus res) = PhaseProvisioning then
            (let (phase, msg) = evaluate res
             in emit cfg res phase (fst (set_status cfg i phase msg (reconciler_actor cause) r)))
          else
            emit cfg res PhaseReady
              (fst (set_status cfg i PhaseReady (''observed generation '' @ itoa (rGeneration res)) (reconciler_actor cause) r)))"

text \<open>A worker takes the oldest trigger.\<close>

definition worker_step :: "'w recon_config \<Rightarrow> 'w recon \<Rightarrow> 'w recon" where
  "worker_step cfg r =
     (case xQueue r of [] \<Rightarrow> r | i # is \<Rightarrow> reconcileOne cfg i ''triggered'' (r\<lparr>xQueue := is\<rparr>))"

section \<open>The scan\<close>

definition scanPageLimit :: int where "scanPageLimit = 200"
definition maxScanPages :: nat where "maxScanPages = 10000"

definition scan_options :: "string \<Rightarrow> list_options" where
  "scan_options kind = \<lparr>oOrg = [], oProject = [], oEnv = [], oKind = kind, oLimit = scanPageLimit, oCursor = []\<rparr>"

definition needs_reconcile :: "'w recon_config \<Rightarrow> 'w recon \<Rightarrow> resource \<Rightarrow> bool" where
  "needs_reconcile cfg r res \<longleftrightarrow>
     sObservedGen (rStatus res) < rGeneration res \<or> sPhase (rStatus res) = PhasePending \<or>
     sPhase (rStatus res) = PhaseProvisioning \<or>
     (sPhase (rStatus res) = PhaseDegraded \<and> LookupKind (cfgActuators cfg) (rKind res) \<noteq> None \<and>
      due (now cfg r) (rID res) (rGeneration res) (xBook r))"

definition scan_one :: "'w recon_config \<Rightarrow> resource \<Rightarrow> 'w recon \<Rightarrow> 'w recon" where
  "scan_one cfg res r = (if needs_reconcile cfg r res then send (rID res) r else r)"

text \<open>The page walk: the first argument counts the pages left under the bound.\<close>

fun scan_pages :: "nat \<Rightarrow> 'w recon_config \<Rightarrow> string list \<Rightarrow> string \<Rightarrow> 'w recon \<Rightarrow> 'w recon" where
  "scan_pages 0 cfg seen c r = r"
| "scan_pages (Suc n) cfg seen c r =
     (case ListResources ((scan_options [])\<lparr>oCursor := c\<rparr>) (xStore r) of
        Inl e \<Rightarrow> r
      | Inr (page, next') \<Rightarrow>
          let r1 = fold (scan_one cfg) page r
          in if next' = [] then r1
             else if next' \<in> set seen then r1
             else scan_pages n cfg (next' # seen) next' r1)"

definition scan :: "'w recon_config \<Rightarrow> 'w recon \<Rightarrow> 'w recon" where
  "scan cfg r = scan_pages maxScanPages cfg [] [] r"

section \<open>Drift\<close>

definition driftPrefix :: string where "driftPrefix = ''Drifted: ''"
definition eventDriftDetected :: string where "eventDriftDetected = ''drift_detected''"
definition auditDriftDetected :: string where "auditDriftDetected = ''drift_detected''"
definition driftClearReason :: string where "driftClearReason = ''drift resolved on re-inspect''"

definition drift_audit :: "resource \<Rightarrow> string \<Rightarrow> string \<Rightarrow> audit_entry" where
  "drift_audit res action reason =
     \<lparr>aID = [], aTime = 0, aActor = actorName, aAction = action, aResourceID = rID res, aKind = rKind res,
      aLogicalKey = LogicalKey res, aGeneration = rGeneration res, aReason = reason\<rparr>"

definition clearDriftAnnotation :: "'w recon_config \<Rightarrow> resource \<Rightarrow> 'w actuator \<Rightarrow> 'w recon \<Rightarrow> 'w recon" where
  "clearDriftAnnotation cfg res act r =
     (if \<not> HasPrefix (sMessage (rStatus res)) driftPrefix then r
      else append_audit cfg (drift_audit res ''drift_resolved'' driftClearReason)
             (fst (set_status cfg (rID res) PhaseReady
                ((''drift resolved: converged to desired spec (actuated by '' @ providerName act) @ '')'')
                \<lparr>wActor = actorName, wReason = driftClearReason\<rparr> r)))"

definition reportDrift ::
    "'w recon_config \<Rightarrow> 'w actuator \<Rightarrow> resource \<Rightarrow> observed \<Rightarrow> string list \<Rightarrow> 'w recon \<Rightarrow> 'w recon" where
  "reportDrift cfg act res obs drift r =
     (let driftStr = Join '', '' drift;
          r1 = fst (set_status cfg (rID res) PhaseReady (driftPrefix @ driftStr)
                  \<lparr>wActor = actorName, wReason = ''drift detected''\<rparr> r);
          r2 = append_audit cfg (drift_audit res auditDriftDetected driftStr) r1;
          r3 = publish_event cfg
                 \<lparr>eID = [], eTime = 0, eType = eventDriftDetected, eSubject = [], eOrg = rOrg res, eProject = rProject res,
                  eEnv = rEnv res, eKind = rKind res, eName = rName res, eResourceID = rID res,
                  eGeneration = rGeneration res, ePhase = sPhase (rStatus res), eActor = actorName,
                  eData = Some [(''fields'', JStrs drift)]\<rparr> r2;
          r4 = r3\<lparr>xBook := begin_episode (rID res) (rGeneration res) (xBook r3)\<rparr>
      in runActuation cfg res act obs driftCause r4)"

definition checkDrift ::
    "'w recon_config \<Rightarrow> 'w actuator \<Rightarrow> (jobj option \<Rightarrow> act_error + (string, string) gomap) \<Rightarrow> resource \<Rightarrow> 'w recon \<Rightarrow> 'w recon" where
  "checkDrift cfg act mapper res r =
     (case actInspect act (RefFor res) (xWorld r) of
        Inl e \<Rightarrow> r
      | Inr obs \<Rightarrow>
          (case mapper (rSpec res) of
             Inl e \<Rightarrow> Trigger (rID res) r
           | Inr want \<Rightarrow>
               let drift = (if \<not> oExists obs then [''external object missing''] else CompareFields want (oFields obs))
               in if drift = [] then clearDriftAnnotation cfg res act r
                  else reportDrift cfg act res obs drift r))"

definition drift_one ::
    "'w recon_config \<Rightarrow> 'w actuator \<Rightarrow> (jobj option \<Rightarrow> act_error + (string, string) gomap) \<Rightarrow> resource \<Rightarrow> 'w recon \<Rightarrow> 'w recon" where
  "drift_one cfg act mapper res r =
     (if sPhase (rStatus res) \<noteq> PhaseReady \<or> sObservedGen (rStatus res) < rGeneration res then r
      else let (r1, ok) = tryClaim (rID res) r
           in if \<not> ok then r else release (rID res) (checkDrift cfg act mapper res r1))"

text \<open>A cancelled context ends the page after the first resource that was checked.\<close>

fun drift_page ::
    "'w recon_config \<Rightarrow> 'w actuator \<Rightarrow> (jobj option \<Rightarrow> act_error + (string, string) gomap) \<Rightarrow> resource list \<Rightarrow> 'w recon \<Rightarrow> 'w recon \<times> bool" where
  "drift_page cfg act mapper [] r = (r, False)"
| "drift_page cfg act mapper (res # rs) r =
     (let checked = sPhase (rStatus res) = PhaseReady \<and> \<not> sObservedGen (rStatus res) < rGeneration res \<and>
                    rID res \<notin> set (xClaims r);
          r1 = drift_one cfg act mapper res r
      in if checked \<and> cfgCancelled cfg then (r1, True) else drift_page cfg act mapper rs r1)"

fun drift_pages ::
    "nat \<Rightarrow> 'w recon_config \<Rightarrow> 'w actuator \<Rightarrow> (jobj option \<Rightarrow> act_error + (string, string) gomap) \<Rightarrow> string list \<Rightarrow> string \<Rightarrow> 'w recon \<Rightarrow> 'w recon" where
  "drift_pages 0 cfg act mapper seen c r = r"
| "drift_pages (Suc n) cfg act mapper seen c r =
     (case ListResources ((scan_options (actKind act))\<lparr>oCursor := c\<rparr>) (xStore r) of
        Inl e \<Rightarrow> r
      | Inr (page, next') \<Rightarrow>
          let (r1, stop) = drift_page cfg act mapper page r
          in if stop then r1
             else if next' = [] then r1
             else if next' \<in> set seen then r1
             else drift_pages n cfg act mapper (next' # seen) next' r1)"

definition driftKind ::
    "'w recon_config \<Rightarrow> 'w actuator \<Rightarrow> (jobj option \<Rightarrow> act_error + (string, string) gomap) \<Rightarrow> 'w recon \<Rightarrow> 'w recon" where
  "driftKind cfg act mapper r = drift_pages maxScanPages cfg act mapper [] [] r"

fun drift_kinds :: "'w recon_config \<Rightarrow> string list \<Rightarrow> 'w recon \<Rightarrow> 'w recon" where
  "drift_kinds cfg [] r = r"
| "drift_kinds cfg (kind # kinds) r =
     (case LookupKind (cfgActuators cfg) kind of
        None \<Rightarrow> drift_kinds cfg kinds r
      | Some act \<Rightarrow>
          if \<not> cDriftDetection (actCaps act) then drift_kinds cfg kinds r
          else case actDesiredFields act of
            None \<Rightarrow> drift_kinds cfg kinds r
          | Some mapper \<Rightarrow>
              let r1 = driftKind cfg act mapper r
              in if cfgCancelled cfg then r1 else drift_kinds cfg kinds r1)"

definition driftPass :: "'w recon_config \<Rightarrow> 'w recon \<Rightarrow> 'w recon" where
  "driftPass cfg r = drift_kinds cfg (RegisteredKinds (cfgActuators cfg)) r"

end
