(* ===== verification/Reconcile_Laws.thy ===== *)
theory Reconcile_Laws
  imports Reconcile Store_Laws Bus_Laws
begin

text \<open>
  Lemmas of the reconciler: what its steps leave alone (\<open>desired\<close>: everything of a resource but its
  status), the effect of one pass on the status-only and on the actuated flow, the retry schedule, the
  scan as a fold over the listing (through the paging library), and the quiescence of the drift pass.
\<close>


section \<open>Frames\<close>

lemma emit_frame [simp, frame_simps]:
  "xStore (emit cfg res ph r) = xStore r" "xBook (emit cfg res ph r) = xBook r"
  "xWorld (emit cfg res ph r) = xWorld r" "xClaims (emit cfg res ph r) = xClaims r"
  "xQueue (emit cfg res ph r) = xQueue r"
  by (simp_all add: emit_def publish_event_def)

lemma publish_event_frame [simp, frame_simps]:
  "xStore (publish_event cfg e r) = xStore r" "xBook (publish_event cfg e r) = xBook r"
  "xWorld (publish_event cfg e r) = xWorld r" "xClaims (publish_event cfg e r) = xClaims r"
  by (simp_all add: publish_event_def)

lemma set_status_frame [simp, frame_simps]:
  "xBook (fst (set_status cfg i ph m a r)) = xBook r" "xWorld (fst (set_status cfg i ph m a r)) = xWorld r"
  "xClaims (fst (set_status cfg i ph m a r)) = xClaims r" "xQueue (fst (set_status cfg i ph m a r)) = xQueue r"
  "xStore (fst (set_status cfg i ph m a r)) = fst (UpdateStatus (cfgIO cfg (xTick r)) i ph m a (xStore r))"
  "snd (set_status cfg i ph m a r) = snd (UpdateStatus (cfgIO cfg (xTick r)) i ph m a (xStore r))"
  by (simp_all add: set_status_def case_prod_beta)

lemma append_audit_frame [simp, frame_simps]:
  "xBook (append_audit cfg e r) = xBook r" "xClaims (append_audit cfg e r) = xClaims r"
  "xStore (append_audit cfg e r) = fst (AppendAudit (cfgIO cfg (xTick r)) e (xStore r))"
  by (simp_all add: append_audit_def)

section \<open>Status writes keep what users own\<close>

text \<open>The part of a resource its users own.\<close>

definition desired :: "resource \<Rightarrow> string \<times> string \<times> int \<times> jobj option \<times> (string \<times> string) list option \<times> go_time" where
  "desired q = (LogicalKey q, rKind q, rGeneration q, rSpec q, rLabels q, rCreatedAt q)"

definition same_desired :: "store \<Rightarrow> store \<Rightarrow> bool" where
  "same_desired s s' \<longleftrightarrow>
     (store_inv s \<longrightarrow> store_inv s') \<and>
     (\<forall>i. map_option desired (map_of (byID s') i) = map_option desired (map_of (byID s) i))"

lemma same_desired_refl [simp]: "same_desired s s"
  by (simp add: same_desired_def)

lemma same_desired_trans [trans]: "same_desired s t \<Longrightarrow> same_desired t u \<Longrightarrow> same_desired s u"
  by (simp add: same_desired_def)

lemma desired_simps [simp]:
  "desired (q\<lparr>rStatus := st\<rparr>) = desired q" "desired (q\<lparr>rUpdatedAt := t\<rparr>) = desired q"
  by (simp_all add: desired_def)

lemma UpdateStatus_desired: "same_desired s (fst (UpdateStatus io i ph m a s))"
  unfolding same_desired_def
  by (auto simp: status_inv) (auto simp: UpdateStatus_def Let_def split: option.splits)

lemma AppendAudit_desired: "same_desired s (fst (AppendAudit io e s))"
  by (auto simp: same_desired_def AppendAudit_def Let_def store_inv_def)

lemma keeps_set_status: "same_desired (xStore r) (xStore (fst (set_status cfg i ph m a r)))"
  by (simp add: UpdateStatus_desired)

lemma keeps_settled: "same_desired (xStore r) (xStore (actuationSettled cfg res act plan t cause r))"
  by (simp add: actuationSettled_def Let_def case_prod_beta keeps_set_status del: set_status_frame)

lemma keeps_terminal: "same_desired (xStore r) (xStore (fail_terminal cfg res m cause r))"
  by (simp add: fail_terminal_def Let_def case_prod_beta keeps_set_status del: set_status_frame)

lemma keeps_failed: "same_desired (xStore r) (xStore (actuationFailed cfg res act err cause r))"
proof -
  have t: "same_desired (xStore r) (xStore (fail_terminal cfg res m cause (r\<lparr>xBook := b\<rparr>)))" for m b
    using keeps_terminal [of "r\<lparr>xBook := b\<rparr>"] by simp
  show ?thesis
    by (simp add: actuationFailed_def Let_def case_prod_beta t UpdateStatus_desired)
qed

lemma keeps_run: "same_desired (xStore r) (xStore (runActuation cfg res act obs cause r))"
proof -
  have "same_desired (xStore r) (xStore (actuationFailed cfg res act err cause (r\<lparr>xWorld := w\<rparr>)))"
    "same_desired (xStore r) (xStore (actuationSettled cfg res act plan t cause (r\<lparr>xWorld := w\<rparr>)))" for w err plan t
    using keeps_failed [of "r\<lparr>xWorld := w\<rparr>"] keeps_settled [of "r\<lparr>xWorld := w\<rparr>"] by simp_all
  then show ?thesis
    by (simp add: runActuation_def Let_def case_prod_beta keeps_failed keeps_settled split: sum.split)
qed

lemma keeps_claimed: "same_desired (xStore r) (xStore (actuate_claimed cfg act res cause r))"
proof -
  have f: "same_desired (xStore r) (xStore (actuationFailed cfg res' act err cause r'))"
    "same_desired (xStore r) (xStore (runActuation cfg res' act obs cause r'))"
    if "same_desired (xStore r) (xStore r')" for r' res' err obs
    using that keeps_failed keeps_run same_desired_trans by blast+
  show ?thesis
    by (auto simp: actuate_claimed_def Let_def case_prod_beta UpdateStatus_desired
        split: sum.splits option.splits intro!: f)
qed

lemma claim_frame [simp]:
  "xStore (fst (tryClaim i r)) = xStore r" "xStore (release i r) = xStore r"
  by (simp_all add: tryClaim_def release_def)

lemma keeps_actuated: "same_desired (xStore r) (xStore (reconcileActuated cfg res cause r))"
  using keeps_claimed [of "fst (tryClaim (rID res) r)"]
  by (simp add: reconcileActuated_def Let_def case_prod_beta split: option.split)

lemma keeps_one: "same_desired (xStore r) (xStore (reconcileOne cfg i cause r))"
  by (simp add: reconcileOne_def case_prod_beta keeps_actuated UpdateStatus_desired Let_def split: sum.split)

lemma keeps_worker: "same_desired (xStore r) (xStore (worker_step cfg r))"
proof (cases "xQueue r")
  case (Cons i js)
  then show ?thesis using keeps_one [of "r\<lparr>xQueue := js\<rparr>" cfg i "''triggered''"] by (simp add: worker_step_def)
qed (simp add: worker_step_def)

lemma send_frame [simp]: "xStore (send i r) = xStore r" "xBook (send i r) = xBook r" "xTick (send i r) = xTick r"
  "xClaims (send i r) = xClaims r" "xWorld (send i r) = xWorld r"
  by (simp_all add: send_def)

lemma scan_page_frame [simp]:
  "xStore (fold (scan_one cfg) rs r) = xStore r" "xBook (fold (scan_one cfg) rs r) = xBook r"
  "xTick (fold (scan_one cfg) rs r) = xTick r"
  by (induction rs arbitrary: r) (auto simp: scan_one_def)

lemma scan_pages_store [simp]: "xStore (scan_pages n cfg seen c r) = xStore r"
  by (induction n arbitrary: seen c r) (auto simp: Let_def split: sum.split prod.split)

lemma scan_store [simp]: "xStore (scan cfg r) = xStore r"
  by (simp add: scan_def)

lemma keeps_clear: "same_desired (xStore r) (xStore (clearDriftAnnotation cfg res act r))"
  using same_desired_trans [OF UpdateStatus_desired AppendAudit_desired]
  by (simp add: clearDriftAnnotation_def)

lemma keeps_report: "same_desired (xStore r) (xStore (reportDrift cfg act res obs drift r))"
  unfolding reportDrift_def Let_def
  by (rule same_desired_trans [OF _ keeps_run])
    (simp add: same_desired_trans [OF UpdateStatus_desired AppendAudit_desired])

lemma keeps_check: "same_desired (xStore r) (xStore (checkDrift cfg act mapper res r))"
  by (simp add: checkDrift_def Let_def keeps_clear keeps_report Trigger_def split: sum.split)

lemma keeps_drift_one: "same_desired (xStore r) (xStore (drift_one cfg act mapper res r))"
  using keeps_check [of "fst (tryClaim (rID res) r)"]
  by (simp add: drift_one_def Let_def case_prod_beta)

lemma keeps_drift_page: "same_desired (xStore r) (xStore (fst (drift_page cfg act mapper rs r)))"
  by (induction rs arbitrary: r) (auto simp: Let_def intro: keeps_drift_one same_desired_trans)

lemma keeps_drift_pages: "same_desired (xStore r) (xStore (drift_pages n cfg act mapper seen c r))"
  by (induction n arbitrary: seen c r)
    (auto simp: Let_def case_prod_beta split: sum.split
      intro: keeps_drift_page same_desired_trans [OF keeps_drift_page])

lemma keeps_drift_kinds: "same_desired (xStore r) (xStore (drift_kinds cfg kinds r))"
proof (induction kinds arbitrary: r)
  case (Cons k ks)
  have "same_desired (xStore r) (xStore (drift_kinds cfg ks (driftKind cfg act m r)))" for act m
    using Cons keeps_drift_pages same_desired_trans unfolding driftKind_def by blast
  then show ?case using Cons by (auto simp: Let_def driftKind_def keeps_drift_pages split: option.split)
qed simp


section \<open>What a status write stores\<close>

lemma UpdateStatus_get:
  assumes "index_inv s" "GetResource i s = Inr q"
  shows "snd (UpdateStatus io i ph m a s) = None"
    "\<exists>q'. GetResource i (fst (UpdateStatus io i ph m a s)) = Inr q' \<and> rID q' = i \<and> desired q' = desired q \<and>
       sPhase (rStatus q') = ph \<and> sMessage (rStatus q') = m \<and> sObservedGen (rStatus q') = rGeneration q"
    "j \<noteq> i \<Longrightarrow> GetResource j (fst (UpdateStatus io i ph m a s)) = GetResource j s"
proof -
  have q: "map_of (byID s) i = Some q" "rID q = i" "wf_resource q"
    using assms stored_okD [OF assms(1)] by (auto simp: GetResource_iff stored_ok_def)
  then show "snd (UpdateStatus io i ph m a s) = None" by (simp add: UpdateStatus_def Let_def)
  show "j \<noteq> i \<Longrightarrow> GetResource j (fst (UpdateStatus io i ph m a s)) = GetResource j s"
    using q(1) by (intro GetResource_cong) (simp add: UpdateStatus_def Let_def)
  define st where "st = rStatus q"
  define q' where "q' = (if sPhase st \<noteq> ph \<or> sMessage st \<noteq> m
      then q\<lparr>rStatus := st\<lparr>sPhase := ph, sMessage := m, sUpdatedAt := ioNow io, sObservedGen := rGeneration q\<rparr>, rUpdatedAt := ioNow io\<rparr>
      else q\<lparr>rStatus := st\<lparr>sObservedGen := rGeneration q\<rparr>\<rparr>)"
  have "map_of (byID (fst (UpdateStatus io i ph m a s))) i = Some q'"
    using q(1) by (simp add: UpdateStatus_def Let_def q'_def st_def)
  moreover have "wf_resource q'" using q(3) by (simp add: q'_def)
  ultimately have "GetResource i (fst (UpdateStatus io i ph m a s)) = Inr q'" by (simp add: GetResource_def)
  moreover have "rID q' = i \<and> desired q' = desired q \<and> sPhase (rStatus q') = ph \<and> sMessage (rStatus q') = m \<and>
      sObservedGen (rStatus q') = rGeneration q"
    using q(2) by (simp add: q'_def st_def)
  ultimately show "\<exists>q'. GetResource i (fst (UpdateStatus io i ph m a s)) = Inr q' \<and> rID q' = i \<and> desired q' = desired q \<and>
       sPhase (rStatus q') = ph \<and> sMessage (rStatus q') = m \<and> sObservedGen (rStatus q') = rGeneration q" by blast
qed

lemma desired_fields:
  assumes "desired q' = desired q"
  shows "rKind q' = rKind q" "rGeneration q' = rGeneration q" "rSpec q' = rSpec q" "rLabels q' = rLabels q"
  using assms by (simp_all add: desired_def)

lemma phases_distinct [simp]:
  "PhasePending \<noteq> PhaseProvisioning" "PhasePending \<noteq> PhaseReady" "PhasePending \<noteq> PhaseDegraded" "PhasePending \<noteq> PhaseFailed"
  "PhaseProvisioning \<noteq> PhasePending" "PhaseProvisioning \<noteq> PhaseReady" "PhaseProvisioning \<noteq> PhaseDegraded" "PhaseProvisioning \<noteq> PhaseFailed"
  "PhaseReady \<noteq> PhasePending" "PhaseReady \<noteq> PhaseProvisioning" "PhaseReady \<noteq> PhaseDegraded" "PhaseReady \<noteq> PhaseFailed"
  "PhaseDegraded \<noteq> PhasePending" "PhaseDegraded \<noteq> PhaseProvisioning" "PhaseDegraded \<noteq> PhaseReady" "PhaseDegraded \<noteq> PhaseFailed"
  "PhaseFailed \<noteq> PhasePending" "PhaseFailed \<noteq> PhaseProvisioning" "PhaseFailed \<noteq> PhaseReady" "PhaseFailed \<noteq> PhaseDegraded"
  by (simp_all add: PhasePending_def PhaseProvisioning_def PhaseReady_def PhaseDegraded_def PhaseFailed_def)

section \<open>The status-only flow\<close>

definition converged :: "'w recon \<Rightarrow> string \<Rightarrow> bool" where
  "converged r i \<longleftrightarrow>
     (\<exists>q. GetResource i (xStore r) = Inr q \<and> sPhase (rStatus q) = PhaseReady \<and> sObservedGen (rStatus q) = rGeneration q)"

lemma status_step:
  assumes "store_inv (xStore r)" "GetResource i (xStore r) = Inr q" "LookupKind (cfgActuators cfg) (rKind q) = None"
    "sObservedGen (rStatus q) < rGeneration q \<or> sPhase (rStatus q) = PhasePending \<or> sPhase (rStatus q) = PhaseProvisioning"
  shows "\<exists>q'. GetResource i (xStore (reconcileOne cfg i cause r)) = Inr q' \<and> desired q' = desired q \<and>
     sPhase (rStatus q') = (if sPhase (rStatus q) = PhasePending then PhaseProvisioning else PhaseReady) \<and>
     sObservedGen (rStatus q') = rGeneration q"
proof -
  have i: "index_inv (xStore r)" using assms(1) by (simp add: store_inv_def)
  have u: "\<exists>q'. GetResource i (fst (UpdateStatus io i ph m a (xStore r))) = Inr q' \<and> desired q' = desired q \<and>
      sPhase (rStatus q') = ph \<and> sObservedGen (rStatus q') = rGeneration q" for io ph m a
    using UpdateStatus_get(2) [OF i assms(2)] by blast
  show ?thesis
    using assms u by (auto simp: reconcileOne_def evaluate_def not_le)
qed

lemma converged_fixpoint:
  assumes "converged r i" "GetResource i (xStore r) = Inr q" "LookupKind (cfgActuators cfg) (rKind q) = None"
  shows "reconcileOne cfg i cause r = r"
  using assms by (auto simp: converged_def reconcileOne_def)

section \<open>The actuated flow\<close>

lemma claims_release: "i \<notin> set cs \<Longrightarrow> removeAll i (i # cs) = cs"
  by simp

text \<open>One pass over an actuator whose \<open>Inspect\<close> fails with a retryable error.\<close>

definition attempt_count :: "'w recon \<Rightarrow> string \<Rightarrow> int \<Rightarrow> int" where
  "attempt_count r i g = attempts (episode i g (xBook r))"

lemma episode_update [simp]: "gen st = g \<Longrightarrow> episode i g (AList.update i st b) = st"
  by (simp add: episode_def)

lemma actuationFailed_effect:
  assumes inv: "store_inv (xStore r)" and q: "GetResource (rID res) (xStore r) = Inr q"
    and err: "ClassOf err \<noteq> Permanent" and up: "\<not> cfgCancelled cfg"
    and cnt: "attempt_count r (rID res) (rGeneration res) = int k" "k < 2 ^ 62"
  shows "xClaims (actuationFailed cfg res act err cause r) = xClaims r"
    "xWorld (actuationFailed cfg res act err cause r) = xWorld r"
    "\<exists>q'. GetResource (rID res) (xStore (actuationFailed cfg res act err cause r)) = Inr q' \<and> desired q' = desired q \<and>
       sObservedGen (rStatus q') = rGeneration q \<and>
       sPhase (rStatus q') = (if int k + 1 \<ge> MaxAttempts (policyFor cfg (rKind res)) then PhaseFailed else PhaseDegraded)"
    "int k + 1 < MaxAttempts (policyFor cfg (rKind res)) \<Longrightarrow>
       attempt_count (actuationFailed cfg res act err cause r) (rID res) (rGeneration res) = int k + 1"
proof -
  let ?i = "rID res" let ?g = "rGeneration res" let ?max = "MaxAttempts (policyFor cfg (rKind res))"
  have ind: "index_inv (xStore r)" using inv by (simp add: store_inv_def)
  have n: "snd (record_attempt ?i ?g (xBook r)) = int k + 1"
    using cnt by (simp add: record_attempt_result attempt_count_def int64_range_def)
  define b where "b = fst (record_attempt ?i ?g (xBook r))"
  have b: "record_attempt ?i ?g (xBook r) = (b, int k + 1)" using n by (simp add: b_def prod_eq_iff)
  have e: "attempts (episode ?i ?g b) = int k + 1"
    using n by (simp add: b_def record_attempt_def Let_def)
  note get = UpdateStatus_get(2) [OF ind q]
  have D: "(\<exists>m. int k + 1 \<ge> ?max \<and>
        actuationFailed cfg res act err cause r = fail_terminal cfg res m cause (r\<lparr>xBook := b\<rparr>)) \<or>
     (\<exists>m t d. int k + 1 < ?max \<and>
        actuationFailed cfg res act err cause r =
          emit cfg res PhaseDegraded (fst (set_status cfg ?i PhaseDegraded m (reconciler_actor cause)
            (r\<lparr>xBook := schedule_retry t ?i ?g d b\<rparr>))))"
    using err up b by (cases "int k + 1 \<ge> ?max") (auto simp: actuationFailed_def Let_def case_prod_beta)
  then show "xClaims (actuationFailed cfg res act err cause r) = xClaims r"
    "xWorld (actuationFailed cfg res act err cause r) = xWorld r"
    by (auto simp: fail_terminal_def Let_def case_prod_beta)
  show "\<exists>q'. GetResource ?i (xStore (actuationFailed cfg res act err cause r)) = Inr q' \<and> desired q' = desired q \<and>
       sObservedGen (rStatus q') = rGeneration q \<and> sPhase (rStatus q') = (if int k + 1 \<ge> ?max then PhaseFailed else PhaseDegraded)"
    using D
  proof (elim disjE exE conjE)
    fix m assume "int k + 1 \<ge> ?max" "actuationFailed cfg res act err cause r = fail_terminal cfg res m cause (r\<lparr>xBook := b\<rparr>)"
    then show ?thesis using get [of _ PhaseFailed "clampMessage m"] by (simp add: fail_terminal_def Let_def case_prod_beta) blast
  next
    fix m t d assume "int k + 1 < ?max" "actuationFailed cfg res act err cause r =
          emit cfg res PhaseDegraded (fst (set_status cfg ?i PhaseDegraded m (reconciler_actor cause)
            (r\<lparr>xBook := schedule_retry t ?i ?g d b\<rparr>)))"
    then show ?thesis using get [of _ PhaseDegraded m] by simp blast
  qed
  show "attempt_count (actuationFailed cfg res act err cause r) ?i ?g = int k + 1" if "int k + 1 < ?max"
    using D that e by (auto simp: attempt_count_def schedule_retry_def)
qed

lemma failing_pass:
  assumes inv: "store_inv (xStore r)" and q: "GetResource i (xStore r) = Inr q" and free: "xClaims r = []"
    and act: "LookupKind (cfgActuators cfg) (rKind q) = Some act"
    and fails: "\<And>f w. \<exists>err. actInspect act f w = Inl err \<and> ClassOf err \<noteq> Permanent"
    and up: "\<not> cfgCancelled cfg"
    and ph: "sPhase (rStatus q) \<in> {PhasePending, PhaseProvisioning, PhaseDegraded}"
    and due: "due (now cfg r) i (rGeneration q) (xBook r)"
    and cnt: "attempt_count r i (rGeneration q) = int k" "k < 2 ^ 62"
  shows "store_inv (xStore (reconcileOne cfg i cause r))" "xClaims (reconcileOne cfg i cause r) = []"
    "xWorld (reconcileOne cfg i cause r) = xWorld r"
    "\<exists>q'. GetResource i (xStore (reconcileOne cfg i cause r)) = Inr q' \<and> desired q' = desired q \<and>
       sObservedGen (rStatus q') = rGeneration q \<and> sPhase (rStatus q') = (if int k + 1 \<ge> MaxAttempts (policyFor cfg (rKind q)) then PhaseFailed else PhaseDegraded)"
    "int k + 1 < MaxAttempts (policyFor cfg (rKind q)) \<Longrightarrow>
       attempt_count (reconcileOne cfg i cause r) i (rGeneration q) = int k + 1"
proof -
  have ind: "index_inv (xStore r)" using inv by (simp add: store_inv_def)
  have id: "rID q = i" using q stored_okD [OF ind] by (auto simp: GetResource_iff [OF ind] stored_ok_def)
  let ?r1 = "r\<lparr>xClaims := [i], xBook := begin_episode i (rGeneration q) (xBook r)\<rparr>"
  have one: "reconcileOne cfg i cause r = release i (actuate_claimed cfg act q cause (r\<lparr>xClaims := [i]\<rparr>))"
    using q act free id by (simp add: reconcileOne_def reconcileActuated_def tryClaim_def)
  have now1: "now cfg (r\<lparr>xClaims := [i]\<rparr>) = now cfg r" by (simp add: now_def)
  obtain r2 q2 err where ac: "actuate_claimed cfg act q cause (r\<lparr>xClaims := [i]\<rparr>) = actuationFailed cfg q2 act err cause r2"
    and r2: "xClaims r2 = [i]" "xWorld r2 = xWorld r" "xBook r2 = begin_episode i (rGeneration q) (xBook r)"
    and q2: "rID q2 = i" "rGeneration q2 = rGeneration q" "rKind q2 = rKind q"
    and g2: "\<exists>p. GetResource i (xStore r2) = Inr p \<and> desired p = desired q" and err: "ClassOf err \<noteq> Permanent"
    and inv2: "store_inv (xStore r2)"
  proof (cases "sPhase (rStatus q) = PhasePending")
    case True
    let ?a = "reconciler_actor cause"
    let ?s = "set_status cfg i PhaseProvisioning ''provisioning underlying infrastructure'' ?a ?r1"
    let ?r2 = "emit cfg q PhaseProvisioning (fst ?s)"
    let ?q2 = "q\<lparr>rStatus := (rStatus q)\<lparr>sPhase := PhaseProvisioning\<rparr>\<rparr>"
    obtain err where e: "actInspect act (RefFor ?q2) (xWorld ?r2) = Inl err" "ClassOf err \<noteq> Permanent" using fails by blast
    have "snd ?s = None" using UpdateStatus_get(1) [OF ind q] by simp
    then have "actuate_claimed cfg act q cause (r\<lparr>xClaims := [i]\<rparr>) = actuationFailed cfg ?q2 act err cause ?r2"
      using True e id by (simp add: actuate_claimed_def Let_def case_prod_beta)
    moreover have "\<exists>p. GetResource i (xStore ?r2) = Inr p \<and> desired p = desired q"
      using UpdateStatus_get(2) [OF ind q] by simp blast
    moreover have "store_inv (xStore ?r2)" using status_inv [OF inv] by simp
    ultimately show ?thesis using e(2) id by (intro that [of ?q2 err ?r2]) simp_all
  next
    case False
    obtain err where e: "actInspect act (RefFor q) (xWorld ?r1) = Inl err" "ClassOf err \<noteq> Permanent" using fails by blast
    have "actuate_claimed cfg act q cause (r\<lparr>xClaims := [i]\<rparr>) = actuationFailed cfg q act err cause ?r1"
      using False e ph due id by (auto simp: actuate_claimed_def Let_def now1)
    then show ?thesis using e(2) id q inv by (intro that [of q err ?r1]) simp_all
  qed
  obtain p where p: "GetResource i (xStore r2) = Inr p" "desired p = desired q" using g2 by blast
  have "attempt_count r2 (rID q2) (rGeneration q2) = int k" using cnt(1) r2(3) q2 by (simp add: attempt_count_def)
  note eff = actuationFailed_effect [OF inv2 _ err up this cnt(2), unfolded q2, OF p(1), of act cause]
  show "store_inv (xStore (reconcileOne cfg i cause r))"
    using keeps_one [of r cfg i cause] inv by (simp add: same_desired_def)
  show "xClaims (reconcileOne cfg i cause r) = []" "xWorld (reconcileOne cfg i cause r) = xWorld r"
    using one ac eff(1,2) r2 by (simp_all add: release_def)
  show "\<exists>q'. GetResource i (xStore (reconcileOne cfg i cause r)) = Inr q' \<and> desired q' = desired q \<and>
       sObservedGen (rStatus q') = rGeneration q \<and> sPhase (rStatus q') = (if int k + 1 \<ge> MaxAttempts (policyFor cfg (rKind q)) then PhaseFailed else PhaseDegraded)"
    using one ac eff(3) p(2) desired_fields(2) [OF p(2)] by auto
  show "attempt_count (reconcileOne cfg i cause r) i (rGeneration q) = int k + 1"
    if "int k + 1 < MaxAttempts (policyFor cfg (rKind q))"
    using one ac eff(4) [OF that] by (simp add: attempt_count_def release_def)
qed


lemma failed_fixpoint:
  assumes "store_inv (xStore r)" "GetResource i (xStore r) = Inr q" "xClaims r = []"
    "LookupKind (cfgActuators cfg) (rKind q) = Some act"
    "sPhase (rStatus q) \<in> {PhaseFailed, PhaseReady}" "sObservedGen (rStatus q) \<ge> rGeneration q"
  shows "reconcileOne cfg i cause r = r"
proof -
  have "actuate_claimed cfg act q cause x = x" for x using assms(5,6) by (auto simp: actuate_claimed_def)
  then show ?thesis using assms by (simp add: reconcileOne_def reconcileActuated_def tryClaim_def release_def)
qed

section \<open>The retry schedule\<close>

text \<open>Repeated passes over one resource, the \<open>k\<close>-th at tick \<open>ticks k\<close>.\<close>

fun passes :: "'w recon_config \<Rightarrow> string \<Rightarrow> string \<Rightarrow> (nat \<Rightarrow> nat) \<Rightarrow> nat \<Rightarrow> 'w recon \<Rightarrow> 'w recon" where
  "passes cfg i cause ticks 0 r = r"
| "passes cfg i cause ticks (Suc k) r = reconcileOne cfg i cause ((passes cfg i cause ticks k r)\<lparr>xTick := ticks k\<rparr>)"

definition phase_at :: "'w recon \<Rightarrow> string \<Rightarrow> string" where
  "phase_at r i = (case GetResource i (xStore r) of Inr q \<Rightarrow> sPhase (rStatus q) | Inl e \<Rightarrow> [])"

lemma retry_progress:
  assumes inv: "store_inv (xStore r)" and q: "GetResource i (xStore r) = Inr q" and free: "xClaims r = []"
    and act: "LookupKind (cfgActuators cfg) (rKind q) = Some act"
    and fails: "\<And>f w. \<exists>err. actInspect act f w = Inl err \<and> ClassOf err \<noteq> Permanent"
    and up: "\<not> cfgCancelled cfg" and ph: "sPhase (rStatus q) = PhasePending"
    and cnt: "attempt_count r i (rGeneration q) = 0" and m: "MaxAttempts (policyFor cfg (rKind q)) = int m" "m < 2 ^ 62"
    and due: "\<And>k. k < m \<Longrightarrow> due (ioNow (cfgIO cfg (ticks k))) i (rGeneration q) (xBook (passes cfg i cause ticks k r))"
    and k: "k \<le> m"
  shows "store_inv (xStore (passes cfg i cause ticks k r)) \<and> xClaims (passes cfg i cause ticks k r) = [] \<and>
     (\<exists>p. GetResource i (xStore (passes cfg i cause ticks k r)) = Inr p \<and> desired p = desired q \<and>
        sPhase (rStatus p) = (if k = 0 then PhasePending else if k < m then PhaseDegraded else PhaseFailed) \<and>
        (0 < k \<longrightarrow> sObservedGen (rStatus p) = rGeneration q)) \<and>
     (k < m \<longrightarrow> attempt_count (passes cfg i cause ticks k r) i (rGeneration q) = int k)"
  using k
proof (induction k)
  case 0
  then show ?case using inv q free ph cnt by simp
next
  case (Suc k)
  then have km: "k < m" by simp
  let ?r = "(passes cfg i cause ticks k r)\<lparr>xTick := ticks k\<rparr>"
  obtain p where p: "GetResource i (xStore ?r) = Inr p" "desired p = desired q"
    "sPhase (rStatus p) = (if k = 0 then PhasePending else PhaseDegraded)"
    and ih: "store_inv (xStore ?r)" "xClaims ?r = []" "attempt_count ?r i (rGeneration q) = int k"
    using Suc km by (auto simp: attempt_count_def)
  note d = desired_fields [OF p(2)]
  have a: "LookupKind (cfgActuators cfg) (rKind p) = Some act" "sPhase (rStatus p) \<in> {PhasePending, PhaseProvisioning, PhaseDegraded}"
    "due (now cfg ?r) i (rGeneration p) (xBook ?r)" "attempt_count ?r i (rGeneration p) = int k" "k < 2 ^ 62"
    using act d p(3) due [OF km] ih(3) km m(2) by (auto simp: now_def)
  note step = failing_pass [OF ih(1) p(1) ih(2) a(1) fails up a(2,3,4,5), where cause = cause]
  show ?case
    using step(1,2,4,5) p(2) d m km by (auto simp: Suc_le_eq)
qed

section \<open>The scan\<close>

lemma needs_frame:
  "xBook r' = xBook r \<Longrightarrow> xTick r' = xTick r \<Longrightarrow> needs_reconcile cfg r' = needs_reconcile cfg r"
  by (simp add: fun_eq_iff needs_reconcile_def now_def)

lemma scan_fold:
  "length (xQueue r) \<le> queue_cap \<Longrightarrow>
   fold (scan_one cfg) rs r = r\<lparr>xQueue := take queue_cap (xQueue r @ map rID (filter (needs_reconcile cfg r) rs))\<rparr>"
proof (induction rs arbitrary: r)
  case (Cons q rs)
  let ?r = "scan_one cfg q r"
  have f: "needs_reconcile cfg ?r = needs_reconcile cfg r" by (rule needs_frame) (simp_all add: scan_one_def)
  have "length (xQueue ?r) \<le> queue_cap" using Cons.prems by (simp add: scan_one_def send_def)
  from Cons.IH [OF this] have "fold (scan_one cfg) (q # rs) r =
      ?r\<lparr>xQueue := take queue_cap (xQueue ?r @ map rID (filter (needs_reconcile cfg r) rs))\<rparr>" by (simp add: f)
  moreover have "xQueue ?r = take queue_cap (xQueue r @ (if needs_reconcile cfg r q then [rID q] else []))"
    "?r\<lparr>xQueue := x\<rparr> = r\<lparr>xQueue := x\<rparr>" for x
    using Cons.prems by (auto simp: scan_one_def send_def)
  moreover have "take n (take n (xs @ ys) @ zs) = take n (xs @ ys @ zs)" for n and xs ys zs :: "string list"
    by (auto simp: min_def)
  ultimately show ?case by (auto simp del: take_append)
qed simp

lemma scan_pages_guarded:
  "xStore r = s \<Longrightarrow>
   scan_pages n cfg seen c r = guarded_loop n (\<lambda>c. ListResources ((scan_options [])\<lparr>oCursor := c\<rparr>) s) (scan_one cfg) seen c r"
proof (induction n arbitrary: seen c r)
  case (Suc n)
  have "xStore (fold (scan_one cfg) page r) = s" for page using Suc.prems by simp
  then show ?case using Suc by (auto simp: Let_def split: sum.split)
qed simp

lemma scan_result:
  assumes "store_inv (xStore r)" "Count (xStore r) \<le> 2000000" "length (xQueue r) \<le> queue_cap"
  shows "scan cfg r = r\<lparr>xQueue := take queue_cap
     (xQueue r @ map rID (filter (needs_reconcile cfg r) (sorted_matches (scan_options []) (xStore r))))\<rparr>"
proof -
  let ?q = "(xStore r, scan_options [])"
  have i: "index_inv (xStore r)" using assms(1) by (simp add: store_inv_def)
  have l: "length (sorted_matches (scan_options []) (xStore r)) \<le> Count (xStore r)"
    by (simp add: sorted_matches_def Count_def le_trans [OF length_filter_le])
  have f: "mem_fits ?q" "length (mem_contents ?q) \<le> maxScanPages * mem_page_size ?q" "0 < maxScanPages"
    using l assms(2) by (simp_all add: mem_defs maxScanPages_def scan_options_def scanPageLimit_def list_limit_def)
  have "scan cfg r = fold (scan_one cfg) (sorted_matches (scan_options []) (xStore r)) r"
    using mem.guarded_all [OF f, of "scan_one cfg" r]
    by (simp add: scan_def scan_pages_guarded mem_list_def mem_contents_def DeepCopy_sorted_matches [OF i])
  then show ?thesis using scan_fold [OF assms(3)] by simp
qed


section \<open>Drift\<close>

text \<open>A resource the drift pass has nothing to do for: not converged (the workers own it), not
  inspectable, or observed as desired and without a stale annotation.\<close>

definition quiet :: "'w actuator \<Rightarrow> (jobj option \<Rightarrow> act_error + (string, string) gomap) \<Rightarrow> 'w \<Rightarrow> resource \<Rightarrow> bool" where
  "quiet act mapper w q \<longleftrightarrow>
     sPhase (rStatus q) \<noteq> PhaseReady \<or> sObservedGen (rStatus q) < rGeneration q \<or>
     (case actInspect act (RefFor q) w of
        Inl e \<Rightarrow> True
      | Inr obs \<Rightarrow> oExists obs \<and> \<not> HasPrefix (sMessage (rStatus q)) driftPrefix \<and>
          (\<exists>want. mapper (rSpec q) = Inr want \<and> CompareFields want (oFields obs) = []))"

lemma quiet_drift_one:
  assumes "quiet act mapper (xWorld r) q"
  shows "drift_one cfg act mapper q r = r"
proof -
  have "checkDrift cfg act mapper q (r\<lparr>xClaims := cs\<rparr>) = r\<lparr>xClaims := cs\<rparr>"
    if "\<not> (sPhase (rStatus q) \<noteq> PhaseReady \<or> sObservedGen (rStatus q) < rGeneration q)" for cs
    using assms that by (auto simp: quiet_def checkDrift_def clearDriftAnnotation_def split: sum.splits)
  then show ?thesis by (auto simp: drift_one_def tryClaim_def release_def)
qed

lemma quiet_drift_page:
  assumes "\<forall>q \<in> set qs. quiet act mapper (xWorld r) q"
  shows "fst (drift_page cfg act mapper qs r) = r"
  using assms by (induction qs) (auto simp: Let_def quiet_drift_one)

lemma quiet_drift_pages:
  assumes "store_inv (xStore r)" "\<And>q. GetResource (rID q) (xStore r) = Inr q \<Longrightarrow> rKind q = actKind act \<Longrightarrow> quiet act mapper (xWorld r) q"
    "actKind act \<noteq> []"
  shows "drift_pages n cfg act mapper seen c r = r"
proof (induction n arbitrary: seen c)
  case (Suc n)
  have i: "index_inv (xStore r)" using assms(1) by (simp add: store_inv_def)
  have "quiet act mapper (xWorld r) q"
    if l: "ListResources ((scan_options (actKind act))\<lparr>oCursor := c\<rparr>) (xStore r) = Inr (page, next')" and mem: "q \<in> set page" for page next' q
  proof -
    obtain m where "cursor_offset c = Some m"
    proof (cases "cursor_offset c")
      case None then show ?thesis using l ListResources_bad_cursor [OF None] by simp
    qed
    then have "page = map DeepCopy (take (list_limit (oLimit (scan_options (actKind act)))) (drop m (sorted_matches (scan_options (actKind act)) (xStore r))))"
      using l by (simp add: ListResources_page Let_def)
    then have "q \<in> set (sorted_matches (scan_options (actKind act)) (xStore r))"
      using mem DeepCopy_sorted_matches [OF i, of "scan_options (actKind act)"]
      by (metis drop_map in_set_dropD in_set_takeD take_map)
    then show ?thesis
      using assms(2) [of q] assms(3) unfolding sorted_matches_get [OF i] by (simp add: list_match_def scan_options_def)
  qed
  then have "fst (drift_page cfg act mapper page r) = r"
    if "ListResources ((scan_options (actKind act))\<lparr>oCursor := c\<rparr>) (xStore r) = Inr (page, next')" for page next'
    using that by (intro quiet_drift_page) blast
  then show ?case using Suc by (auto simp: case_prod_beta split: sum.split)
qed simp

lemma quiet_drift_kinds:
  assumes "store_inv (xStore r)"
    "\<And>act mapper q. LookupKind (cfgActuators cfg) (actKind act) = Some act \<Longrightarrow> actDesiredFields act = Some mapper \<Longrightarrow>
       GetResource (rID q) (xStore r) = Inr q \<Longrightarrow> rKind q = actKind act \<Longrightarrow> quiet act mapper (xWorld r) q"
    "\<And>k act. LookupKind (cfgActuators cfg) k = Some act \<Longrightarrow> actKind act = k \<and> k \<noteq> []"
  shows "drift_kinds cfg kinds r = r"
proof (induction kinds)
  case (Cons k ks)
  have "driftKind cfg act mapper r = r" if "LookupKind (cfgActuators cfg) k = Some act" "actDesiredFields act = Some mapper" for act mapper
  proof -
    have k: "actKind act = k" "k \<noteq> []" using assms(3) [OF that(1)] by simp_all
    have "quiet act mapper (xWorld r) q" if "GetResource (rID q) (xStore r) = Inr q" "rKind q = actKind act" for q
      by (rule assms(2)) (use \<open>LookupKind (cfgActuators cfg) k = Some act\<close> \<open>actDesiredFields act = Some mapper\<close> k that in simp_all)
    then show ?thesis unfolding driftKind_def using k by (intro quiet_drift_pages [OF assms(1)]) simp_all
  qed
  then show ?case using Cons by (auto simp: Let_def split: option.split)
qed simp

lemma registered_kinds:
  assumes "map_of (registerActuators acts NewRegistry) k = Some act"
  shows "actKind act = k \<and> k \<noteq> []"
proof -
  have step: "\<forall>k act. map_of (case a of None \<Rightarrow> rg | Some x \<Rightarrow> fst (Register (Some x) rg)) k = Some act \<longrightarrow> actKind act = k \<and> k \<noteq> []"
    if "\<forall>k act. map_of rg k = Some act \<longrightarrow> actKind act = k \<and> k \<noteq> []" for rg and a :: "'a actuator option"
    using that by (auto simp: Register_def split: option.splits)
  have "\<forall>k act. map_of rg k = Some act \<longrightarrow> actKind act = k \<and> k \<noteq> [] \<Longrightarrow>
      \<forall>k act. map_of (registerActuators acts rg) k = Some act \<longrightarrow> actKind act = k \<and> k \<noteq> []" for rg
  proof (induction acts arbitrary: rg)
    case (Cons a as)
    show ?case using Cons.IH [OF step [OF Cons.prems, of a]] by (simp add: registerActuators_def)
  qed (simp add: registerActuators_def)
  from this [of NewRegistry] show ?thesis using assms by (simp add: NewRegistry_def)
qed

section \<open>A generation nobody actuated\<close>

lemma settle_stamps_current:
  assumes "store_inv (xStore r)" "GetResource (rID res) (xStore r) = Inr cur"
  shows "\<exists>q'. GetResource (rID res) (xStore (actuationSettled cfg res act plan t cause r)) = Inr q' \<and>
     desired q' = desired cur \<and> sPhase (rStatus q') = PhaseReady \<and> sObservedGen (rStatus q') = rGeneration cur"
  using UpdateStatus_get(2) [OF _ assms(2)] assms(1)
  by (simp add: actuationSettled_def Let_def case_prod_beta store_inv_def) blast

section \<open>Claims and queue\<close>

lemma settled_frame [simp]:
  "xClaims (actuationSettled cfg res act plan t cause r) = xClaims r"
  "xQueue (actuationSettled cfg res act plan t cause r) = xQueue r"
  "xWorld (actuationSettled cfg res act plan t cause r) = xWorld r"
  "xBook (actuationSettled cfg res act plan t cause r) = clear_episode (rID res) (xBook r)"
  by (simp_all add: actuationSettled_def Let_def case_prod_beta)

lemma failed_frame [simp]:
  "xClaims (actuationFailed cfg res act err cause r) = xClaims r"
  "xQueue (actuationFailed cfg res act err cause r) = xQueue r"
  by (simp_all add: actuationFailed_def fail_terminal_def Let_def case_prod_beta)

lemma run_frame [simp]:
  "xClaims (runActuation cfg res act obs cause r) = xClaims r"
  "xQueue (runActuation cfg res act obs cause r) = xQueue r"
  by (simp_all add: runActuation_def Let_def case_prod_beta split: sum.split)

lemma actuate_frame [simp]:
  "xClaims (actuate_claimed cfg act res cause r) = xClaims r"
  "xQueue (actuate_claimed cfg act res cause r) = xQueue r"
  by (auto simp: actuate_claimed_def Let_def case_prod_beta split: sum.splits option.splits)

lemma claim_result [simp]:
  "xQueue (fst (tryClaim i r)) = xQueue r" "xQueue (release i r) = xQueue r"
  "snd (tryClaim i r) \<longleftrightarrow> i \<notin> set (xClaims r)"
  "i \<notin> set (xClaims r) \<Longrightarrow> xClaims (fst (tryClaim i r)) = i # xClaims r"
  "xClaims (release i r) = removeAll i (xClaims r)"
  by (simp_all add: tryClaim_def release_def)

lemma one_frame [simp]:
  "xClaims (reconcileOne cfg i cause r) = xClaims r"
  "xQueue (reconcileOne cfg i cause r) = xQueue r"
  by (simp_all add: reconcileOne_def reconcileActuated_def Let_def case_prod_beta split: sum.split option.split)

lemma check_frame [simp]:
  "xClaims (checkDrift cfg act mapper res r) = xClaims r"
  "length (xQueue r) \<le> queue_cap \<Longrightarrow> length (xQueue (checkDrift cfg act mapper res r)) \<le> queue_cap"
  by (auto simp: checkDrift_def clearDriftAnnotation_def reportDrift_def Trigger_def Let_def send_def append_audit_def publish_event_def split: sum.split)

lemma drift_one_frame [simp]:
  "xClaims (drift_one cfg act mapper res r) = xClaims r"
  "length (xQueue r) \<le> queue_cap \<Longrightarrow> length (xQueue (drift_one cfg act mapper res r)) \<le> queue_cap"
  by (simp_all add: drift_one_def Let_def case_prod_beta)

definition queue_ok :: "'w recon \<Rightarrow> 'w recon \<Rightarrow> bool" where
  "queue_ok r r' \<longleftrightarrow> xClaims r' = xClaims r \<and> (length (xQueue r) \<le> queue_cap \<longrightarrow> length (xQueue r') \<le> queue_cap)"

lemma queue_ok_trans: "queue_ok r r1 \<Longrightarrow> queue_ok r1 r2 \<Longrightarrow> queue_ok r r2"
  by (simp add: queue_ok_def)

lemma queue_ok_refl [simp]: "queue_ok r r"
  by (simp add: queue_ok_def)

lemma queue_drift_page: "queue_ok r (fst (drift_page cfg act mapper rs r))"
proof (induction rs arbitrary: r)
  case (Cons q qs)
  have "queue_ok r (drift_one cfg act mapper q r)" by (simp add: queue_ok_def)
  then show ?case using Cons by (auto simp: Let_def intro: queue_ok_trans)
qed simp

lemma queue_drift_pages: "queue_ok r (drift_pages n cfg act mapper seen c r)"
  by (induction n arbitrary: seen c r)
    (auto simp: case_prod_beta split: sum.split intro: queue_drift_page queue_ok_trans [OF queue_drift_page])

lemma queue_drift_kinds: "queue_ok r (drift_kinds cfg kinds r)"
  by (induction kinds arbitrary: r)
    (auto simp: Let_def driftKind_def split: option.split intro: queue_drift_pages queue_ok_trans [OF queue_drift_pages])

lemma queue_worker: "queue_ok r (worker_step cfg r)"
  by (auto simp: queue_ok_def worker_step_def split: list.split)

lemma queue_send: "queue_ok r (send i r)"
  by (auto simp: queue_ok_def send_def)

lemma queue_scan_page: "queue_ok r (fold (scan_one cfg) rs r)"
proof (induction rs arbitrary: r)
  case (Cons q qs)
  have "queue_ok r (scan_one cfg q r)" by (simp add: scan_one_def queue_send)
  then show ?case using Cons by (auto intro: queue_ok_trans)
qed simp

lemma queue_scan: "queue_ok r (scan cfg r)"
proof -
  have "queue_ok r (scan_pages n cfg seen c r)" for n seen c
    by (induction n arbitrary: seen c r)
      (auto simp: Let_def split: sum.split intro: queue_scan_page queue_ok_trans [OF queue_scan_page])
  then show ?thesis by (simp add: scan_def)
qed

section \<open>Runs\<close>

text \<open>What the daemon's goroutines do to the reconciler: trigger, scan, work on one trigger, look for drift.\<close>

inductive recon_run :: "'w recon_config \<Rightarrow> 'w recon \<Rightarrow> 'w recon \<Rightarrow> bool" for cfg where
  refl: "recon_run cfg r r"
| trigger: "recon_run cfg r r' \<Longrightarrow> recon_run cfg r (Trigger i r')"
| scan: "recon_run cfg r r' \<Longrightarrow> recon_run cfg r (scan cfg r')"
| work: "recon_run cfg r r' \<Longrightarrow> recon_run cfg r (worker_step cfg r')"
| drift: "recon_run cfg r r' \<Longrightarrow> recon_run cfg r (driftPass cfg r')"

lemma run_keeps: "recon_run cfg r r' \<Longrightarrow> same_desired (xStore r) (xStore r') \<and> queue_ok r r'"
proof (induction rule: recon_run.induct)
  case (drift r r')
  then show ?case using keeps_drift_kinds queue_drift_kinds same_desired_trans queue_ok_trans unfolding driftPass_def by blast
next
  case (work r r')
  then show ?case using keeps_worker queue_worker same_desired_trans queue_ok_trans by blast
next
  case (scan r r')
  then show ?case using queue_scan queue_ok_trans by (metis scan_store)
next
  case (trigger r r' i)
  then show ?case using queue_send queue_ok_trans unfolding Trigger_def by (metis send_frame(1))
qed simp

section \<open>A pass that actuates\<close>

lemma actuated_success:
  assumes inv: "store_inv (xStore r)" and q: "GetResource i (xStore r) = Inr q" and free: "i \<notin> set (xClaims r)"
    and act: "LookupKind (cfgActuators cfg) (rKind q) = Some act"
    and need: "sPhase (rStatus q) = PhasePending"
    and ins: "actInspect act (RefFor q) (xWorld r) = Inr obs"
    and pl: "planFor act (q\<lparr>rStatus := (rStatus q)\<lparr>sPhase := PhaseProvisioning\<rparr>\<rparr>) obs = Inr plan" "pAction plan \<noteq> ActionNoop"
    and ap: "actApply act plan (xWorld r) = (w, Inr t)"
  shows "xWorld (reconcileOne cfg i cause r) = w" "xClaims (reconcileOne cfg i cause r) = xClaims r"
    "map_of (xBook (reconcileOne cfg i cause r)) i = None"
    "\<exists>q'. GetResource i (xStore (reconcileOne cfg i cause r)) = Inr q' \<and> desired q' = desired q \<and>
       sPhase (rStatus q') = PhaseReady \<and> sObservedGen (rStatus q') = rGeneration q"
proof -
  have ind: "index_inv (xStore r)" using inv by (simp add: store_inv_def)
  have id: "rID q = i" using q stored_okD [OF ind] by (auto simp: GetResource_iff [OF ind] stored_ok_def)
  let ?r0 = "r\<lparr>xClaims := i # xClaims r\<rparr>"
  let ?s = "set_status cfg i PhaseProvisioning ''provisioning underlying infrastructure'' (reconciler_actor cause)
      (?r0\<lparr>xBook := begin_episode i (rGeneration q) (xBook r)\<rparr>)"
  let ?q = "q\<lparr>rStatus := (rStatus q)\<lparr>sPhase := PhaseProvisioning\<rparr>\<rparr>"
  let ?r2 = "emit cfg q PhaseProvisioning (fst ?s)"
  have e: "snd ?s = None" using UpdateStatus_get(1) [OF ind q] by simp
  have ref: "RefFor ?q = RefFor q" by (simp add: RefFor_def)
  have "actuate_claimed cfg act q cause ?r0 = runActuation cfg ?q act obs cause ?r2"
    using need ins e id ref by (simp add: actuate_claimed_def Let_def case_prod_beta del: set_status_frame(6))
  also have "\<dots> = actuationSettled cfg ?q act plan t cause (?r2\<lparr>xWorld := w\<rparr>)"
    using pl ap by (simp add: runActuation_def)
  finally have one: "reconcileOne cfg i cause r = release i (actuationSettled cfg ?q act plan t cause (?r2\<lparr>xWorld := w\<rparr>))"
    using q act free id by (simp add: reconcileOne_def reconcileActuated_def tryClaim_def)
  then show "xWorld (reconcileOne cfg i cause r) = w" "xClaims (reconcileOne cfg i cause r) = xClaims r"
    "map_of (xBook (reconcileOne cfg i cause r)) i = None"
    using id free by (simp_all add: release_def clear_episode_def)
  obtain p where p: "GetResource i (xStore ?r2) = Inr p" "desired p = desired q"
    using UpdateStatus_get(2) [OF ind q] by simp blast
  have "store_inv (xStore ?r2)" using status_inv [OF inv] by simp
  then show "\<exists>q'. GetResource i (xStore (reconcileOne cfg i cause r)) = Inr q' \<and> desired q' = desired q \<and>
       sPhase (rStatus q') = PhaseReady \<and> sObservedGen (rStatus q') = rGeneration q"
    using settle_stamps_current [of "?r2\<lparr>xWorld := w\<rparr>" ?q p cfg act plan t cause] p id desired_fields(2) [OF p(2)]
    by (simp add: one del: emit_frame set_status_frame)
qed

section \<open>The status-only flow\<close>

lemma status_only_two:
  assumes "store_inv (xStore r)" "GetResource i (xStore r) = Inr q" "LookupKind (cfgActuators cfg) (rKind q) = None"
    "sObservedGen (rStatus q) < rGeneration q \<or> sPhase (rStatus q) = PhasePending \<or> sPhase (rStatus q) = PhaseProvisioning"
  shows "\<exists>q'. GetResource i (xStore ((reconcileOne cfg i cause ^^ 2) r)) = Inr q' \<and> desired q' = desired q \<and>
     sPhase (rStatus q') = PhaseReady \<and> sObservedGen (rStatus q') = rGeneration q'"
proof -
  let ?r = "reconcileOne cfg i cause r"
  obtain p where p: "GetResource i (xStore ?r) = Inr p" "desired p = desired q"
    "sPhase (rStatus p) = (if sPhase (rStatus q) = PhasePending then PhaseProvisioning else PhaseReady)"
    "sObservedGen (rStatus p) = rGeneration q"
    using status_step [OF assms] by blast
  note d = desired_fields [OF p(2)]
  have inv: "store_inv (xStore ?r)" using keeps_one [of r cfg i cause] assms(1) by (simp add: same_desired_def)
  have two: "(reconcileOne cfg i cause ^^ 2) r = reconcileOne cfg i cause ?r" by (simp add: numeral_2_eq_2)
  show ?thesis
  proof (cases "sPhase (rStatus q) = PhasePending")
    case True
    then have ph: "sPhase (rStatus p) = PhaseProvisioning" using p(3) by simp
    have "LookupKind (cfgActuators cfg) (rKind p) = None" using assms(3) d by simp
    from status_step [OF inv p(1) this, of cause] ph obtain q' where
      "GetResource i (xStore (reconcileOne cfg i cause ?r)) = Inr q'" "desired q' = desired p"
      "sPhase (rStatus q') = PhaseReady" "sObservedGen (rStatus q') = rGeneration p" by auto
    then show ?thesis using p(2) desired_fields(2) by (metis two)
  next
    case False
    then have ph: "sPhase (rStatus p) = PhaseReady" using p(3) by simp
    then have "reconcileOne cfg i cause ?r = ?r"
      using p d assms(3) by (intro converged_fixpoint [of _ _ p]) (auto simp: converged_def)
    then show ?thesis using p d two ph by auto
  qed
qed

lemma funpow_fixpoint: "f x = x \<Longrightarrow> (f ^^ n) x = x"
  by (induction n) simp_all

end
