(* ===== verification/Reconcile_Props.thy ===== *)
theory Reconcile_Props
  imports Reconcile_Laws Samples
begin

text \<open>
  Properties of the reconciler: it writes only status, converges, respects its retry budget and backoff,
  scans exactly what needs a pass, and leaves a world without drift alone.
\<close>

section \<open>Samples\<close>

definition ex_ropts :: "'w actuator option list \<Rightarrow> 'w recon_options" where
  "ex_ropts acts = \<lparr>xInterval = 0, xConcurrency = 0, xDriftInterval = 0, xActuators = acts, xRetryDefaults = None, xRetryPolicies = []\<rparr>"

definition ex_recon :: "'w actuator option list \<Rightarrow> 'w \<Rightarrow> 'w recon_config \<times> 'w recon" where
  "ex_recon acts w = NewReconciler ex_io (ex_ropts acts) ex_store NewBus w"

text \<open>A provider of nodes whose world is the list of its nodes, and one that cannot be reached.\<close>

definition ex_nodes :: "string list actuator" where
  "ex_nodes =
     \<lparr>actKind = ''Node'',
      actPlan = (\<lambda>cur res. Inr \<lparr>pKind = ''Node'', pAction = (if cur = None then ActionCreate else ActionNoop), pChanges = [], pDesired = res\<rparr>),
      actApply = (\<lambda>p w. (rName (pDesired p) # w, Inr \<lparr>tAction = pAction p, tExternalID = rName (pDesired p), tMessage = []\<rparr>)),
      actInspect = (\<lambda>f w. Inr \<lparr>oExists = fName f \<in> set w, oExternalID = fName f, oState = ''up'', oReady = True, oFields = []\<rparr>),
      actCaps = \<lparr>cDriftDetection = True, cName = ''nodes''\<rparr>,
      actDesiredFields = Some (\<lambda>sp. Inr [])\<rparr>"

definition ex_down :: "string list actuator" where
  "ex_down = ex_nodes\<lparr>actInspect := (\<lambda>f w. Inl (ProviderError Unavailable ''inspect'' (PlainError ''connection refused'')))\<rparr>"

lemma ex_recon_simps [simp]:
  "xStore (snd (ex_recon acts w)) = ex_store" "xClaims (snd (ex_recon acts w)) = []" "xWorld (snd (ex_recon acts w)) = w"
  "xBook (snd (ex_recon acts w)) = []" "xQueue (snd (ex_recon acts w)) = []" "xTick (snd (ex_recon acts w)) = 0"
  "cfgActuators (fst (ex_recon acts w)) = registerActuators acts NewRegistry" "\<not> cfgCancelled (fst (ex_recon acts w))"
  "cfgIO (fst (ex_recon acts w)) = ex_io"
  by (simp_all add: ex_recon_def NewReconciler_def newAttemptBook_def ex_ropts_def)

lemma ex_lookup [simp]:
  "LookupKind (registerActuators [] NewRegistry) k = None"
  "LookupKind (registerActuators [Some ex_nodes] NewRegistry) ''Node'' = Some ex_nodes"
  "LookupKind (registerActuators [Some ex_down] NewRegistry) ''Node'' = Some ex_down"
  by (simp_all add: LookupKind_def registerActuators_def NewRegistry_def Register_def ex_nodes_def ex_down_def)

lemma ex_get_web: "GetResource ''r-01'' ex_store = Inr ex_web"
  using ex_wf(3) by (simp add: GetResource_def ex_store_eq)

lemma ex_web_simps [simp]: "rKind ex_web = ''Node''" "rGeneration ex_web = 1" "sPhase (rStatus ex_web) = PhasePending"
  "sObservedGen (rStatus ex_web) = 0" "rID ex_web = ''r-01''"
  by (simp_all add: ex_web_def PhasePending_def)

section \<open>Properties\<close>

text \<open>C26: Whatever the reconciler does (triggers, scans, worker steps, drift passes, in any order), it changes no
  spec, label, kind, address or generation, creates and deletes nothing, and keeps the store's invariant;
  every claim it takes is released and the trigger queue never exceeds its capacity.\<close>

theorem reconciler_only_writes_status:
  assumes "recon_run cfg r r'" "store_inv (xStore r)" "length (xQueue r) \<le> queue_cap"
  shows "store_inv (xStore r') \<and>
    map_option desired (map_of (byID (xStore r')) i) = map_option desired (map_of (byID (xStore r)) i) \<and>
    xClaims r' = xClaims r \<and> length (xQueue r') \<le> queue_cap"
  using run_keeps [OF assms(1)] assms(2,3) by (simp_all add: same_desired_def queue_ok_def)

theorem reconciler_only_writes_status_witness:
  "let r = snd (ex_recon [Some ex_nodes] []); cfg = fst (ex_recon [Some ex_nodes] []);
       r' = driftPass cfg (worker_step cfg (scan cfg r))
   in store_inv (xStore r') \<and>
      map_option desired (map_of (byID (xStore r')) ''r-01'') = Some (desired ex_web) \<and>
      xClaims r' = [] \<and> length (xQueue r') \<le> queue_cap"
proof -
  let ?cfg = "fst (ex_recon [Some ex_nodes] [])" and ?r = "snd (ex_recon [Some ex_nodes] [])"
  have run: "recon_run ?cfg ?r (driftPass ?cfg (worker_step ?cfg (scan ?cfg ?r)))"
    by (intro recon_run.intros)
  have "store_inv (xStore ?r)" "length (xQueue ?r) \<le> queue_cap" by (simp_all add: ex_store_inv)
  note p = reconciler_only_writes_status [OF run this]
  show ?thesis using p [of "''r-01''"] by (simp add: Let_def ex_store_eq)
qed

text \<open>C27: A resource of a kind without an actuator that is pending, provisioning or has an unobserved generation
  is Ready with its current generation observed after two passes, its spec untouched; every further
  pass changes nothing at all.\<close>

theorem status_only_converges:
  assumes "store_inv (xStore r)" "GetResource i (xStore r) = Inr q" "LookupKind (cfgActuators cfg) (rKind q) = None"
    "sObservedGen (rStatus q) < rGeneration q \<or> sPhase (rStatus q) = PhasePending \<or> sPhase (rStatus q) = PhaseProvisioning"
  shows "\<exists>q'. GetResource i (xStore ((reconcileOne cfg i cause ^^ 2) r)) = Inr q' \<and> desired q' = desired q \<and>
     sPhase (rStatus q') = PhaseReady \<and> sObservedGen (rStatus q') = rGeneration q' \<and>
     (\<forall>n. (reconcileOne cfg i cause ^^ (n + 2)) r = (reconcileOne cfg i cause ^^ 2) r)"
proof -
  obtain q' where q': "GetResource i (xStore ((reconcileOne cfg i cause ^^ 2) r)) = Inr q'" "desired q' = desired q"
    "sPhase (rStatus q') = PhaseReady" "sObservedGen (rStatus q') = rGeneration q'"
    using status_only_two [OF assms] by blast
  then have "reconcileOne cfg i cause ((reconcileOne cfg i cause ^^ 2) r) = (reconcileOne cfg i cause ^^ 2) r"
    using assms(3) desired_fields(1) [OF q'(2)] by (intro converged_fixpoint [of _ _ q']) (auto simp: converged_def)
  then have "(reconcileOne cfg i cause ^^ n) ((reconcileOne cfg i cause ^^ 2) r) = (reconcileOne cfg i cause ^^ 2) r" for n
    by (rule funpow_fixpoint)
  then have "(reconcileOne cfg i cause ^^ (n + 2)) r = (reconcileOne cfg i cause ^^ 2) r" for n
    by (simp only: funpow_add comp_apply)
  then show ?thesis using q' by blast
qed

theorem status_only_converges_witness:
  "let r = snd (ex_recon [] ()); cfg = fst (ex_recon [] ())
   in \<exists>q'. GetResource ''r-01'' (xStore ((reconcileOne cfg ''r-01'' ''scan'' ^^ 2) r)) = Inr q' \<and> desired q' = desired ex_web \<and>
     sPhase (rStatus q') = PhaseReady \<and> sObservedGen (rStatus q') = rGeneration q' \<and>
     (\<forall>n. (reconcileOne cfg ''r-01'' ''scan'' ^^ (n + 2)) r = (reconcileOne cfg ''r-01'' ''scan'' ^^ 2) r)"
  unfolding Let_def by (rule status_only_converges) (simp_all add: ex_store_inv ex_get_web)


definition ex_impatient :: "string list recon_config" where
  "ex_impatient = (fst (ex_recon [Some ex_down] []))\<lparr>cfgOptions := (normalize (ex_ropts [Some ex_down]))
     \<lparr>xRetryDefaults := Some \<lparr>MaxAttempts = 2, BaseDelay = 5, MaxDelay = 8\<rparr>\<rparr>\<rparr>"

lemma ex_impatient_due:
  "due (ioNow (cfgIO ex_impatient 0)) ''r-01'' 1 (xBook (snd (ex_recon [Some ex_down] [])))"
  "due (ioNow (cfgIO ex_impatient 20)) ''r-01'' 1
     (xBook (reconcileOne ex_impatient ''r-01'' ''scan'' (snd (ex_recon [Some ex_down] []))))"
  by code_simp+


text \<open>C29: When an actuator observes and applies a pending resource successfully, one pass leaves the resource Ready
  with its generation observed and its spec untouched, the world as the actuator left it, no claim taken
  and no episode in the attempt book.\<close>

theorem actuated_pass_converges:
  assumes "store_inv (xStore r)" "GetResource i (xStore r) = Inr q" "i \<notin> set (xClaims r)"
    "LookupKind (cfgActuators cfg) (rKind q) = Some act" "sPhase (rStatus q) = PhasePending"
    "actInspect act (RefFor q) (xWorld r) = Inr obs"
    "planFor act (q\<lparr>rStatus := (rStatus q)\<lparr>sPhase := PhaseProvisioning\<rparr>\<rparr>) obs = Inr plan" "pAction plan \<noteq> ActionNoop"
    "actApply act plan (xWorld r) = (w, Inr t)"
  shows "xWorld (reconcileOne cfg i cause r) = w \<and> xClaims (reconcileOne cfg i cause r) = xClaims r \<and>
    map_of (xBook (reconcileOne cfg i cause r)) i = None \<and>
    (\<exists>q'. GetResource i (xStore (reconcileOne cfg i cause r)) = Inr q' \<and> desired q' = desired q \<and>
       sPhase (rStatus q') = PhaseReady \<and> sObservedGen (rStatus q') = rGeneration q)"
  by (intro conjI actuated_success [OF assms])

theorem actuated_pass_converges_witness:
  "let r' = reconcileOne (fst (ex_recon [Some ex_nodes] [])) ''r-01'' ''scan'' (snd (ex_recon [Some ex_nodes] []))
   in xWorld r' = [''web''] \<and> xClaims r' = [] \<and> map_of (xBook r') ''r-01'' = None \<and>
      (\<exists>q'. GetResource ''r-01'' (xStore r') = Inr q' \<and> desired q' = desired ex_web \<and>
         sPhase (rStatus q') = PhaseReady \<and> sObservedGen (rStatus q') = 1)"
proof -
  let ?r = "snd (ex_recon [Some ex_nodes] [])" and ?cfg = "fst (ex_recon [Some ex_nodes] [])"
  let ?obs = "\<lparr>oExists = False, oExternalID = ''web'', oState = ''up'', oReady = True, oFields = []\<rparr>"
  let ?q = "ex_web\<lparr>rStatus := (rStatus ex_web)\<lparr>sPhase := PhaseProvisioning\<rparr>\<rparr>"
  let ?plan = "\<lparr>pKind = ''Node'', pAction = ActionCreate, pChanges = [], pDesired = ?q\<rparr>"
  let ?t = "\<lparr>tAction = ActionCreate, tExternalID = ''web'', tMessage = []\<rparr>"
  have a: "store_inv (xStore ?r)" "GetResource ''r-01'' (xStore ?r) = Inr ex_web" "''r-01'' \<notin> set (xClaims ?r)"
    "LookupKind (cfgActuators ?cfg) (rKind ex_web) = Some ex_nodes" "sPhase (rStatus ex_web) = PhasePending"
    "actInspect ex_nodes (RefFor ex_web) (xWorld ?r) = Inr ?obs" "planFor ex_nodes ?q ?obs = Inr ?plan"
    "pAction ?plan \<noteq> ActionNoop" "actApply ex_nodes ?plan (xWorld ?r) = ([''web''], Inr ?t)"
    by (simp_all add: ex_store_inv ex_get_web)
      (simp_all add: ex_nodes_def RefFor_def planFor_def ex_web_def)
  from actuated_pass_converges [OF a] show ?thesis by (simp add: Let_def)
qed

text \<open>The scan queues exactly the resources that need a pass (an unobserved generation, Pending,
  Provisioning, or Degraded with a retry due), in listing order behind what is queued, up to the queue's
  capacity, and changes nothing else: its page walk skips and repeats nothing.\<close>

theorem scan_exact:
  assumes "store_inv (xStore r)" "Count (xStore r) \<le> 2000000" "length (xQueue r) \<le> queue_cap"
  shows "scan cfg r = r\<lparr>xQueue := take queue_cap
     (xQueue r @ map rID (filter (needs_reconcile cfg r) (sorted_matches (scan_options []) (xStore r))))\<rparr>"
  by (rule scan_result [OF assms])

theorem scan_exact_witness:
  "scan (fst (ex_recon [] ())) (snd (ex_recon [] ())) = (snd (ex_recon [] ()))\<lparr>xQueue := [''r-01'']\<rparr>"
proof -
  let ?r = "snd (ex_recon [] ())" and ?cfg = "fst (ex_recon [] ())"
  have "sorted_matches (scan_options []) ex_store = [ex_web]" by code_simp
  moreover have "needs_reconcile ?cfg ?r ex_web" by (simp add: needs_reconcile_def)
  moreover have "Count (xStore ?r) \<le> 2000000" by (simp add: Count_def ex_store_eq)
  ultimately show ?thesis using scan_exact [of ?r ?cfg] by (simp add: ex_store_inv queue_cap_def)
qed

text \<open>A drift pass over a world that matches the desired state writes nothing: no status, no audit entry, no
  event, no actuation.\<close>

theorem drift_pass_quiet:
  assumes "store_inv (xStore r)" "cfgActuators cfg = registerActuators acts NewRegistry"
    "\<And>act mapper q. LookupKind (cfgActuators cfg) (actKind act) = Some act \<Longrightarrow> actDesiredFields act = Some mapper \<Longrightarrow>
       GetResource (rID q) (xStore r) = Inr q \<Longrightarrow> rKind q = actKind act \<Longrightarrow> quiet act mapper (xWorld r) q"
  shows "driftPass cfg r = r"
  unfolding driftPass_def using assms(2) registered_kinds
  by (intro quiet_drift_kinds [OF assms(1,3)]) (auto simp: LookupKind_def)

theorem drift_pass_quiet_witness:
  "let r' = reconcileOne (fst (ex_recon [Some ex_nodes] [])) ''r-01'' ''scan'' (snd (ex_recon [Some ex_nodes] []))
   in driftPass (fst (ex_recon [Some ex_nodes] [])) r' = r'"
proof -
  let ?r = "snd (ex_recon [Some ex_nodes] [])" and ?cfg = "fst (ex_recon [Some ex_nodes] [])"
  let ?r' = "reconcileOne ?cfg ''r-01'' ''scan'' ?r"
  have all: "list_all (\<lambda>(i, q). \<not> HasPrefix (sMessage (rStatus q)) driftPrefix \<and> rName q \<in> set (xWorld ?r')) (byID (xStore ?r'))"
    by code_simp
  have inv: "store_inv (xStore ?r')"
    using keeps_one [of ?r ?cfg "''r-01''" "''scan''"] ex_store_inv by (simp add: same_desired_def)
  have "quiet act mapper (xWorld ?r') q"
    if "LookupKind (cfgActuators ?cfg) (actKind act) = Some act" "actDesiredFields act = Some mapper"
      "GetResource (rID q) (xStore ?r') = Inr q" for act mapper q
  proof -
    have "(rID q, q) \<in> set (byID (xStore ?r'))"
      using that(3) inv by (auto simp: store_inv_def GetResource_iff dest: map_of_SomeD)
    then have q: "\<not> HasPrefix (sMessage (rStatus q)) driftPrefix" "rName q \<in> set (xWorld ?r')"
      using all by (auto simp: list_all_iff)
    have a: "act = ex_nodes"
      using that(1) by (simp add: LookupKind_def registerActuators_def NewRegistry_def Register_def ex_nodes_def split: if_splits)
    show ?thesis
      using q that(2) unfolding a by (auto simp: quiet_def ex_nodes_def RefFor_def CompareFields_def)
  qed
  then show ?thesis unfolding Let_def by (intro drift_pass_quiet [OF inv]) simp_all
qed

text \<open>The comparison of desired and observed fields lists, in order and once each, exactly the desired fields
  whose observed value differs or is missing; fields only the provider knows are ignored.\<close>

theorem CompareFields_exact:
  assumes "distinct (map fst want)"
  shows "set (CompareFields want got) = {k \<in> fst ` set want. map_of got k \<noteq> map_of want k} \<and>
    sorted (CompareFields want got) \<and> distinct (CompareFields want got)"
  using CompareFields_mem [OF assms] assms CompareFields_sorted by (auto simp: CompareFields_def)

theorem CompareFields_exact_witness:
  "let want = [(''image'', ''nginx:2''), (''env'', ''prod'')]; got = [(''image'', ''nginx:1''), (''env'', ''prod''), (''id'', ''7'')]
   in set (CompareFields want got) = {''image''} \<and> sorted (CompareFields want got) \<and> distinct (CompareFields want got)"
proof -
  let ?want = "[(''image'', ''nginx:2''), (''env'', ''prod'')]"
  have d: "distinct (map fst ?want)" by simp
  show ?thesis using CompareFields_exact [OF d, of "[(''image'', ''nginx:1''), (''env'', ''prod''), (''id'', ''7'')]"]
    by (auto simp: Let_def)
qed

text \<open>C31: Backoff delays: never above the policy's ceiling; for base delays up to \<open>2^42\<close> nanoseconds they are
  positive, start at the base delay (or the ceiling), double from attempt to attempt until the shift
  stops at 20 or the ceiling is reached, and so never decrease.\<close>

theorem Backoff_bounds:
  shows "Backoff p n \<le> MaxDelay (sanitized p) \<and>
    (BaseDelay (sanitized p) \<le> 2 ^ 42 \<longrightarrow>
      Backoff p n = min (MaxDelay (sanitized p)) (BaseDelay (sanitized p) * 2 ^ nat (min 20 (max 0 (n - 1)))) \<and>
      0 < Backoff p n \<and> (\<forall>n' \<ge> n. Backoff p n \<le> Backoff p n'))"
proof (intro conjI impI allI)
  show "Backoff p n \<le> MaxDelay (sanitized p)" by (auto simp: Backoff_def Let_def)
  assume b: "BaseDelay (sanitized p) \<le> 2 ^ 42"
  show "Backoff p n = min (MaxDelay (sanitized p)) (BaseDelay (sanitized p) * 2 ^ nat (min 20 (max 0 (n - 1))))"
    "0 < Backoff p n" using sanitized_pos [of p] by (simp_all add: Backoff_formula [OF b])
  fix n' assume "n \<le> n'"
  then have "BaseDelay (sanitized p) * 2 ^ nat (min 20 (max 0 (n - 1))) \<le> BaseDelay (sanitized p) * 2 ^ nat (min 20 (max 0 (n' - 1)))"
    using sanitized_pos(1) [of p] by (intro mult_left_mono power_increasing) auto
  then show "Backoff p n \<le> Backoff p n'" unfolding Backoff_formula [OF b] by (rule min.mono [OF order_refl])
qed

theorem Backoff_bounds_witness:
  "Backoff DefaultRetryPolicy 3 = 4 * second \<and> Backoff DefaultRetryPolicy 3 \<le> Backoff DefaultRetryPolicy 9 \<and>
   0 < Backoff DefaultRetryPolicy 9 \<and> Backoff DefaultRetryPolicy 9 \<le> 30 * second"
proof -
  have s: "sanitized DefaultRetryPolicy = DefaultRetryPolicy" by (simp add: sanitized_def DefaultRetryPolicy_def)
  then have b: "BaseDelay (sanitized DefaultRetryPolicy) \<le> 2 ^ 42" by (simp add: DefaultRetryPolicy_def)
  show ?thesis
    using Backoff_bounds [of DefaultRetryPolicy 9] Backoff_bounds [of DefaultRetryPolicy 3] b s
    by (simp add: DefaultRetryPolicy_def)
qed

text \<open>C30: A generation nobody actuated: when the spec of a resource changes between the actuation and its success
  stamp, the stamp marks the new generation observed and Ready, so that no scan queues it, although only
  the old spec was applied.\<close>

theorem unactuated_generation_marked_ready:
  assumes "store_inv (xStore r)" "GetResource (rID res) (xStore r) = Inr cur" "rGeneration res < rGeneration cur"
  shows "\<exists>q'. GetResource (rID res) (xStore (actuationSettled cfg res act plan t cause r)) = Inr q' \<and>
     rSpec q' = rSpec cur \<and> sPhase (rStatus q') = PhaseReady \<and> sObservedGen (rStatus q') = rGeneration cur \<and>
     rGeneration q' = rGeneration cur \<and> \<not> needs_reconcile cfg r' q'"
  using settle_stamps_current [OF assms(1,2), of cfg act plan t cause]
  by (auto simp: needs_reconcile_def desired_def)

theorem unactuated_generation_marked_ready_witness:
  "\<exists>s1 cur q'. UpdateResource ex_env (ex_io 2) ''r-01'' (ex_set_cpus 2) (ex_update 1) ex_store = (s1, Inr cur) \<and>
     GetResource ''r-01'' (xStore (actuationSettled (fst (ex_recon [Some ex_nodes] [])) ex_web ex_nodes
         \<lparr>pKind = ''Node'', pAction = ActionCreate, pChanges = [], pDesired = ex_web\<rparr>
         \<lparr>tAction = ActionCreate, tExternalID = ''web'', tMessage = []\<rparr> ''scan''
       ((snd (ex_recon [Some ex_nodes] []))\<lparr>xStore := s1\<rparr>))) = Inr q' \<and>
     sPhase (rStatus q') = PhaseReady \<and> sObservedGen (rStatus q') = 2 \<and> rSpec q' = Some [(''cpus'', JNum False 2 0)]"
proof -
  let ?cur = "ex_web\<lparr>rSpec := Some [(''cpus'', JNum False 2 0)], rGeneration := 2, rUpdatedAt := 2\<rparr>"
  obtain s1 where u: "UpdateResource ex_env (ex_io 2) ''r-01'' (ex_set_cpus 2) (ex_update 1) ex_store = (s1, Inr ?cur)"
    and m: "map_of (byID s1) ''r-01'' = Some ?cur" using ex_update_result by blast
  let ?r = "(snd (ex_recon [Some ex_nodes] []))\<lparr>xStore := s1\<rparr>"
  have inv: "store_inv (xStore ?r)"
    using update_inv [OF ex_store_inv ex_set_cpus_ok [OF ex_cpus_wf(2)], of ex_env "ex_io 2" "''r-01''" "ex_update 1"] u by simp
  then have "GetResource (rID ex_web) (xStore ?r) = Inr ?cur" using m by (simp add: store_inv_def GetResource_iff)
  from unactuated_generation_marked_ready [OF inv this] show ?thesis using u by fastforce
qed

end
