(* ===== verification/Go_Fmt.thy ===== *)
theory Go_Fmt
  imports Json
begin

text \<open>
  What the sources print: \<^verbatim>\<open>time.Time\<close> in JSON (RFC 3339 with nanoseconds, in UTC) and the \<^verbatim>\<open>%q\<close> verb of
  \<^verbatim>\<open>fmt\<close>. A time is a count of nanoseconds since Go's zero time, 1 January of year 1.
\<close>

section \<open>Calendar\<close>

definition is_leap :: "int \<Rightarrow> bool" where
  "is_leap y \<longleftrightarrow> y mod 4 = 0 \<and> (y mod 100 \<noteq> 0 \<or> y mod 400 = 0)"

definition month_lengths :: "int \<Rightarrow> int list" where
  "month_lengths y = [31, if is_leap y then 29 else 28, 31, 30, 31, 30, 31, 31, 30, 31, 30, 31]"

fun month_day :: "nat \<Rightarrow> int list \<Rightarrow> int \<Rightarrow> nat \<times> int" where
  "month_day m [] d = (m, d + 1)"
| "month_day m (l # ls) d = (if d < l then (m, d + 1) else month_day (m + 1) ls (d - l))"

text \<open>Year and day of the year of a day count, by cycles of 400, 100, 4 and 1 years.\<close>

definition year_day :: "int \<Rightarrow> int \<times> int" where
  "year_day d =
     (let n400 = d div 146097; d1 = d mod 146097;
          n100 = min 3 (d1 div 36524); d2 = d1 - n100 * 36524;
          n4 = d2 div 1461; d3 = d2 mod 1461;
          n1 = min 3 (d3 div 365)
      in (400 * n400 + 100 * n100 + 4 * n4 + n1 + 1, d3 - n1 * 365))"

section \<open>RFC 3339\<close>

definition pad :: "nat \<Rightarrow> nat \<Rightarrow> string" where
  "pad w n = replicate (w - length (dec n)) (CHR ''0'') @ dec n"

definition nano_fraction :: "nat \<Rightarrow> string" where
  "nano_fraction n = (if n = 0 then [] else CHR ''.'' # rev (dropWhile (\<lambda>c. c = CHR ''0'') (rev (pad 9 n))))"

text \<open>\<open>Time.MarshalJSON\<close> refuses years outside \<open>[0, 9999]\<close>.\<close>

definition marshal_time :: "go_time \<Rightarrow> string option" where
  "marshal_time t =
     (let secs = t div 1000000000; nanos = t mod 1000000000;
          days = secs div 86400; sod = nat (secs mod 86400);
          (y, yd) = year_day days;
          (m, d) = month_day 1 (month_lengths y) yd
      in if y < 0 \<or> 9999 < y then None
         else Some (pad 4 (nat y) @ ''-'' @ pad 2 m @ ''-'' @ pad 2 (nat d) @ ''T'' @
                pad 2 (sod div 3600) @ '':'' @ pad 2 (sod div 60 mod 60) @ '':'' @ pad 2 (sod mod 60) @
                nano_fraction (nat nanos) @ ''Z''))"

section \<open>The verb %q\<close>

text \<open>\<open>strconv.Quote\<close>; runes outside ASCII are taken as printable.\<close>

definition quote_char :: "char \<Rightarrow> string" where
  "quote_char c =
     (if c = CHR 0x22 \<or> c = CHR 0x5C then [CHR 0x5C, c]
      else if byte c = 7 then [CHR 0x5C, CHR ''a''] else if byte c = 8 then [CHR 0x5C, CHR ''b'']
      else if byte c = 12 then [CHR 0x5C, CHR ''f''] else if byte c = 10 then [CHR 0x5C, CHR ''n'']
      else if byte c = 13 then [CHR 0x5C, CHR ''r''] else if byte c = 9 then [CHR 0x5C, CHR ''t'']
      else if byte c = 11 then [CHR 0x5C, CHR ''v'']
      else if byte c < 32 \<or> 127 \<le> byte c then
        [CHR 0x5C, CHR ''x'', hex_digit (byte c div 16), hex_digit (byte c mod 16)]
      else [c])"

fun quote_body :: "string \<Rightarrow> string" where
  "quote_body [] = []"
| "quote_body (c # cs) =
     (if byte c < 0x80 then quote_char c @ quote_body cs
      else case utf8_next (c # cs) of
        None \<Rightarrow> quote_char c @ quote_body cs
      | Some n \<Rightarrow> take n (c # cs) @ quote_body (drop (n - 1) cs))"

definition go_quote :: "string \<Rightarrow> string" where
  "go_quote s = CHR 0x22 # quote_body s @ [CHR 0x22]"

end
