(* ===== verification/Webhook.thy ===== *)
theory Webhook
  imports Store Bus Paging Sha256 Go_Fmt
begin

text \<open>
  The webhook dispatcher, \<^verbatim>\<open>internal/webhook\<close> (\<open>dispatcher.go\<close>, \<open>egress.go\<close>): the view of the stored
  subscriptions, the fan-out of bus events to bounded queues, the delivery loop with its egress guard,
  retries and audit entries, and the signatures. The HTTP client, the resolver and the clock answer
  through the environment of each attempt; spans and logs are left out. Go visits a map in no fixed
  order; the model visits the handles in the order of the association list.
\<close>

section \<open>State\<close>

definition SubjectPattern :: string where "SubjectPattern = SubjectNamespace @ ''.>''"
definition DefaultQueueSize :: int where "DefaultQueueSize = 256"
definition DefaultRequestTimeout :: duration where "DefaultRequestTimeout = 5 * second"
definition DefaultBackoffBase :: duration where "DefaultBackoffBase = 1 * second"
definition MaxBackoff :: duration where "MaxBackoff = 60 * second"
definition AuditActor :: string where "AuditActor = ''webhook-dispatcher''"
definition ActionDelivered :: string where "ActionDelivered = ''webhook_delivered''"
definition ActionFailed :: string where "ActionFailed = ''webhook_failed''"

record wh_options =
  hBackoffBase :: duration
  hServerSecret :: string
  hRequestTimeout :: duration
  hQueueSize :: int
  hAllowPrivateEgress :: "bool option"
  hCheckRedirect :: "(string \<Rightarrow> string option) option"  \<comment> \<open>the client's redirect policy: an error refuses\<close>

record sub_view =
  vRes :: resource
  vSpec :: subscription_spec
  vSecret :: string

record sub_handle =
  hID :: string
  hView :: "sub_view option"     \<comment> \<open>the atomic pointer; nil before the first store\<close>
  hQueue :: "event list"         \<comment> \<open>a channel of capacity \<open>QueueSize\<close>\<close>

record dispatcher =
  dOpts :: wh_options
  dStore :: store
  dSubs :: "(string, sub_handle) gomap"
  dDurable :: bool
  dBusSub :: "nat subscription option"
  dDone :: bool                  \<comment> \<open>the context is cancelled\<close>

section \<open>Construction\<close>

definition denyRedirect :: "string \<Rightarrow> string option" where
  "denyRedirect u =
     Some (''webhook: redirect to '' @ go_quote u @ '' denied (egress policy: redirects are not followed)'')"

text \<open>The 32 random bytes, or \<open>None\<close> when the entropy source fails.\<close>

definition randomSecret :: "string option \<Rightarrow> string" where
  "randomSecret b =
     (case b of None \<Rightarrow> EncodeToHex ''ryvex-insecure-fallback-webhook-secret'' | Some bytes \<Rightarrow> EncodeToHex bytes)"

definition NewDispatcher :: "string option \<Rightarrow> store \<Rightarrow> wh_options \<Rightarrow> dispatcher" where
  "NewDispatcher rnd s o' =
     \<lparr>dOpts =
        o'\<lparr>hCheckRedirect := (if hCheckRedirect o' = None then Some denyRedirect else hCheckRedirect o'),
           hBackoffBase := (if hBackoffBase o' \<le> 0 then DefaultBackoffBase else hBackoffBase o'),
           hRequestTimeout := (if hRequestTimeout o' \<le> 0 then DefaultRequestTimeout else hRequestTimeout o'),
           hQueueSize := (if hQueueSize o' \<le> 0 then DefaultQueueSize else hQueueSize o'),
           hServerSecret := (if hServerSecret o' = [] then randomSecret rnd else hServerSecret o')\<rparr>,
      dStore = s, dSubs = [], dDurable = False, dBusSub = None, dDone = False\<rparr>"

section \<open>Signatures\<close>

definition secretFor :: "wh_options \<Rightarrow> string \<Rightarrow> string" where
  "secretFor o' subscriptionID = EncodeToHex (hmac_sha256 (hServerSecret o') subscriptionID)"

definition sign :: "string \<Rightarrow> string \<Rightarrow> string" where
  "sign secret body = ''sha256='' @ EncodeToHex (hmac_sha256 secret body)"

section \<open>The egress guard\<close>

definition allowPrivateEgress :: "wh_options \<Rightarrow> egress_env \<Rightarrow> bool" where
  "allowPrivateEgress o' env = (case hAllowPrivateEgress o' of Some b \<Rightarrow> b | None \<Rightarrow> AllowPrivate env)"

text \<open>\<open>liberr\<close> is the text of the error the URL parser or the resolver returned.\<close>

definition checkEgress :: "wh_options \<Rightarrow> egress_env \<Rightarrow> string \<Rightarrow> sub_view \<Rightarrow> string option" where
  "checkEgress o' env liberr sv =
     (if allowPrivateEgress o' env then None
      else case url_Parse (wURL (vSpec sv)) of
        None \<Rightarrow> Some (''parse url: '' @ liberr)
      | Some u \<Rightarrow>
          let host = Hostname u
          in if host = [] then Some ''target host is empty''
             else if CHR ''%'' \<in> set host then
               Some (''target '' @ go_quote host @ '' is zone-scoped (link-local scope)'')
             else case ParseIP host of
               Some i \<Rightarrow>
                 (if ForbiddenWebhookIPReason (Some i) \<noteq> [] then
                    Some (''target '' @ host @ '' is a '' @ ForbiddenWebhookIPReason (Some i))
                  else None)
             | None \<Rightarrow>
                 (case LookupHost env host of
                    None \<Rightarrow> Some (''resolve host '' @ go_quote host @ '': '' @ liberr)
                  | Some addrs \<Rightarrow>
                      (case first_forbidden addrs of
                         Some (a, reason) \<Rightarrow>
                           Some (''host '' @ go_quote host @ '' re-resolves to a '' @ reason @ '' ('' @ a @ '')'')
                       | None \<Rightarrow> None)))"

section \<open>Delivery\<close>

text \<open>The wire form: the event's fields in the order of the struct, then the subscription.\<close>

definition deliveryPayload :: "event \<Rightarrow> string \<Rightarrow> string option" where
  "deliveryPayload e subID =
     map_option (\<lambda>t. marshal (JObj
       ([(''id'', JStr (eID e)), (''time'', JStr t), (''type'', JStr (eType e)), (''subject'', JStr (eSubject e)),
         (''org'', JStr (eOrg e)), (''project'', JStr (eProject e)), (''env'', JStr (eEnv e)), (''kind'', JStr (eKind e)),
         (''name'', JStr (eName e)), (''resource_id'', JStr (eResourceID e)), (''generation'', JInt (eGeneration e))] @
        (if ePhase e = [] then [] else [(''phase'', JStr (ePhase e))]) @
        (if eActor e = [] then [] else [(''actor'', JStr (eActor e))]) @
        (case eData e of None \<Rightarrow> [] | Some m \<Rightarrow> if m = [] then [] else [(''data'', JObj m)]) @
        [(''subscription_id'', JStr subID)]))) (marshal_time (eTime e))"

record request =
  qURL :: string
  qBody :: string
  qSignature :: string
  qEventID :: string
  qSubscriptionID :: string

text \<open>What one attempt meets: the view the pointer holds then, the resolver and the opt-in, the client's
  answer (a status code, or \<open>None\<close> for a failed exchange), clock and random readings, and whether the
  wait after it ran to its end.\<close>

record attempt_env =
  aView :: "sub_view option"
  aEgress :: egress_env
  aErrText :: string
  aReply :: "request \<Rightarrow> int option"
  aClock :: go_time
  aIO :: io
  aWaited :: bool

definition audit_delivery :: "attempt_env \<Rightarrow> sub_view \<Rightarrow> string \<Rightarrow> string \<Rightarrow> store \<Rightarrow> store" where
  "audit_delivery env sv action reason s =
     fst (AppendAudit (aIO env)
       \<lparr>aID = [], aTime = aClock env, aActor = AuditActor, aAction = action, aResourceID = rID (vRes sv),
        aKind = rKind (vRes sv), aLogicalKey = LogicalKey (vRes sv), aGeneration = rGeneration (vRes sv),
        aReason = reason\<rparr> s)"

definition backoff :: "wh_options \<Rightarrow> int \<Rightarrow> duration" where
  "backoff o' n =
     (let shift = n - 1
      in if shift > 20 then MaxBackoff
         else let dur = wrap64 (hBackoffBase o' * 2 ^ nat shift)
              in if dur \<le> 0 \<or> dur > MaxBackoff then MaxBackoff else dur)"

definition request_of :: "sub_view \<Rightarrow> string \<Rightarrow> event \<Rightarrow> string \<Rightarrow> request" where
  "request_of sv body e subID =
     \<lparr>qURL = wURL (vSpec sv), qBody = body, qSignature = sign (vSecret sv) body, qEventID = eID e,
      qSubscriptionID = subID\<rparr>"

text \<open>One signed POST: the request that leaves, if one could be built, and whether the answer was a 2xx.\<close>

definition attempt :: "attempt_env \<Rightarrow> sub_view \<Rightarrow> string \<Rightarrow> event \<Rightarrow> string \<Rightarrow> request list \<times> bool" where
  "attempt env sv body e subID =
     (case url_Parse (wURL (vSpec sv)) of
        None \<Rightarrow> ([], False)
      | Some u \<Rightarrow>
          let req = request_of sv body e subID
          in ([req], case aReply env req of None \<Rightarrow> False | Some code \<Rightarrow> 200 \<le> code \<and> code < 300))"

text \<open>The trace of a delivery: what was sent and waited, and the store with its audit entries.\<close>

record trace =
  tSent :: "request list"
  tWaits :: "duration list"
  tStore :: store

definition attempt_reason :: "event \<Rightarrow> int \<Rightarrow> int \<Rightarrow> string" where
  "attempt_reason e n budget = eSubject e @ '' attempt '' @ dec_int n @ ''/'' @ dec_int budget"

function process_from ::
    "wh_options \<Rightarrow> (int \<Rightarrow> attempt_env) \<Rightarrow> string \<Rightarrow> event \<Rightarrow> string \<Rightarrow> int \<Rightarrow> int \<Rightarrow> trace \<Rightarrow> trace" where
  "process_from o' envs subID e body budget n tr =
     (case aView (envs n) of
        None \<Rightarrow> tr
      | Some sv \<Rightarrow>
          (case checkEgress o' (aEgress (envs n)) (aErrText (envs n)) sv of
             Some err \<Rightarrow>
               tr\<lparr>tStore := audit_delivery (envs n) sv ActionFailed (eSubject e @ '' egress blocked: '' @ err) (tStore tr)\<rparr>
           | None \<Rightarrow>
               let (sent, ok) = attempt (envs n) sv body e subID;
                   tr1 = tr\<lparr>tSent := tSent tr @ sent\<rparr>
               in if ok then
                    tr1\<lparr>tStore := audit_delivery (envs n) sv ActionDelivered (attempt_reason e n budget) (tStore tr1)\<rparr>
                  else
                    let tr2 = tr1\<lparr>tStore := audit_delivery (envs n) sv ActionFailed (attempt_reason e n budget) (tStore tr1)\<rparr>
                    in if n \<ge> budget then tr2
                       else
                         let tr3 = tr2\<lparr>tWaits := tWaits tr2 @ [backoff o' n]\<rparr>
                         in if \<not> aWaited (envs n) then tr3
                            else process_from o' envs subID e body budget (n + 1) tr3))"
  by pat_completeness auto
termination by (relation "measure (\<lambda>(o', envs, subID, e, body, budget, n, tr). nat (budget - n))") auto

declare process_from.simps [simp del]

text \<open>\<open>process\<close>: the budget comes from the view at the start, each attempt uses the view of its time.\<close>

definition process :: "wh_options \<Rightarrow> sub_view option \<Rightarrow> (int \<Rightarrow> attempt_env) \<Rightarrow> string \<Rightarrow> event \<Rightarrow> store \<Rightarrow> trace" where
  "process o' sv envs subID e s =
     (let tr = \<lparr>tSent = [], tWaits = [], tStore = s\<rparr>
      in case sv of
           None \<Rightarrow> tr
         | Some v \<Rightarrow>
             (case deliveryPayload e subID of
                None \<Rightarrow> tr
              | Some body \<Rightarrow> process_from o' envs subID e body (wMaxRetries (vSpec v) + 1) 1 tr))"

text \<open>One round of \<open>work\<close>: nothing after shutdown or removal, otherwise the oldest delivery.\<close>

definition work_step :: "(int \<Rightarrow> attempt_env) \<Rightarrow> string \<Rightarrow> dispatcher \<Rightarrow> dispatcher \<times> request list" where
  "work_step envs i d =
     (if dDone d then (d, [])
      else case map_of (dSubs d) i of
        None \<Rightarrow> (d, [])
      | Some h \<Rightarrow>
          (case hQueue h of
             [] \<Rightarrow> (d, [])
           | e # es \<Rightarrow>
               let tr = process (dOpts d) (hView h) envs i e (dStore d)
               in (d\<lparr>dSubs := AList.update i (h\<lparr>hQueue := es\<rparr>) (dSubs d), dStore := tStore tr\<rparr>, tSent tr)))"

section \<open>Fan-out\<close>

text \<open>\<open>enqueue\<close>: the handle's queue takes the event, or the drop is audited.\<close>

definition overflow_reason :: "wh_options \<Rightarrow> event \<Rightarrow> string" where
  "overflow_reason o' e =
     eSubject e @ '' dropped: subscription queue overflow (>'' @ dec_int (hQueueSize o') @ '' pending)''"

definition enqueue :: "attempt_env \<Rightarrow> string \<Rightarrow> event \<Rightarrow> dispatcher \<Rightarrow> dispatcher" where
  "enqueue env i e d =
     (case map_of (dSubs d) i of
        None \<Rightarrow> d
      | Some h \<Rightarrow>
          if int (length (hQueue h)) < hQueueSize (dOpts d) then
            d\<lparr>dSubs := AList.update i (h\<lparr>hQueue := hQueue h @ [e]\<rparr>) (dSubs d)\<rparr>
          else case hView h of
            None \<Rightarrow> d
          | Some sv \<Rightarrow> d\<lparr>dStore := audit_delivery env sv ActionFailed (overflow_reason (dOpts d) e) (dStore d)\<rparr>)"

definition wants :: "sub_handle \<Rightarrow> event \<Rightarrow> bool" where
  "wants h e =
     (case hView h of
        None \<Rightarrow> False
      | Some sv \<Rightarrow> wActive (vSpec sv) \<and> list_ex (\<lambda>pattern. Match pattern (eSubject e)) (wSubjects (vSpec sv)))"

definition fanout :: "(string \<Rightarrow> attempt_env) \<Rightarrow> event \<Rightarrow> dispatcher \<Rightarrow> dispatcher" where
  "fanout envs e d = fold (\<lambda>(i, h) d'. if wants h e then enqueue (envs i) i e d' else d') (dSubs d) d"

section \<open>Refresh\<close>

definition sub_list_options :: list_options where
  "sub_list_options =
     \<lparr>oOrg = [], oProject = [], oEnv = [], oKind = KindSubscription, oLimit = 200, oCursor = []\<rparr>"

definition want_one :: "egress_env \<Rightarrow> resource \<Rightarrow> (string, resource \<times> subscription_spec) gomap \<Rightarrow> (string, resource \<times> subscription_spec) gomap" where
  "want_one env r want =
     (case ParseSubscriptionSpec env (rSpec r) of Inl e \<Rightarrow> want | Inr spec \<Rightarrow> AList.update (rID r) (r, spec) want)"

definition put_view :: "wh_options \<Rightarrow> string \<times> resource \<times> subscription_spec \<Rightarrow> (string, sub_handle) gomap \<Rightarrow> (string, sub_handle) gomap" where
  "put_view o' w hs =
     (let (i, r, spec) = w; sv = \<lparr>vRes = r, vSpec = spec, vSecret = secretFor o' i\<rparr>
      in case map_of hs i of
           Some h \<Rightarrow> AList.update i (h\<lparr>hView := Some sv\<rparr>) hs
         | None \<Rightarrow> AList.update i \<lparr>hID = i, hView = Some sv, hQueue = []\<rparr> hs)"

text \<open>\<open>None\<close> would be a listing whose cursors never end.\<close>

definition refresh :: "egress_env \<Rightarrow> dispatcher \<Rightarrow> (dispatcher \<times> go_error option) option" where
  "refresh env d =
     (case page_loop stop_on_last (\<lambda>c. ListResources (sub_list_options\<lparr>oCursor := c\<rparr>) (dStore d)) (want_one env) [] [] of
        None \<Rightarrow> None
      | Some (Inl e) \<Rightarrow> Some (d, Some e)
      | Some (Inr want) \<Rightarrow>
          Some (d\<lparr>dSubs := fold (put_view (dOpts d)) want (filter (\<lambda>(i, h). map_of want i \<noteq> None) (dSubs d))\<rparr>, None))"

definition handle_count :: "dispatcher \<Rightarrow> nat" where
  "handle_count d = length (dSubs d)"

section \<open>Events and lifecycle\<close>

definition onEvent :: "egress_env \<Rightarrow> (string \<Rightarrow> attempt_env) \<Rightarrow> event \<Rightarrow> dispatcher \<Rightarrow> dispatcher option" where
  "onEvent env envs e d =
     (if EqualFold (eKind e) KindSubscription then map_option (\<lambda>(d1, err). fanout envs e d1) (refresh env d)
      else Some (fanout envs e d))"

datatype durable_outcome = Acked | ErrEventRetry

definition onEventDurable ::
    "egress_env \<Rightarrow> (string \<Rightarrow> attempt_env) \<Rightarrow> event \<Rightarrow> dispatcher \<Rightarrow> (dispatcher \<times> durable_outcome) option" where
  "onEventDurable env envs e d =
     (if EqualFold (eKind e) KindSubscription then
        map_option (\<lambda>(d1, err). case err of Some x \<Rightarrow> (d1, ErrEventRetry) | None \<Rightarrow> (fanout envs e d1, Acked)) (refresh env d)
      else Some (fanout envs e d, Acked))"

text \<open>\<open>subscribe\<close>: \<open>durable\<close> is \<open>None\<close> for a bus without durable consumers, else whether
  \<open>SubscribeDurable\<close> succeeded; the live subscription is the fallback.\<close>

definition dispatcher_subscribe :: "bool option \<Rightarrow> nat \<Rightarrow> dispatcher \<Rightarrow> nat bus \<Rightarrow> dispatcher \<times> nat bus" where
  "dispatcher_subscribe durable handler d b =
     (if durable = Some True then (d\<lparr>dDurable := True\<rparr>, b)
      else let (b1, sub) = Subscribe SubjectPattern (Some handler) b in (d\<lparr>dBusSub := sub\<rparr>, b1))"

definition Start :: "egress_env \<Rightarrow> bool option \<Rightarrow> nat \<Rightarrow> dispatcher \<Rightarrow> nat bus \<Rightarrow> (dispatcher \<times> nat bus) option" where
  "Start env durable handler d b =
     map_option (\<lambda>(d1, err). dispatcher_subscribe durable handler d1 b) (refresh env d)"

definition Stop :: "dispatcher \<Rightarrow> nat bus \<Rightarrow> dispatcher \<times> nat bus" where
  "Stop d b =
     (d\<lparr>dBusSub := None, dDone := True\<rparr>, case dBusSub d of None \<Rightarrow> b | Some sub \<Rightarrow> Cancel sub b)"

end
