(* ===== verification/Webhook_Laws.thy ===== *)
theory Webhook_Laws
  imports Webhook Store_Laws
begin

text \<open>
  Lemmas of the webhook dispatcher: the egress guard and the address policy, the delivery loop on every
  outcome, fan-out, refresh (through the paging library), and the invariant with its preservation.
\<close>

section \<open>Egress\<close>

text \<open>The delivery target a policy-abiding attempt may connect to: a public address, or a name all of whose
  current addresses are public.\<close>

definition public_target :: "egress_env \<Rightarrow> string \<Rightarrow> bool" where
  "public_target env raw \<longleftrightarrow>
     (\<exists>u. url_Parse raw = Some u \<and> Hostname u \<noteq> [] \<and> CHR ''%'' \<notin> set (Hostname u) \<and>
        (case ParseIP (Hostname u) of
           Some i \<Rightarrow> \<not> IsForbiddenWebhookIP (Some i)
         | None \<Rightarrow> \<exists>addrs. LookupHost env (Hostname u) = Some addrs \<and>
             (\<forall>a \<in> set addrs. \<forall>i. ParseIP a = Some i \<longrightarrow> \<not> IsForbiddenWebhookIP (Some i))))"

lemma checkEgress_None:
  "checkEgress o' env le sv = None \<longleftrightarrow> allowPrivateEgress o' env \<or> public_target env (wURL (vSpec sv))"
proof -
  have ff: "first_forbidden as = None \<longleftrightarrow>
      (\<forall>a \<in> set as. \<forall>i. ParseIP a = Some i \<longrightarrow> ForbiddenWebhookIPReason (Some i) = [])" for as
    by (auto simp: first_forbidden_None IsForbiddenWebhookIP_def split: option.splits)
  have fs: "(case first_forbidden as of None \<Rightarrow> None | Some (a, reason) \<Rightarrow> Some (g a reason)) = None \<longleftrightarrow>
      first_forbidden as = None" for as and g :: "string \<Rightarrow> string \<Rightarrow> string"
    by (auto split: option.split)
  show ?thesis
    unfolding checkEgress_def public_target_def Let_def IsForbiddenWebhookIP_def
    by (auto simp: ff [symmetric] fs split: option.splits if_splits)
qed

section \<open>Address policy\<close>
section \<open>Address policy\<close>

lemma forbidden_v4:
  assumes "a < 256" "b < 256" "c < 256" "d < 256"
  shows "IsForbiddenWebhookIP (Some (v4_to_16 [a, b, c, d])) \<longleftrightarrow>
     a = 0 \<or> a = 10 \<or> a = 127 \<or> (a = 100 \<and> 64 \<le> b \<and> b \<le> 127) \<or> (a = 169 \<and> b = 254) \<or>
     (a = 172 \<and> 16 \<le> b \<and> b \<le> 31) \<or> (a = 192 \<and> b = 168) \<or> 224 \<le> a"
proof -
  let ?i = "v4_to_16 [a, b, c, d]"
  have z: "replicate 10 (0 :: nat) = [0, 0, 0, 0, 0, 0, 0, 0, 0, 0]"
    "replicate 16 (0 :: nat) = [0, 0, 0, 0, 0, 0, 0, 0, 0, 0, 0, 0, 0, 0, 0, 0]" by (simp_all add: numeral_eq_Suc)
  have i: "?i = [0, 0, 0, 0, 0, 0, 0, 0, 0, 0, 255, 255, a, b, c, d]" by (simp add: v4_to_16_def z)
  have t: "To4 ?i = Some [a, b, c, d]" by (simp add: To4_def v4_to_16_def)
  have m: "\<not> IsInterfaceLocalMulticast ?i" "?i \<noteq> replicate 16 0" by (simp_all add: IsInterfaceLocalMulticast_def i z)
  have d: "b div 16 = 1 \<longleftrightarrow> 16 \<le> b \<and> b \<le> 31" "a div 16 = 14 \<longleftrightarrow> 224 \<le> a \<and> a \<le> 239" by auto
  have c: "IsUnspecified ?i \<longleftrightarrow> a = 0 \<and> b = 0 \<and> c = 0 \<and> d = 0" "IsLoopback ?i \<longleftrightarrow> a = 127"
    "IsLinkLocalUnicast ?i \<longleftrightarrow> a = 169 \<and> b = 254" "IsMulticast ?i \<longleftrightarrow> 224 \<le> a \<and> a \<le> 239"
    "IsPrivate ?i \<longleftrightarrow> a = 10 \<or> (a = 172 \<and> 16 \<le> b \<and> b \<le> 31) \<or> (a = 192 \<and> b = 168)"
    using m d by (simp_all add: t IsUnspecified_def IsLoopback_def IsLinkLocalUnicast_def IsPrivate_def IsMulticast_def)
  have "IsForbiddenWebhookIP (Some ?i) \<longleftrightarrow>
      a = 0 \<or> (a = 100 \<and> 64 \<le> b \<and> b \<le> 127) \<or> 240 \<le> a \<or> IsUnspecified ?i \<or> IsLoopback ?i \<or> IsLinkLocalUnicast ?i \<or>
      IsPrivate ?i \<or> IsMulticast ?i"
    using m(1) by (simp add: IsForbiddenWebhookIP_def ForbiddenWebhookIPReason_def t Let_def)
  moreover have "240 \<le> a \<or> (224 \<le> a \<and> a \<le> 239) \<longleftrightarrow> 224 \<le> a" by linarith
  ultimately show ?thesis unfolding c by blast
qed

section \<open>Backoff\<close>
section \<open>Backoff\<close>

lemma backoff_range: "0 < backoff o' n" "backoff o' n \<le> MaxBackoff"
  by (auto simp: backoff_def Let_def MaxBackoff_def)

lemma backoff_formula:
  assumes "0 < hBackoffBase o'" "hBackoffBase o' \<le> 2 ^ 42" "n \<le> 21"
  shows "backoff o' n = min MaxBackoff (hBackoffBase o' * 2 ^ nat (n - 1))"
proof -
  have "(2 :: int) ^ nat (n - 1) \<le> 2 ^ 20" using assms(3) by (intro power_increasing) auto
  then have "(2 :: int) ^ nat (n - 1) \<le> 2 ^ 20" using assms(3) by (intro power_increasing) auto
  then have "hBackoffBase o' * 2 ^ nat (n - 1) \<le> 2 ^ 42 * 2 ^ 20" using assms by (intro mult_mono) auto
  moreover have "0 < hBackoffBase o' * 2 ^ nat (n - 1)" using assms(1) by simp
  ultimately have "wrap64 (hBackoffBase o' * 2 ^ nat (n - 1)) = hBackoffBase o' * 2 ^ nat (n - 1)"
    by (simp add: int64_range_def)
  then show ?thesis using assms(3) \<open>0 < hBackoffBase o' * 2 ^ nat (n - 1)\<close> by (simp add: backoff_def Let_def min_def)
qed

section \<open>The delivery loop\<close>

text \<open>The environments of a run of attempts that reach a valid target and are answered without success.\<close>

definition fails_at :: "wh_options \<Rightarrow> (int \<Rightarrow> attempt_env) \<Rightarrow> sub_view \<Rightarrow> request \<Rightarrow> int \<Rightarrow> bool" where
  "fails_at o' envs sv q n \<longleftrightarrow>
     aView (envs n) = Some sv \<and> checkEgress o' (aEgress (envs n)) (aErrText (envs n)) sv = None \<and> aWaited (envs n) \<and>
     (case aReply (envs n) q of None \<Rightarrow> True | Some code \<Rightarrow> \<not> (200 \<le> code \<and> code < 300))"

definition delivery_entry :: "attempt_env \<Rightarrow> sub_view \<Rightarrow> string \<Rightarrow> string \<Rightarrow> audit_entry" where
  "delivery_entry env sv action reason =
     snd (AppendAudit (aIO env)
       \<lparr>aID = [], aTime = aClock env, aActor = AuditActor, aAction = action, aResourceID = rID (vRes sv),
        aKind = rKind (vRes sv), aLogicalKey = LogicalKey (vRes sv), aGeneration = rGeneration (vRes sv),
        aReason = reason\<rparr> (NewStore []))"

lemma audit_delivery_append: "audit_delivery env sv a m s = appendAuditRingLocked (delivery_entry env sv a m) s"
  by (simp add: audit_delivery_def delivery_entry_def AppendAudit_def Let_def)

lemma delivery_entry_simps [simp]:
  "aAction (delivery_entry env sv a m) = a" "aReason (delivery_entry env sv a m) = m"
  "aResourceID (delivery_entry env sv a m) = rID (vRes sv)" "aActor (delivery_entry env sv a m) = AuditActor"
  by (simp_all add: delivery_entry_def AppendAudit_def Let_def)

lemma failing_step:
  assumes "fails_at o' envs sv (request_of sv body e subID) n" "url_Parse (wURL (vSpec sv)) \<noteq> None" "n < budget"
  shows "process_from o' envs subID e body budget n tr =
     process_from o' envs subID e body budget (n + 1)
       \<lparr>tSent = tSent tr @ [request_of sv body e subID], tWaits = tWaits tr @ [backoff o' n],
        tStore = appendAuditRingLocked (delivery_entry (envs n) sv ActionFailed (attempt_reason e n budget)) (tStore tr)\<rparr>"
proof -
  have "aView (envs n) = Some sv" "checkEgress o' (aEgress (envs n)) (aErrText (envs n)) sv = None" "aWaited (envs n)"
    "attempt (envs n) sv body e subID = ([request_of sv body e subID], False)"
    using assms(1,2) by (auto simp: fails_at_def attempt_def split: option.splits)
  then show ?thesis
    using assms(3) by (cases tr, subst process_from.simps) (simp add: audit_delivery_append)
qed

lemma failing_prefix:
  assumes "url_Parse (wURL (vSpec sv)) \<noteq> None"
    "\<forall>m. 1 \<le> m \<and> m \<le> int k \<longrightarrow> fails_at o' envs sv (request_of sv body e subID) m" "int k < budget"
  shows "process_from o' envs subID e body budget 1 \<lparr>tSent = [], tWaits = [], tStore = s\<rparr> =
     process_from o' envs subID e body budget (int k + 1)
       \<lparr>tSent = replicate k (request_of sv body e subID), tWaits = map (backoff o') [1..int k],
        tStore = fold appendAuditRingLocked
          (map (\<lambda>m. delivery_entry (envs m) sv ActionFailed (attempt_reason e m budget)) [1..int k]) s\<rparr>"
  using assms(2,3)
proof (induction k)
  case (Suc k)
  have u: "[1..1 + int k] = [1..int k] @ [int k + 1]" using upto_rec2 [of 1 "int k + 1"] by (simp add: add.commute)
  have f: "fails_at o' envs sv (request_of sv body e subID) (int k + 1)" using Suc.prems by simp
  have "int k + 1 < budget" using Suc.prems(2) by simp
  note step = failing_step [OF f assms(1) this]
  have "process_from o' envs subID e body budget 1 \<lparr>tSent = [], tWaits = [], tStore = s\<rparr> =
     process_from o' envs subID e body budget (int k + 1)
       \<lparr>tSent = replicate k (request_of sv body e subID), tWaits = map (backoff o') [1..int k],
        tStore = fold appendAuditRingLocked
          (map (\<lambda>m. delivery_entry (envs m) sv ActionFailed (attempt_reason e m budget)) [1..int k]) s\<rparr>"
    using Suc.prems by (intro Suc.IH) auto
  also note step
  finally show ?case by (simp add: u replicate_append_same)
qed simp

lemma process_sent:
  "\<exists>new. tSent (process_from o' envs subID e body budget n tr) = tSent tr @ new \<and>
     length new \<le> nat (max 1 (budget - n + 1)) \<and>
     (\<forall>q \<in> set new. \<exists>m sv. n \<le> m \<and> aView (envs m) = Some sv \<and> q = request_of sv body e subID \<and>
        checkEgress o' (aEgress (envs m)) (aErrText (envs m)) sv = None)"
proof (induction o' envs subID e body budget n tr rule: process_from.induct)
  case (1 o' envs subID e body budget n tr)
  show ?case
  proof (cases "aView (envs n)")
    case None
    then show ?thesis by (subst process_from.simps) simp
  next
    case (Some sv)
    show ?thesis
    proof (cases "checkEgress o' (aEgress (envs n)) (aErrText (envs n)) sv")
      case (Some err)
      then show ?thesis using \<open>aView (envs n) = Some sv\<close> by (subst process_from.simps) simp
    next
      case None
      obtain sent ok where a: "attempt (envs n) sv body e subID = (sent, ok)" by fastforce
      have s: "sent = [] \<or> sent = [request_of sv body e subID]" using a by (auto simp: attempt_def Let_def split: option.splits)
      show ?thesis
      proof (cases "ok \<or> n \<ge> budget \<or> \<not> aWaited (envs n)")
        case True
        then have "tSent (process_from o' envs subID e body budget n tr) = tSent tr @ sent"
          using \<open>aView (envs n) = Some sv\<close> None a by (subst process_from.simps) (auto simp: Let_def)
        then show ?thesis using s \<open>aView (envs n) = Some sv\<close> None by (intro exI [of _ sent]) auto
      next
        case False
        let ?tr = "tr\<lparr>tSent := tSent tr @ sent,
            tStore := audit_delivery (envs n) sv ActionFailed (attempt_reason e n budget) (tStore tr), tWaits := tWaits tr @ [backoff o' n]\<rparr>"
        have eq: "process_from o' envs subID e body budget n tr = process_from o' envs subID e body budget (n + 1) ?tr"
          using False \<open>aView (envs n) = Some sv\<close> None a by (subst process_from.simps) simp
        obtain new where new: "tSent (process_from o' envs subID e body budget (n + 1) ?tr) = tSent ?tr @ new"
          "length new \<le> nat (max 1 (budget - (n + 1) + 1))"
          "\<forall>q \<in> set new. \<exists>m sv. n + 1 \<le> m \<and> aView (envs m) = Some sv \<and> q = request_of sv body e subID \<and>
             checkEgress o' (aEgress (envs m)) (aErrText (envs m)) sv = None"
          using 1 [OF \<open>aView (envs n) = Some sv\<close> None refl a [symmetric] refl _ refl _ refl] False by auto
        have "length (sent @ new) \<le> nat (max 1 (budget - n + 1))" using new(2) s False by auto
        moreover have "\<forall>q \<in> set (sent @ new). \<exists>m sv. n \<le> m \<and> aView (envs m) = Some sv \<and> q = request_of sv body e subID \<and>
             checkEgress o' (aEgress (envs m)) (aErrText (envs m)) sv = None"
        proof
          fix q assume "q \<in> set (sent @ new)"
          then consider "q \<in> set sent" | "q \<in> set new" by auto
          then show "\<exists>m sv. n \<le> m \<and> aView (envs m) = Some sv \<and> q = request_of sv body e subID \<and>
             checkEgress o' (aEgress (envs m)) (aErrText (envs m)) sv = None"
          proof cases
            case 1
            then show ?thesis using s \<open>aView (envs n) = Some sv\<close> None by (intro exI [of _ n] exI [of _ sv]) auto
          next
            case 2
            then obtain m sv' where "n + 1 \<le> m" "aView (envs m) = Some sv'" "q = request_of sv' body e subID"
              "checkEgress o' (aEgress (envs m)) (aErrText (envs m)) sv' = None" using new(3) by blast
            then show ?thesis by (intro exI [of _ m] exI [of _ sv']) simp
          qed
        qed
        ultimately show ?thesis using eq new(1) by (intro exI [of _ "sent @ new"]) simp
      qed
    qed
  qed
qed

lemma delivered_at:
  assumes "url_Parse (wURL (vSpec sv)) \<noteq> None" "int k < budget"
    "\<forall>m. 1 \<le> m \<and> m \<le> int k \<longrightarrow> fails_at o' envs sv (request_of sv body e subID) m"
    "aView (envs (int k + 1)) = Some sv"
    "checkEgress o' (aEgress (envs (int k + 1))) (aErrText (envs (int k + 1))) sv = None"
    "aReply (envs (int k + 1)) (request_of sv body e subID) = Some code" "200 \<le> code" "code < 300"
  shows "process_from o' envs subID e body budget 1 \<lparr>tSent = [], tWaits = [], tStore = s\<rparr> =
     \<lparr>tSent = replicate (k + 1) (request_of sv body e subID), tWaits = map (backoff o') [1..int k],
      tStore = fold appendAuditRingLocked
        (map (\<lambda>m. delivery_entry (envs m) sv ActionFailed (attempt_reason e m budget)) [1..int k] @
         [delivery_entry (envs (int k + 1)) sv ActionDelivered (attempt_reason e (int k + 1) budget)]) s\<rparr>"
proof -
  have a: "attempt (envs (int k + 1)) sv body e subID = ([request_of sv body e subID], True)"
    using assms(1,6-8) by (auto simp: attempt_def)
  show ?thesis unfolding failing_prefix [OF assms(1,3,2)]
    by (subst process_from.simps) (simp add: assms(4,5) a audit_delivery_append replicate_append_same)
qed

lemma exhausted_at:
  assumes "url_Parse (wURL (vSpec sv)) \<noteq> None" "budget = int k + 1"
    "\<forall>m. 1 \<le> m \<and> m \<le> int k + 1 \<longrightarrow> fails_at o' envs sv (request_of sv body e subID) m"
  shows "process_from o' envs subID e body budget 1 \<lparr>tSent = [], tWaits = [], tStore = s\<rparr> =
     \<lparr>tSent = replicate (k + 1) (request_of sv body e subID), tWaits = map (backoff o') [1..int k],
      tStore = fold appendAuditRingLocked
        (map (\<lambda>m. delivery_entry (envs m) sv ActionFailed (attempt_reason e m budget)) [1..int k + 1]) s\<rparr>"
proof -
  have f: "fails_at o' envs sv (request_of sv body e subID) (int k + 1)" using assms(3) by simp
  have u: "[1..int k + 1] = [1..int k] @ [int k + 1]" using upto_rec2 [of 1 "int k + 1"] by (simp add: add.commute)
  have a: "attempt (envs (int k + 1)) sv body e subID = ([request_of sv body e subID], False)"
    using f assms(1) by (auto simp: fails_at_def attempt_def split: option.splits)
  have p: "\<forall>m. 1 \<le> m \<and> m \<le> int k \<longrightarrow> fails_at o' envs sv (request_of sv body e subID) m" "int k < budget"
    using assms(2,3) by auto
  show ?thesis unfolding failing_prefix [OF assms(1) p]
    using f by (subst process_from.simps) (simp add: fails_at_def a audit_delivery_append u assms(2) replicate_append_same)
qed

section \<open>Fan-out\<close>

definition room :: "wh_options \<Rightarrow> sub_handle \<Rightarrow> bool" where
  "room o' h \<longleftrightarrow> int (length (hQueue h)) < hQueueSize o'"

definition after_fanout :: "wh_options \<Rightarrow> event \<Rightarrow> sub_handle \<Rightarrow> sub_handle" where
  "after_fanout o' e h = (if wants h e \<and> room o' h then h\<lparr>hQueue := hQueue h @ [e]\<rparr> else h)"

definition drop_entries :: "(string \<Rightarrow> attempt_env) \<Rightarrow> wh_options \<Rightarrow> event \<Rightarrow> (string, sub_handle) gomap \<Rightarrow> audit_entry list" where
  "drop_entries envs o' e hs =
     map (\<lambda>(i, h). delivery_entry (envs i) (the (hView h)) ActionFailed (overflow_reason o' e))
       (filter (\<lambda>(i, h). wants h e \<and> \<not> room o' h) hs)"

lemma wants_view: "wants h e \<Longrightarrow> hView h \<noteq> None"
  by (auto simp: wants_def split: option.splits)

lemma enqueue_effect:
  assumes "map_of (dSubs d) i = Some h" "wants h e"
  shows "enqueue env i e d =
     (if room (dOpts d) h then d\<lparr>dSubs := AList.update i (after_fanout (dOpts d) e h) (dSubs d)\<rparr>
      else d\<lparr>dStore := appendAuditRingLocked (delivery_entry env (the (hView h)) ActionFailed (overflow_reason (dOpts d) e)) (dStore d)\<rparr>)"
  using assms wants_view [OF assms(2)]
  by (auto simp: enqueue_def room_def after_fanout_def audit_delivery_append)

lemma fanout_fold:
  assumes "distinct (map fst hs)" "\<forall>(i, h) \<in> set hs. map_of (dSubs d) i = Some h"
  shows "map_of (dSubs (fold (\<lambda>(i, h) d'. if wants h e then enqueue (envs i) i e d' else d') hs d)) =
      (\<lambda>i. map_option (\<lambda>h. if i \<in> fst ` set hs then after_fanout (dOpts d) e h else h) (map_of (dSubs d) i)) \<and>
    dStore (fold (\<lambda>(i, h) d'. if wants h e then enqueue (envs i) i e d' else d') hs d) =
      fold appendAuditRingLocked (drop_entries envs (dOpts d) e hs) (dStore d) \<and>
    dOpts (fold (\<lambda>(i, h) d'. if wants h e then enqueue (envs i) i e d' else d') hs d) = dOpts d \<and>
    map fst (dSubs (fold (\<lambda>(i, h) d'. if wants h e then enqueue (envs i) i e d' else d') hs d)) = map fst (dSubs d)"
  using assms
proof (induction hs arbitrary: d)
  case Nil
  then show ?case by (simp add: drop_entries_def option.map_ident)
next
  case (Cons x hs)
  obtain i h where x: "x = (i, h)" by fastforce
  have m: "map_of (dSubs d) i = Some h" using Cons.prems(2) x by simp
  define d1 where "d1 = (if wants h e then enqueue (envs i) i e d else d)"
  have d1: "map_of (dSubs d1) = (map_of (dSubs d))(i \<mapsto> after_fanout (dOpts d) e h)" "dOpts d1 = dOpts d"
    "dStore d1 = fold appendAuditRingLocked (drop_entries envs (dOpts d) e [(i, h)]) (dStore d)"
    "map fst (dSubs d1) = map fst (dSubs d)"
    using m map_of_SomeD [OF m]
    by (auto simp: d1_def enqueue_effect [OF m] after_fanout_def drop_entries_def update_keys intro: rev_image_eqI)
  have "\<forall>(j, g) \<in> set hs. map_of (dSubs d1) j = Some g"
    using Cons.prems x by (auto simp: d1(1) rev_image_eqI)
  note ih = Cons.IH [OF _ this, unfolded d1(2)]
  have dr: "drop_entries envs o' e (x # hs) = drop_entries envs o' e [(i, h)] @ drop_entries envs o' e hs" for o'
    by (simp add: drop_entries_def x)
  show ?case
    using ih Cons.prems(1) d1 m by (auto simp: x d1_def [symmetric] dr [unfolded x] fun_eq_iff option.map_ident)
qed

lemma fanout_effect:
  assumes "distinct (map fst (dSubs d))"
  shows "map_of (dSubs (fanout envs e d)) i = map_option (after_fanout (dOpts d) e) (map_of (dSubs d) i)"
    "dStore (fanout envs e d) = fold appendAuditRingLocked (drop_entries envs (dOpts d) e (dSubs d)) (dStore d)"
    "dOpts (fanout envs e d) = dOpts d" "map fst (dSubs (fanout envs e d)) = map fst (dSubs d)"
proof -
  have "\<forall>(i, h) \<in> set (dSubs d). map_of (dSubs d) i = Some h" using assms by auto
  note f = fanout_fold [OF assms this, of e envs]
  have "map_option (\<lambda>h. if i \<in> fst ` set (dSubs d) then after_fanout (dOpts d) e h else h) (map_of (dSubs d) i) =
      map_option (after_fanout (dOpts d) e) (map_of (dSubs d) i)"
    by (cases "map_of (dSubs d) i") (auto dest!: map_of_SomeD intro: rev_image_eqI)
  then show "map_of (dSubs (fanout envs e d)) i = map_option (after_fanout (dOpts d) e) (map_of (dSubs d) i)"
    using f by (simp add: fanout_def)
  show "dStore (fanout envs e d) = fold appendAuditRingLocked (drop_entries envs (dOpts d) e (dSubs d)) (dStore d)"
    "dOpts (fanout envs e d) = dOpts d" "map fst (dSubs (fanout envs e d)) = map fst (dSubs d)"
    using f by (simp_all add: fanout_def)
qed

section \<open>Refresh\<close>

definition wanted :: "egress_env \<Rightarrow> store \<Rightarrow> string \<Rightarrow> (resource \<times> subscription_spec) option" where
  "wanted env s i =
     (case GetResource i s of
        Inl e \<Rightarrow> None
      | Inr r \<Rightarrow> if rKind r \<noteq> KindSubscription then None
          else case ParseSubscriptionSpec env (rSpec r) of Inl e \<Rightarrow> None | Inr spec \<Rightarrow> Some (r, spec))"

definition view_of :: "wh_options \<Rightarrow> string \<Rightarrow> resource \<times> subscription_spec \<Rightarrow> sub_view" where
  "view_of o' i w = \<lparr>vRes = fst w, vSpec = snd w, vSecret = secretFor o' i\<rparr>"

definition refreshed :: "wh_options \<Rightarrow> string \<Rightarrow> resource \<times> subscription_spec \<Rightarrow> sub_handle option \<Rightarrow> sub_handle" where
  "refreshed o' i w ho =
     (case ho of
        Some h \<Rightarrow> h\<lparr>hView := Some (view_of o' i w)\<rparr>
      | None \<Rightarrow> \<lparr>hID = i, hView = Some (view_of o' i w), hQueue = []\<rparr>)"

lemma want_fold:
  assumes "distinct (map rID rs)"
  shows "map_of (fold (want_one env) rs w) i =
     (case map_of (map (\<lambda>r. (rID r, r)) rs) i of
        None \<Rightarrow> map_of w i
      | Some r \<Rightarrow> (case ParseSubscriptionSpec env (rSpec r) of Inl e \<Rightarrow> map_of w i | Inr spec \<Rightarrow> Some (r, spec)))"
  using assms
proof (induction rs arbitrary: w)
  case (Cons r rs)
  have "map_of (map (\<lambda>r. (rID r, r)) rs) (rID r) = None" using Cons.prems by (auto simp: map_of_eq_None_iff)
  moreover have "map_of (want_one env r w) i =
      (if rID r = i then (case ParseSubscriptionSpec env (rSpec r) of Inl e \<Rightarrow> map_of w i | Inr spec \<Rightarrow> Some (r, spec)) else map_of w i)"
    by (auto simp: want_one_def split: sum.split)
  ultimately show ?case using Cons by (auto split: option.splits sum.splits)
qed simp

lemma want_fold_keys: "distinct (map fst w) \<Longrightarrow> distinct (map fst (fold (want_one env) rs w))"
  by (induction rs arbitrary: w) (auto simp: want_one_def distinct_update split: sum.split)

lemma put_view_of: "map_of (put_view o' (i, w) hs) j = (if i = j then Some (refreshed o' i w (map_of hs i)) else map_of hs j)"
  by (cases w; cases "map_of hs i") (auto simp: put_view_def refreshed_def view_of_def)

lemma put_fold:
  assumes "distinct (map fst ws)"
  shows "map_of (fold (put_view o') ws hs) i =
     (case map_of ws i of None \<Rightarrow> map_of hs i | Some w \<Rightarrow> Some (refreshed o' i w (map_of hs i)))"
  using assms
proof (induction ws arbitrary: hs)
  case (Cons x ws)
  obtain j w where x: "x = (j, w)" by (rule prod.exhaust)
  have n: "map_of ws j = None" using Cons.prems x by (simp add: map_of_eq_None_iff)
  then show ?case using Cons x by (auto simp: put_view_of split: option.split)
qed simp

lemma put_fold_keys: "distinct (map fst hs) \<Longrightarrow> distinct (map fst (fold (put_view o') ws hs))"
proof (induction ws arbitrary: hs)
  case (Cons x ws)
  have "distinct (map fst (put_view o' x hs))"
    using Cons.prems by (cases x) (auto simp: put_view_def Let_def distinct_update split: option.splits prod.splits)
  then show ?case using Cons by simp
qed simp

definition subs_in :: "store \<Rightarrow> resource list" where
  "subs_in s = sorted_matches sub_list_options s"

lemma filter_keys_map_of: "map_of (filter (\<lambda>(k, v). P k) xs) k = (if P k then map_of xs k else None)"
  by (induction xs) auto

lemma subs_in_iff:
  "index_inv s \<Longrightarrow> r \<in> set (subs_in s) \<longleftrightarrow> GetResource (rID r) s = Inr r \<and> rKind r = KindSubscription"
  unfolding subs_in_def by (auto simp: sorted_matches_get list_match_def sub_list_options_def KindSubscription_def)

lemma subs_in_map_of:
  assumes i: "index_inv s"
  shows "map_of (map (\<lambda>r. (rID r, r)) (subs_in s)) j =
     (case GetResource j s of Inl e \<Rightarrow> None | Inr r \<Rightarrow> if rKind r = KindSubscription then Some r else None)"
proof -
  have dist: "distinct (map rID (subs_in s))" using distinct_sorted_matches [OF i] by (simp add: subs_in_def)
  have out: "map_of (map (\<lambda>r. (rID r, r)) (subs_in s)) j = None" if "j \<notin> rID ` set (subs_in s)"
    using that by (simp add: map_of_eq_None_iff image_image)
  have mem: "GetResource j s = Inr q \<and> rKind q = KindSubscription" if "q \<in> set (subs_in s)" "rID q = j" for q
    using that subs_in_iff [OF i] by auto
  show ?thesis
  proof (cases "GetResource j s")
    case (Inr r)
    then have id: "rID r = j" using stored_okD [OF i] by (auto simp: GetResource_iff [OF i] stored_ok_def)
    show ?thesis
    proof (cases "rKind r = KindSubscription")
      case True
      then have "(j, r) \<in> set (map (\<lambda>r. (rID r, r)) (subs_in s))" using subs_in_iff [OF i, of r] Inr id by force
      then show ?thesis using True Inr dist by (simp add: map_of_is_SomeI comp_def del: set_map)
    next
      case False
      then show ?thesis using mem Inr by (subst out) fastforce+
    qed
  next
    case (Inl e)
    then show ?thesis using mem by (subst out) fastforce+
  qed
qed

lemma refresh_result:
  assumes "store_inv (dStore d)" "length (subs_in (dStore d)) \<le> 2147483647" "distinct (map fst (dSubs d))"
  shows "\<exists>d'. refresh env d = Some (d', None) \<and> dStore d' = dStore d \<and> dOpts d' = dOpts d \<and> distinct (map fst (dSubs d')) \<and>
     dDone d' = dDone d \<and> dBusSub d' = dBusSub d \<and>
     (\<forall>i. map_of (dSubs d') i = map_option (\<lambda>w. refreshed (dOpts d) i w (map_of (dSubs d) i)) (wanted env (dStore d) i))"
proof -
  let ?s = "dStore d" let ?q = "(?s, sub_list_options)"
  have i: "index_inv ?s" using assms(1) by (simp add: store_inv_def)
  have f: "mem_fits ?q" using assms(2) by (simp add: mem_defs subs_in_def)
  have dist: "distinct (map rID (subs_in ?s))" using distinct_sorted_matches [OF i] by (simp add: subs_in_def)
  define want where "want = fold (want_one env) (subs_in ?s) []"
  have loop: "page_loop stop_on_last (\<lambda>c. ListResources (sub_list_options\<lparr>oCursor := c\<rparr>) ?s) (want_one env) [] [] = Some (Inr want)"
    using mem.walk_all [OF f good_stops(1), of "want_one env" "[]"]
    by (simp add: mem_list_def mem_contents_def DeepCopy_sorted_matches [OF i] want_def subs_in_def)
  have m: "map_of want j = wanted env ?s j" for j
    unfolding want_def want_fold [OF dist] subs_in_map_of [OF i] wanted_def by (simp split: sum.split)
  have dw: "distinct (map fst want)" unfolding want_def by (rule want_fold_keys) simp
  let ?keep = "filter (\<lambda>(i, h). map_of want i \<noteq> None) (dSubs d)"
  have dk: "distinct (map fst ?keep)" by (rule distinct_map_filter [OF assms(3)])
  have "map_of (fold (put_view (dOpts d)) want ?keep) j =
      map_option (\<lambda>w. refreshed (dOpts d) j w (map_of (dSubs d) j)) (wanted env ?s j)" for j
    by (simp add: put_fold [OF dw] filter_keys_map_of m split: option.split)
  then show ?thesis
    using put_fold_keys [OF dk] by (simp add: refresh_def loop)
qed

section \<open>Invariant\<close>

definition handle_ok :: "wh_options \<Rightarrow> string \<Rightarrow> sub_handle \<Rightarrow> bool" where
  "handle_ok o' i h \<longleftrightarrow>
     hID h = i \<and> int (length (hQueue h)) \<le> hQueueSize o' \<and>
     (\<exists>sv. hView h = Some sv \<and> vSecret sv = secretFor o' i \<and> rID (vRes sv) = i \<and> rKind (vRes sv) = KindSubscription \<and>
        (\<exists>env. ParseSubscriptionSpec env (rSpec (vRes sv)) = Inr (vSpec sv)))"

definition dispatcher_inv :: "dispatcher \<Rightarrow> bool" where
  "dispatcher_inv d \<longleftrightarrow>
     store_inv (dStore d) \<and> distinct (map fst (dSubs d)) \<and> 0 < hQueueSize (dOpts d) \<and> 0 < hBackoffBase (dOpts d) \<and>
     hServerSecret (dOpts d) \<noteq> [] \<and> hCheckRedirect (dOpts d) \<noteq> None \<and>
     (\<forall>i h. map_of (dSubs d) i = Some h \<longrightarrow> handle_ok (dOpts d) i h)"

lemma EncodeToHex_Nil [simp]: "EncodeToHex s = [] \<longleftrightarrow> s = []"
  by (cases s) (auto simp: EncodeToHex_def)

lemma NewDispatcher_inv: "store_inv s \<Longrightarrow> rnd \<noteq> Some [] \<Longrightarrow> dispatcher_inv (NewDispatcher rnd s o')"
  by (auto simp: dispatcher_inv_def NewDispatcher_def DefaultQueueSize_def DefaultBackoffBase_def randomSecret_def split: option.split)

lemma store_inv_append [simp]: "store_inv s \<Longrightarrow> store_inv (appendAuditRingLocked e s)"
  by (simp add: store_inv_def)

lemma store_inv_appends [simp]: "store_inv s \<Longrightarrow> store_inv (fold appendAuditRingLocked es s)"
  by (induction es arbitrary: s) auto

lemma fanout_inv:
  assumes "dispatcher_inv d"
  shows "dispatcher_inv (fanout envs e d)"
proof -
  have d: "distinct (map fst (dSubs d))" using assms by (simp add: dispatcher_inv_def)
  have "handle_ok (dOpts d) i (after_fanout (dOpts d) e h)" if "map_of (dSubs d) i = Some h" for i h
    using assms that by (auto simp: dispatcher_inv_def handle_ok_def after_fanout_def room_def)
  then show ?thesis
    using assms by (auto simp: dispatcher_inv_def fanout_effect [OF d])
qed

lemma refresh_inv:
  assumes "dispatcher_inv d" "refresh env d = Some (d', err)" "length (subs_in (dStore d)) \<le> 2147483647"
  shows "dispatcher_inv d' \<and> err = None"
proof -
  have inv: "store_inv (dStore d)" "distinct (map fst (dSubs d))" using assms(1) by (simp_all add: dispatcher_inv_def)
  have i: "index_inv (dStore d)" using inv(1) by (simp add: store_inv_def)
  have r: "err = None" "dStore d' = dStore d" "dOpts d' = dOpts d" "distinct (map fst (dSubs d'))"
    "\<And>i. map_of (dSubs d') i = map_option (\<lambda>w. refreshed (dOpts d) i w (map_of (dSubs d) i)) (wanted env (dStore d) i)"
    using refresh_result [OF inv(1) assms(3) inv(2), of env] assms(2) by auto
  have "handle_ok (dOpts d) j (refreshed (dOpts d) j w (map_of (dSubs d) j))" if w: "wanted env (dStore d) j = Some w" for j w
  proof -
    obtain q where q: "GetResource j (dStore d) = Inr q" "rKind q = KindSubscription" "fst w = q"
      "ParseSubscriptionSpec env (rSpec q) = Inr (snd w)"
      using w by (auto simp: wanted_def split: sum.splits if_splits)
    then have "rID q = j" using stored_okD [OF i] by (auto simp: GetResource_iff [OF i] stored_ok_def)
    then show ?thesis
      using assms(1) q by (auto simp: dispatcher_inv_def handle_ok_def refreshed_def view_of_def split: option.split)
  qed
  then show ?thesis using assms(1) r by (auto simp: dispatcher_inv_def)
qed

lemma process_store_inv: "store_inv (tStore tr) \<Longrightarrow> store_inv (tStore (process_from o' envs subID e body budget n tr))"
proof (induction o' envs subID e body budget n tr rule: process_from.induct)
  case (1 o' envs subID e body budget n tr)
  show ?case
    using 1 by (subst process_from.simps) (auto simp: Let_def audit_delivery_append split: option.splits prod.splits)
qed

lemma work_inv:
  assumes "dispatcher_inv d"
  shows "dispatcher_inv (fst (work_step envs i d))"
proof (cases "map_of (dSubs d) i")
  case (Some h)
  have "store_inv (tStore (process o' v envs i e (dStore d)))" for o' v e
    using assms process_store_inv by (auto simp: dispatcher_inv_def process_def Let_def split: option.split)
  moreover have "handle_ok (dOpts d) i h" using assms Some by (simp add: dispatcher_inv_def)
  then have "handle_ok (dOpts d) i (h\<lparr>hQueue := es\<rparr>)" if "hQueue h = e # es" for e es
    using that by (auto simp: handle_ok_def)
  ultimately show ?thesis
    using assms Some
    by (auto simp: work_step_def Let_def dispatcher_inv_def simp del: map_of_eq_Some_iff split: list.split if_splits)
qed (use assms in \<open>simp add: work_step_def\<close>)

section \<open>Runs\<close>

text \<open>The dispatcher between other users of the store: construction, live and durable events, delivery rounds,
  and store operations of the rest of the daemon.\<close>

inductive wh_reach :: "dispatcher \<Rightarrow> bool" where
  init: "store_inv s \<Longrightarrow> rnd \<noteq> Some [] \<Longrightarrow> wh_reach (NewDispatcher rnd s o')"
| live_event: "wh_reach d \<Longrightarrow> length (subs_in (dStore d)) \<le> 2147483647 \<Longrightarrow> onEvent env envs e d = Some d' \<Longrightarrow> wh_reach d'"
| durable_event: "wh_reach d \<Longrightarrow> length (subs_in (dStore d)) \<le> 2147483647 \<Longrightarrow>
    onEventDurable env envs e d = Some (d', out) \<Longrightarrow> wh_reach d'"
| deliver: "wh_reach d \<Longrightarrow> wh_reach (fst (work_step aenvs i d))"
| store_op: "wh_reach d \<Longrightarrow> op_ok op (dStore d) \<Longrightarrow> wh_reach (d\<lparr>dStore := apply_op env op (dStore d)\<rparr>)"

lemma onEvent_inv:
  assumes "dispatcher_inv d" "length (subs_in (dStore d)) \<le> 2147483647" "onEvent env envs e d = Some d'"
  shows "dispatcher_inv d'"
proof (cases "EqualFold (eKind e) KindSubscription")
  case True
  then obtain d1 err where "refresh env d = Some (d1, err)" "d' = fanout envs e d1"
    using assms(3) by (auto simp: onEvent_def)
  then show ?thesis using refresh_inv [OF assms(1) _ assms(2)] fanout_inv by blast
next
  case False
  then show ?thesis using assms fanout_inv by (auto simp: onEvent_def)
qed

lemma onEventDurable_inv:
  assumes "dispatcher_inv d" "length (subs_in (dStore d)) \<le> 2147483647" "onEventDurable env envs e d = Some (d', out)"
  shows "dispatcher_inv d'" "out = Acked"
proof -
  have "dispatcher_inv d' \<and> out = Acked"
  proof (cases "EqualFold (eKind e) KindSubscription")
    case True
    then obtain d1 err where r: "refresh env d = Some (d1, err)"
      and o: "(d', out) = (case err of Some x \<Rightarrow> (d1, ErrEventRetry) | None \<Rightarrow> (fanout envs e d1, Acked))"
      using assms(3) by (auto simp: onEventDurable_def)
    from refresh_inv [OF assms(1) r assms(2)] o show ?thesis using fanout_inv by simp
  next
    case False
    then show ?thesis using assms fanout_inv by (auto simp: onEventDurable_def)
  qed
  then show "dispatcher_inv d'" "out = Acked" by simp_all
qed

lemma reach_inv: "wh_reach d \<Longrightarrow> dispatcher_inv d"
proof (induction rule: wh_reach.induct)
  case (store_op d op env)
  then show ?case using op_inv [of "dStore d" op env] by (simp add: dispatcher_inv_def)
qed (auto intro: NewDispatcher_inv onEvent_inv onEventDurable_inv work_inv)

end
