(* ===== verification/Webhook_Props.thy ===== *)
theory Webhook_Props
  imports Webhook_Laws Samples
begin

text \<open>
  Properties of the webhook dispatcher: the egress guard, exact delivery and retry behaviour, fan-out,
  refresh and the invariant of its runs.
\<close>

section \<open>Samples\<close>

definition ex_sub_spec :: jobj where
  "ex_sub_spec = [(''max_retries'', JNum False 2 0), (''subjects'', JArr [JStr ''ryvex.resource.acme.>'']), (''url'', JStr ''https://hooks.acme.io/x'')]"

definition ex_hook :: resource where
  "ex_hook = (ex_node ''hook'' 1)\<lparr>rKind := KindSubscription, rSpec := Some ex_sub_spec\<rparr>"

definition ex_hook_store :: store where
  "ex_hook_store = fst (CreateResource ex_env (ex_io 2) (Some ex_hook) ex_opts ex_store)"

definition ex_hook_opts :: wh_options where
  "ex_hook_opts = \<lparr>hBackoffBase = 0, hServerSecret = ''s3cret'', hRequestTimeout = 0, hQueueSize = 2,
     hAllowPrivateEgress = Some False, hCheckRedirect = None\<rparr>"

definition ex_disp :: dispatcher where
  "ex_disp = NewDispatcher None ex_hook_store ex_hook_opts"

definition ex_view :: sub_view where
  "ex_view = \<lparr>vRes = ex_hook\<lparr>rID := ''r-02''\<rparr>, vSpec = \<lparr>wURL = ''https://hooks.acme.io/x'', wSubjects = [''ryvex.resource.acme.>''],
     wActive = True, wMaxRetries = 2\<rparr>, vSecret = ''k''\<rparr>"

definition ex_tevent :: event where
  "ex_tevent = \<lparr>eID = ''evt-7'', eTime = 63837552705000000000, eType = ''created'', eSubject = ''ryvex.resource.acme.node.created'',
     eOrg = ''acme'', eProject = ''core'', eEnv = ''prod'', eKind = ''Node'', eName = ''web'', eResourceID = ''r-01'',
     eGeneration = 1, ePhase = [], eActor = ''ci'', eData = None\<rparr>"

text \<open>A receiver that answers 503 before attempt \<open>k\<close> and 204 from then on.\<close>

definition ex_attempts :: "int \<Rightarrow> int \<Rightarrow> attempt_env" where
  "ex_attempts k n = \<lparr>aView = Some ex_view, aEgress = ex_env, aErrText = [], aReply = (\<lambda>q. Some (if n < k then 503 else 204)),
     aClock = n, aIO = ex_io (nat n), aWaited = True\<rparr>"

lemma ex_url: "url_Parse (wURL (vSpec ex_view)) \<noteq> None"
  by code_simp

lemma ex_target: "public_target ex_env (wURL (vSpec ex_view))"
proof -
  have "checkEgress ex_hook_opts ex_env [] ex_view = None" by code_simp
  then show ?thesis by (simp add: checkEgress_None allowPrivateEgress_def ex_hook_opts_def)
qed

lemma ex_fails: "n < k \<Longrightarrow> fails_at ex_hook_opts (ex_attempts k) ex_view q n"
  using ex_target by (simp add: fails_at_def ex_attempts_def checkEgress_None)

lemma ex_payload: "\<exists>body. deliveryPayload ex_tevent i = Some body"
proof -
  have "marshal_time (eTime ex_tevent) \<noteq> None" by code_simp
  then show ?thesis by (auto simp: deliveryPayload_def)
qed

section \<open>Properties\<close>

text \<open>C36: The egress guard: whatever a delivery meets (views that change under it, changing DNS answers), every
  request it sends goes to the URL of a view it loaded, whose host was, at that attempt, a public address
  or resolved only to addresses that are not forbidden (unless private egress is allowed), and is signed
  with that view's secret over the body it carries; a delivery sends at most one request more than the
  subscription's retry count.\<close>

theorem webhook_egress_guard:
  assumes "q \<in> set (tSent (process o' (Some v) envs subID e s))"
  shows "(\<exists>m \<ge> 1. \<exists>sv. aView (envs m) = Some sv \<and> qURL q = wURL (vSpec sv) \<and> qSubscriptionID q = subID \<and>
       (allowPrivateEgress o' (aEgress (envs m)) \<or> public_target (aEgress (envs m)) (qURL q)) \<and>
       qSignature q = sign (vSecret sv) (qBody q)) \<and>
    length (tSent (process o' (Some v) envs subID e s)) \<le> nat (max 1 (wMaxRetries (vSpec v) + 1))"
proof (intro conjI)
  obtain body where b: "deliveryPayload e subID = Some body"
    using assms by (cases "deliveryPayload e subID") (auto simp: process_def)
  let ?tr = "process_from o' envs subID e body (wMaxRetries (vSpec v) + 1) 1 \<lparr>tSent = [], tWaits = [], tStore = s\<rparr>"
  have p: "process o' (Some v) envs subID e s = ?tr" using b by (simp add: process_def)
  obtain new where new: "tSent ?tr = new" "length new \<le> nat (max 1 (wMaxRetries (vSpec v) + 1))"
    "\<forall>q \<in> set new. \<exists>m sv. 1 \<le> m \<and> aView (envs m) = Some sv \<and> q = request_of sv body e subID \<and>
        checkEgress o' (aEgress (envs m)) (aErrText (envs m)) sv = None"
    using process_sent [of o' envs subID e body "wMaxRetries (vSpec v) + 1" 1 "\<lparr>tSent = [], tWaits = [], tStore = s\<rparr>"] by auto
  show "length (tSent (process o' (Some v) envs subID e s)) \<le> nat (max 1 (wMaxRetries (vSpec v) + 1))"
    using p new by simp
  have "q \<in> set new" using assms p new(1) by simp
  then obtain m sv where "1 \<le> m" "aView (envs m) = Some sv" "q = request_of sv body e subID"
    "checkEgress o' (aEgress (envs m)) (aErrText (envs m)) sv = None" using new(3) by blast
  then show "\<exists>m \<ge> 1. \<exists>sv. aView (envs m) = Some sv \<and> qURL q = wURL (vSpec sv) \<and> qSubscriptionID q = subID \<and>
       (allowPrivateEgress o' (aEgress (envs m)) \<or> public_target (aEgress (envs m)) (qURL q)) \<and>
       qSignature q = sign (vSecret sv) (qBody q)"
    by (intro exI [of _ m] conjI exI [of _ sv]) (simp_all add: request_of_def checkEgress_None)
qed

lemma ex_sent:
  "tSent (process ex_hook_opts (Some ex_view) (ex_attempts 1) ''r-02'' ex_tevent ex_store) \<noteq> []"
proof -
  obtain body where b: "deliveryPayload ex_tevent ''r-02'' = Some body" using ex_payload by blast
  have e: "aView (ex_attempts 1 (int 0 + 1)) = Some ex_view"
    "checkEgress ex_hook_opts (aEgress (ex_attempts 1 (int 0 + 1))) (aErrText (ex_attempts 1 (int 0 + 1))) ex_view = None"
    "aReply (ex_attempts 1 (int 0 + 1)) (request_of ex_view body ex_tevent ''r-02'') = Some 204" "200 \<le> (204 :: int)" "(204 :: int) < 300"
    using ex_target by (simp_all add: ex_attempts_def checkEgress_None)
  have f: "\<forall>m. 1 \<le> m \<and> m \<le> int 0 \<longrightarrow> fails_at ex_hook_opts (ex_attempts 1) ex_view (request_of ex_view body ex_tevent ''r-02'') m"
    "int 0 < wMaxRetries (vSpec ex_view) + 1" by (auto simp: ex_view_def)
  show ?thesis using b delivered_at [OF ex_url f(2,1) e, of ex_store] by (simp add: process_def)
qed

theorem webhook_egress_guard_witness:
  "\<exists>q. q \<in> set (tSent (process ex_hook_opts (Some ex_view) (ex_attempts 1) ''r-02'' ex_tevent ex_store)) \<and>
     qURL q = wURL (vSpec ex_view) \<and> public_target ex_env (qURL q) \<and> qSignature q = sign ''k'' (qBody q) \<and>
     length (tSent (process ex_hook_opts (Some ex_view) (ex_attempts 1) ''r-02'' ex_tevent ex_store)) \<le> 3"
proof -
  obtain q where q: "q \<in> set (tSent (process ex_hook_opts (Some ex_view) (ex_attempts 1) ''r-02'' ex_tevent ex_store))"
    using ex_sent by (meson list.set_sel(1))
  have "qURL q = wURL (vSpec ex_view)" "public_target ex_env (qURL q)" "qSignature q = sign ''k'' (qBody q)"
    using webhook_egress_guard [OF q] ex_target
    by (auto simp: ex_attempts_def allowPrivateEgress_def ex_hook_opts_def) (simp_all add: ex_view_def)
  then show ?thesis using q webhook_egress_guard [OF q] by (auto simp: ex_view_def)
qed

text \<open>A delivery that fails \<open>k\<close> times and is then answered with a 2xx within the budget sends exactly
  \<open>k + 1\<close> copies of one signed request, waits the backoffs of attempts 1 to \<open>k\<close> in between, and leaves
  \<open>k\<close> \<open>webhook_failed\<close> entries and one \<open>webhook_delivered\<close> entry in the audit log.\<close>

theorem webhook_delivery_exact:
  assumes "deliveryPayload e subID = Some body" "url_Parse (wURL (vSpec sv)) \<noteq> None" "int k \<le> wMaxRetries (vSpec sv)"
    "\<forall>m. 1 \<le> m \<and> m \<le> int k \<longrightarrow> fails_at o' envs sv (request_of sv body e subID) m"
    "aView (envs (int k + 1)) = Some sv"
    "checkEgress o' (aEgress (envs (int k + 1))) (aErrText (envs (int k + 1))) sv = None"
    "aReply (envs (int k + 1)) (request_of sv body e subID) = Some code" "200 \<le> code" "code < 300"
  shows "tSent (process o' (Some sv) envs subID e s) = replicate (k + 1) (request_of sv body e subID) \<and>
    tWaits (process o' (Some sv) envs subID e s) = map (backoff o') [1..int k] \<and>
    (\<exists>es. tStore (process o' (Some sv) envs subID e s) = fold appendAuditRingLocked es s \<and>
       map aAction es = replicate k ActionFailed @ [ActionDelivered] \<and> (\<forall>a \<in> set es. aResourceID a = rID (vRes sv)))"
proof (intro conjI)
  note d = delivered_at [OF assms(2) _ assms(4-9), of "wMaxRetries (vSpec sv) + 1" s]
  have p: "process o' (Some sv) envs subID e s =
      process_from o' envs subID e body (wMaxRetries (vSpec sv) + 1) 1 \<lparr>tSent = [], tWaits = [], tStore = s\<rparr>"
    using assms(1) by (simp add: process_def)
  show "tSent (process o' (Some sv) envs subID e s) = replicate (k + 1) (request_of sv body e subID)"
    "tWaits (process o' (Some sv) envs subID e s) = map (backoff o') [1..int k]"
    using d assms(3) by (simp_all add: p)
  show "\<exists>es. tStore (process o' (Some sv) envs subID e s) = fold appendAuditRingLocked es s \<and>
       map aAction es = replicate k ActionFailed @ [ActionDelivered] \<and> (\<forall>a \<in> set es. aResourceID a = rID (vRes sv))"
    using d assms(3)
    by (intro exI [of _ "map (\<lambda>m. delivery_entry (envs m) sv ActionFailed (attempt_reason e m (wMaxRetries (vSpec sv) + 1))) [1..int k] @
      [delivery_entry (envs (int k + 1)) sv ActionDelivered (attempt_reason e (int k + 1) (wMaxRetries (vSpec sv) + 1))]"])
      (auto simp: p comp_def map_replicate_const)
qed

theorem webhook_delivery_exact_witness:
  "\<exists>body. deliveryPayload ex_tevent ''r-02'' = Some body \<and>
     tSent (process ex_hook_opts (Some ex_view) (ex_attempts 3) ''r-02'' ex_tevent ex_store) =
       replicate 3 (request_of ex_view body ex_tevent ''r-02'') \<and>
     tWaits (process ex_hook_opts (Some ex_view) (ex_attempts 3) ''r-02'' ex_tevent ex_store) = map (backoff ex_hook_opts) [1..2] \<and>
     (\<exists>es. tStore (process ex_hook_opts (Some ex_view) (ex_attempts 3) ''r-02'' ex_tevent ex_store) =
        fold appendAuditRingLocked es ex_store \<and> map aAction es = replicate 2 ActionFailed @ [ActionDelivered])"
proof -
  obtain body where b: "deliveryPayload ex_tevent ''r-02'' = Some body" using ex_payload by blast
  have f: "\<forall>m. 1 \<le> m \<and> m \<le> int 2 \<longrightarrow> fails_at ex_hook_opts (ex_attempts 3) ex_view (request_of ex_view body ex_tevent ''r-02'') m"
    using ex_fails by simp
  have r: "int 2 \<le> wMaxRetries (vSpec ex_view)" by (simp add: ex_view_def)
  have e: "aView (ex_attempts 3 (int 2 + 1)) = Some ex_view"
    "checkEgress ex_hook_opts (aEgress (ex_attempts 3 (int 2 + 1))) (aErrText (ex_attempts 3 (int 2 + 1))) ex_view = None"
    "aReply (ex_attempts 3 (int 2 + 1)) (request_of ex_view body ex_tevent ''r-02'') = Some 204" "200 \<le> (204 :: int)" "(204 :: int) < 300"
    using ex_target by (simp_all add: ex_attempts_def checkEgress_None)
  note d = webhook_delivery_exact [OF b ex_url r f e, of ex_store]
  show ?thesis using b d by auto
qed



text \<open>Waits between attempts are positive and at most a minute, and for base delays up to \<open>2^42\<close> nanoseconds
  and the first 21 attempts they are the base doubled per attempt, capped at the minute.\<close>

theorem webhook_backoff:
  "0 < backoff o' n \<and> backoff o' n \<le> MaxBackoff \<and>
   (0 < hBackoffBase o' \<and> hBackoffBase o' \<le> 2 ^ 42 \<and> n \<le> 21 \<longrightarrow>
      backoff o' n = min MaxBackoff (hBackoffBase o' * 2 ^ nat (n - 1)))"
  using backoff_range backoff_formula by blast

theorem webhook_backoff_witness:
  "backoff (ex_hook_opts\<lparr>hBackoffBase := 1 * second\<rparr>) 3 = 4 * second \<and> 0 < backoff ex_hook_opts 9 \<and> backoff ex_hook_opts 9 \<le> MaxBackoff"
  using webhook_backoff [of "ex_hook_opts\<lparr>hBackoffBase := 1 * second\<rparr>" 3] webhook_backoff [of ex_hook_opts 9]
  by (simp add: MaxBackoff_def)

text \<open>C38: Fan-out: an event is appended exactly once to the queue of each active subscription one of whose
  patterns matches its subject and whose queue has room; every other queue and every view is untouched,
  and each event dropped on a full queue leaves one audit entry for its subscription.\<close>

theorem fanout_exact:
  assumes "dispatcher_inv d"
  shows "map_of (dSubs (fanout envs e d)) i =
      map_option (\<lambda>h. if wants h e \<and> int (length (hQueue h)) < hQueueSize (dOpts d) then h\<lparr>hQueue := hQueue h @ [e]\<rparr> else h)
        (map_of (dSubs d) i) \<and>
    (\<exists>es. dStore (fanout envs e d) = fold appendAuditRingLocked es (dStore d) \<and>
      map aResourceID es = map fst (filter (\<lambda>(i, h). wants h e \<and> \<not> int (length (hQueue h)) < hQueueSize (dOpts d)) (dSubs d)) \<and>
      (\<forall>a \<in> set es. aAction a = ActionFailed))"
proof (intro conjI)
  have d: "distinct (map fst (dSubs d))" using assms by (simp add: dispatcher_inv_def)
  show "map_of (dSubs (fanout envs e d)) i =
      map_option (\<lambda>h. if wants h e \<and> int (length (hQueue h)) < hQueueSize (dOpts d) then h\<lparr>hQueue := hQueue h @ [e]\<rparr> else h)
        (map_of (dSubs d) i)"
    by (simp add: fanout_effect(1) [OF d] after_fanout_def [abs_def] room_def)
  have "rID (vRes (the (hView h))) = j" if "(j, h) \<in> set (dSubs d)" for j h
  proof -
    have "handle_ok (dOpts d) j h" using assms that d by (simp add: dispatcher_inv_def)
    then show ?thesis by (auto simp: handle_ok_def)
  qed
  then have "map aResourceID (drop_entries envs (dOpts d) e (dSubs d)) =
      map fst (filter (\<lambda>(i, h). wants h e \<and> \<not> room (dOpts d) h) (dSubs d))"
    by (auto simp: drop_entries_def)
  then show "\<exists>es. dStore (fanout envs e d) = fold appendAuditRingLocked es (dStore d) \<and>
      map aResourceID es = map fst (filter (\<lambda>(i, h). wants h e \<and> \<not> int (length (hQueue h)) < hQueueSize (dOpts d)) (dSubs d)) \<and>
      (\<forall>a \<in> set es. aAction a = ActionFailed)"
    using fanout_effect(2) [OF d, of envs e]
    by (intro exI [of _ "drop_entries envs (dOpts d) e (dSubs d)"]) (auto simp: room_def drop_entries_def)
qed

lemma ex_hook_store_inv: "store_inv ex_hook_store"
proof -
  have "wf_resource ex_hook" "map_of (byID ex_store) (newID (ioRand (ex_io 2))) = None" by code_simp+
  then have "op_ok (OpCreate (ex_io 2) (Some ex_hook) ex_opts) ex_store" by simp
  from op_inv [OF ex_store_inv this, of ex_env] show ?thesis by (simp add: ex_hook_store_def)
qed

lemma ex_disp_inv: "dispatcher_inv ex_disp"
  unfolding ex_disp_def by (rule NewDispatcher_inv [OF ex_hook_store_inv]) simp

text \<open>The dispatcher with one handle, whose queue of two holds one event.\<close>

definition ex_loaded :: dispatcher where
  "ex_loaded = ex_disp\<lparr>dSubs := [(''r-02'', \<lparr>hID = ''r-02'',
     hView = Some (ex_view\<lparr>vSecret := secretFor (dOpts ex_disp) ''r-02''\<rparr>), hQueue = [ex_tevent]\<rparr>)]\<rparr>"

lemma ex_loaded_inv: "dispatcher_inv ex_loaded"
proof -
  have "ParseSubscriptionSpec ex_env (rSpec (vRes ex_view)) = Inr (vSpec ex_view)" by code_simp
  then have "handle_ok (dOpts ex_disp) ''r-02'' \<lparr>hID = ''r-02'',
     hView = Some (ex_view\<lparr>vSecret := secretFor (dOpts ex_disp) ''r-02''\<rparr>), hQueue = [ex_tevent]\<rparr>"
    by (auto simp: handle_ok_def) (simp_all add: ex_disp_def NewDispatcher_def ex_hook_opts_def ex_view_def ex_hook_def)
  then show ?thesis using ex_disp_inv by (simp add: dispatcher_inv_def ex_loaded_def)
qed

theorem fanout_exact_witness:
  "map_option hQueue (map_of (dSubs (fanout (\<lambda>i. ex_attempts 1 1) ex_tevent ex_loaded)) ''r-02'') = Some [ex_tevent, ex_tevent]"
proof -
  have "Match ''ryvex.resource.acme.>'' (eSubject ex_tevent)" by code_simp
  then have "wants (the (map_of (dSubs ex_loaded) ''r-02'')) ex_tevent"
    by (simp add: wants_def ex_loaded_def) (simp add: ex_view_def)
  moreover have "hQueueSize (dOpts ex_loaded) = 2" by (simp add: ex_loaded_def ex_disp_def NewDispatcher_def ex_hook_opts_def)
  ultimately show ?thesis
    using fanout_exact [OF ex_loaded_inv, of "\<lambda>i. ex_attempts 1 1" ex_tevent "''r-02''"]
    by (simp add: ex_loaded_def)
qed

text \<open>C39: Refresh terminates and makes the dispatcher's view the store's: afterwards there is a handle exactly
  for each stored subscription whose spec parses, with that spec and the secret derived from its ID;
  queued events of kept subscriptions survive, those of removed ones are gone.\<close>

theorem refresh_exact:
  assumes "dispatcher_inv d" "length (subs_in (dStore d)) \<le> 2147483647"
  shows "\<exists>d'. refresh env d = Some (d', None) \<and> dStore d' = dStore d \<and>
     (\<forall>i. map_of (dSubs d') i =
       (case GetResource i (dStore d) of
          Inl err \<Rightarrow> None
        | Inr r \<Rightarrow> if rKind r \<noteq> KindSubscription then None
            else case ParseSubscriptionSpec env (rSpec r) of
              Inl err \<Rightarrow> None
            | Inr spec \<Rightarrow> Some \<lparr>hID = i, hView = Some \<lparr>vRes = r, vSpec = spec, vSecret = secretFor (dOpts d) i\<rparr>,
                hQueue = (case map_of (dSubs d) i of None \<Rightarrow> [] | Some h \<Rightarrow> hQueue h)\<rparr>))"
proof -
  have inv: "store_inv (dStore d)" "distinct (map fst (dSubs d))" using assms(1) by (simp_all add: dispatcher_inv_def)
  have "refreshed (dOpts d) i w (map_of (dSubs d) i) = \<lparr>hID = i, hView = Some (view_of (dOpts d) i w),
      hQueue = (case map_of (dSubs d) i of None \<Rightarrow> [] | Some h \<Rightarrow> hQueue h)\<rparr>" for i w
  proof (cases "map_of (dSubs d) i")
    case (Some h)
    then have "hID h = i" using assms(1) by (auto simp: dispatcher_inv_def handle_ok_def)
    then show ?thesis using Some by (simp add: refreshed_def)
  qed (simp add: refreshed_def)
  then show ?thesis
    using refresh_result [OF inv(1) assms(2) inv(2), of env]
    by (auto simp: wanted_def view_of_def split: sum.split)
qed

theorem refresh_exact_witness:
  "\<exists>d'. refresh ex_env ex_disp = Some (d', None) \<and> map_of (dSubs d') ''r-01'' = None \<and>
     map_option (\<lambda>h. (hID h, hQueue h)) (map_of (dSubs d') ''r-02'') = Some (''r-02'', [])"
proof -
  have l: "length (subs_in (dStore ex_disp)) \<le> 2147483647" by code_simp
  have g: "(case GetResource ''r-01'' (dStore ex_disp) of Inr r \<Rightarrow> rKind r \<noteq> KindSubscription | _ \<Rightarrow> False)"
    "(case GetResource ''r-02'' (dStore ex_disp) of Inr r \<Rightarrow> rKind r = KindSubscription \<and>
        (case ParseSubscriptionSpec ex_env (rSpec r) of Inr spec \<Rightarrow> True | _ \<Rightarrow> False) | _ \<Rightarrow> False)"
    by code_simp+
  obtain d' where "refresh ex_env ex_disp = Some (d', None)" and
    d': "\<forall>i. map_of (dSubs d') i =
       (case GetResource i (dStore ex_disp) of
          Inl err \<Rightarrow> None
        | Inr r \<Rightarrow> if rKind r \<noteq> KindSubscription then None
            else case ParseSubscriptionSpec ex_env (rSpec r) of
              Inl err \<Rightarrow> None
            | Inr spec \<Rightarrow> Some \<lparr>hID = i, hView = Some \<lparr>vRes = r, vSpec = spec, vSecret = secretFor (dOpts ex_disp) i\<rparr>,
                hQueue = (case map_of (dSubs ex_disp) i of None \<Rightarrow> [] | Some h \<Rightarrow> hQueue h)\<rparr>)"
    using refresh_exact [OF ex_disp_inv l, of ex_env] by blast
  moreover have "map_of (dSubs ex_disp) ''r-02'' = None" by (simp add: ex_disp_def NewDispatcher_def)
  ultimately show ?thesis using g by (auto split: sum.splits)
qed

text \<open>Of the IPv4 addresses the policy refuses exactly 0/8, 10/8, 100.64/10, 127/8, 169.254/16, 172.16/12,
  192.168/16 and everything from 224.0.0.0 up.\<close>

theorem forbidden_ipv4_exact:
  assumes "a < 256" "b < 256" "c < 256" "d < 256"
  shows "IsForbiddenWebhookIP (Some (v4_to_16 [a, b, c, d])) \<longleftrightarrow>
     a = 0 \<or> a = 10 \<or> a = 127 \<or> (a = 100 \<and> 64 \<le> b \<and> b \<le> 127) \<or> (a = 169 \<and> b = 254) \<or>
     (a = 172 \<and> 16 \<le> b \<and> b \<le> 31) \<or> (a = 192 \<and> b = 168) \<or> 224 \<le> a"
  by (rule forbidden_v4 [OF assms])

theorem forbidden_ipv4_exact_witness:
  "IsForbiddenWebhookIP (Some (v4_to_16 [169, 254, 169, 254])) \<and> \<not> IsForbiddenWebhookIP (Some (v4_to_16 [93, 184, 216, 34]))"
  using forbidden_ipv4_exact [of 169 254 169 254] forbidden_ipv4_exact [of 93 184 216 34] by simp

text \<open>C40: Every dispatcher reached by events, delivery rounds and other users' store operations keeps its
  invariant: a valid store, one handle per ID, queues within their capacity, and views that hold a
  parsed subscription of their own ID with the secret derived for it.\<close>

theorem dispatcher_reach_inv: "wh_reach d \<Longrightarrow> dispatcher_inv d"
  by (rule reach_inv)

theorem dispatcher_reach_inv_witness: "\<exists>d'. onEvent ex_env (\<lambda>i. ex_attempts 1 1) (ex_tevent\<lparr>eKind := KindSubscription\<rparr>) ex_disp = Some d' \<and> dispatcher_inv d'"
proof -
  have r: "wh_reach ex_disp" unfolding ex_disp_def by (rule wh_reach.init [OF ex_hook_store_inv]) simp
  have l: "length (subs_in (dStore ex_disp)) \<le> 2147483647" by code_simp
  have inv: "store_inv (dStore ex_disp)" "distinct (map fst (dSubs ex_disp))" using ex_disp_inv by (simp_all add: dispatcher_inv_def)
  obtain d1 where "refresh ex_env ex_disp = Some (d1, None)" using refresh_result [OF inv(1) l inv(2), of ex_env] by blast
  then obtain d' where "onEvent ex_env (\<lambda>i. ex_attempts 1 1) (ex_tevent\<lparr>eKind := KindSubscription\<rparr>) ex_disp = Some d'"
    by (simp add: onEvent_def EqualFold_def)
  then show ?thesis using dispatcher_reach_inv [OF wh_reach.live_event [OF r l]] by blast
qed

end
