(* ===== verification/Http.thy ===== *)
theory Http
  imports Go_Fmt Resource
begin

text \<open>
  Requests, responses and bodies: what the API uses of \<^verbatim>\<open>net/http\<close>, \<^verbatim>\<open>internal/api/errors.go\<close>, and the decoding
  of JSON bodies into structs by \<^verbatim>\<open>json.Unmarshal\<close> (fields by name up to case, in textual order, \<open>null\<close>
  leaving a field alone, a type error failing the whole decode). A response body is the JSON value
  written, \<open>None\<close> when nothing is.
\<close>

section \<open>Messages\<close>

record http_request =
  rqMethod :: string
  rqPath :: string
  rqQuery :: "(string \<times> string) list"    \<comment> \<open>the decoded query, in order\<close>
  rqHeader :: "(string \<times> string) list"   \<comment> \<open>first value per canonical name\<close>
  rqBody :: string                       \<comment> \<open>the bytes reading yields\<close>
  rqBodyErr :: bool                      \<comment> \<open>reading on after them fails\<close>

record http_response =
  rsStatus :: nat
  rsHeader :: "(string \<times> string) list"
  rsBody :: "json option"

definition get_or_empty :: "(string \<times> string) list \<Rightarrow> string \<Rightarrow> string" where
  "get_or_empty xs k = (case map_of xs k of None \<Rightarrow> [] | Some v \<Rightarrow> v)"

abbreviation header :: "http_request \<Rightarrow> string \<Rightarrow> string" where
  "header r k \<equiv> get_or_empty (rqHeader r) k"

abbreviation query :: "http_request \<Rightarrow> string \<Rightarrow> string" where
  "query r k \<equiv> get_or_empty (rqQuery r) k"

definition has_query :: "http_request \<Rightarrow> string \<Rightarrow> bool" where
  "has_query r k \<longleftrightarrow> map_of (rqQuery r) k \<noteq> None"

section \<open>Error texts\<close>

text \<open>\<open>fmt.Sprintf\<close> for the verbs of the symbolic messages: \<open>%q\<close> quotes, \<open>%v\<close> prints the rest as a slice.\<close>

fun sprintf :: "string \<Rightarrow> string list \<Rightarrow> string" where
  "sprintf [] args = []"
| "sprintf [c] args = [c]"
| "sprintf (c # d # ds) args =
     (if c \<noteq> CHR ''%'' then c # sprintf (d # ds) args
      else case args of
        [] \<Rightarrow> c # sprintf (d # ds) args
      | a # as \<Rightarrow>
          if d = CHR ''v'' then CHR ''['' # Join '' '' (a # as) @ '']'' @ sprintf ds []
          else (if d = CHR ''q'' then go_quote a else a) @ sprintf ds as)"

fun err_text :: "go_error \<Rightarrow> string" where
  "err_text ErrNotFound = ''resource not found''"
| "err_text ErrAlreadyExists = ''resource already exists''"
| "err_text ErrConflict = ''generation conflict''"
| "err_text ErrValidation = ''validation failed''"
| "err_text ErrBadRequest = ''bad request''"
| "err_text (ValidationError f (Msg m args)) = ''invalid '' @ f @ '': '' @ sprintf m args"
| "err_text ErrBodyTooLarge = ''request body exceeds the 1 MiB limit''"
| "err_text (ErrOther s) = s"
| "err_text (GoPanic s) = s"

section \<open>The error envelope\<close>

definition writeJSON :: "nat \<Rightarrow> json option \<Rightarrow> http_response" where
  "writeJSON status v = \<lparr>rsStatus = status, rsHeader = [(''Content-Type'', ''application/json'')], rsBody = v\<rparr>"

definition writeError :: "string \<Rightarrow> nat \<Rightarrow> string \<Rightarrow> string \<Rightarrow> http_response" where
  "writeError rid status code msg =
     writeJSON status (Some (JObj [(''error'', JObj
       ([(''code'', JStr code), (''message'', JStr msg)] @ (if rid = [] then [] else [(''request_id'', JStr rid)]) @
        [(''details'', JArr [])]))]))"

definition stateStatus :: "string \<Rightarrow> go_error \<Rightarrow> http_response" where
  "stateStatus rid err =
     (if is_validation err then writeError rid 400 ''validation_failed'' (err_text err)
      else if err = ErrNotFound then writeError rid 404 ''not_found'' ''resource not found''
      else if err = ErrAlreadyExists then writeError rid 409 ''already_exists'' ''resource already exists at this address''
      else if err = ErrConflict then writeError rid 409 ''conflict'' ''generation conflict: resource was modified concurrently''
      else if err = ErrBadRequest then writeError rid 400 ''bad_request'' (err_text err)
      else writeError rid 500 ''internal_error'' ''internal error'')"

definition methodNotAllowed :: "string \<Rightarrow> http_request \<Rightarrow> string list \<Rightarrow> http_response" where
  "methodNotAllowed rid r allow =
     (let resp = writeError rid 405 ''method_not_allowed'' (''method '' @ rqMethod r @ '' not allowed on this route'')
      in resp\<lparr>rsHeader := (''Allow'', Join '', '' allow) # rsHeader resp\<rparr>)"

section \<open>Decoding into structs\<close>

text \<open>The members of an object in textual order, each with the text of its value.\<close>

fun raw_members :: "nat \<Rightarrow> string \<Rightarrow> (string \<times> string \<times> json) list option" where
  "raw_members 0 s = None"
| "raw_members (Suc n) s =
     (case skip_ws s of
        [] \<Rightarrow> None
      | q # qs \<Rightarrow>
          (case pstr qs of
             None \<Rightarrow> None
           | Some (k, r) \<Rightarrow>
               let ds = skip_ws (drop 1 (skip_ws r))
               in case pval (Suc (length ds)) ds of
                    None \<Rightarrow> None
                  | Some (v, r') \<Rightarrow>
                      let m = (k, take (length ds - length r') ds, v)
                      in case skip_ws r' of
                           [] \<Rightarrow> None
                         | c # cs \<Rightarrow> if c = CHR '','' then map_option (Cons m) (raw_members n cs) else Some [m]))"

definition obj_members :: "string \<Rightarrow> (string \<times> string \<times> json) list option" where
  "obj_members s =
     (let ds = skip_ws (drop 1 (skip_ws s))
      in if take 1 ds = ''}'' then Some [] else raw_members (Suc (length ds)) ds)"

type_synonym 'a setter = "string \<Rightarrow> json \<Rightarrow> 'a \<Rightarrow> 'a option"

fun set_fields :: "(string \<times> 'a setter) list \<Rightarrow> (string \<times> string \<times> json) list \<Rightarrow> 'a \<Rightarrow> 'a option" where
  "set_fields fs [] x = Some x"
| "set_fields fs ((k, raw, v) # ms) x =
     (case find (\<lambda>(n, f). EqualFold n k) fs of
        None \<Rightarrow> set_fields fs ms x
      | Some (n, f) \<Rightarrow> (case f raw v x of None \<Rightarrow> None | Some y \<Rightarrow> set_fields fs ms y))"

text \<open>\<open>json.Unmarshal\<close> of a text into a struct value: the text must be valid JSON as a whole.\<close>

definition unmarshal_struct :: "(string \<times> 'a setter) list \<Rightarrow> string \<Rightarrow> 'a \<Rightarrow> 'a option" where
  "unmarshal_struct fs s x =
     (case unmarshal s of
        Some JNull \<Rightarrow> Some x
      | Some (JObj m) \<Rightarrow> (case obj_members s of None \<Rightarrow> None | Some ms \<Rightarrow> set_fields fs ms x)
      | _ \<Rightarrow> None)"

definition str_field :: "(string \<Rightarrow> 'a \<Rightarrow> 'a) \<Rightarrow> 'a setter" where
  "str_field upd raw v x = (case v of JStr s \<Rightarrow> Some (upd s x) | JNull \<Rightarrow> Some x | _ \<Rightarrow> None)"

definition int_field :: "(int \<Rightarrow> 'a \<Rightarrow> 'a) \<Rightarrow> 'a setter" where
  "int_field upd raw v x =
     (case v of
        JNum s m e \<Rightarrow> map_option (\<lambda>n. upd n x) (Atoi raw)
      | JNull \<Rightarrow> Some x
      | _ \<Rightarrow> None)"

definition two_digits :: "string \<Rightarrow> nat \<Rightarrow> nat \<Rightarrow> bool" where
  "two_digits s lo hi \<longleftrightarrow> length s = 2 \<and> list_all is_digit s \<and> lo \<le> digits_value s \<and> digits_value s \<le> hi"

text \<open>The texts \<open>time.Time\<close> accepts: RFC 3339, with an optional fraction and a zone.\<close>

definition rfc3339_ok :: "string \<Rightarrow> bool" where
  "rfc3339_ok s \<longleftrightarrow>
     (let ymd = take 10 s; tm = take 8 (drop 11 s); rest = drop 19 s;
          frac = (if take 1 rest = ''.'' then takeWhile is_digit (drop 1 rest) else []);
          zone = (if frac \<noteq> [] then drop (1 + length frac) rest else rest);
          y = take 4 s; m = take 2 (drop 5 s); d = take 2 (drop 8 s)
      in 19 \<le> length s \<and> list_all is_digit y \<and> two_digits m 1 12 \<and>
         two_digits d 1 (nat (month_lengths (int (digits_value y)) ! (digits_value m - 1))) \<and>
         s ! 4 = CHR ''-'' \<and> s ! 7 = CHR ''-'' \<and> s ! 10 = CHR ''T'' \<and>
         two_digits (take 2 tm) 0 23 \<and> tm ! 2 = CHR '':'' \<and> two_digits (take 2 (drop 3 tm)) 0 59 \<and> tm ! 5 = CHR '':'' \<and>
         two_digits (drop 6 tm) 0 59 \<and>
         (zone = ''Z'' \<or>
          length zone = 6 \<and> (zone ! 0 = CHR ''+'' \<or> zone ! 0 = CHR ''-'') \<and> two_digits (take 2 (drop 1 zone)) 0 23 \<and>
          zone ! 3 = CHR '':'' \<and> two_digits (drop 4 zone) 0 59))"

text \<open>A time field: the server overwrites or ignores every time a body carries, so the value is not kept.\<close>

definition time_field :: "'a setter" where
  "time_field raw v x =
     (case v of
        JNull \<Rightarrow> Some x
      | JStr s \<Rightarrow> if rfc3339_ok (butlast (drop 1 raw)) then Some x else None
      | _ \<Rightarrow> None)"

fun string_values :: "jobj \<Rightarrow> (string \<times> string) list option" where
  "string_values [] = Some []"
| "string_values ((k, v) # kvs) =
     (case (case v of JStr s \<Rightarrow> Some s | JNull \<Rightarrow> Some [] | _ \<Rightarrow> None) of
        None \<Rightarrow> None
      | Some s \<Rightarrow> map_option (Cons (k, s)) (string_values kvs))"

fun string_elems :: "json list \<Rightarrow> string list option" where
  "string_elems [] = Some []"
| "string_elems (v # vs) =
     (case (case v of JStr s \<Rightarrow> Some s | JNull \<Rightarrow> Some [] | _ \<Rightarrow> None) of
        None \<Rightarrow> None
      | Some s \<Rightarrow> map_option (Cons s) (string_elems vs))"

text \<open>A \<open>null\<close> element reads as the empty string; what an earlier member of the same name left behind it is not
  kept.\<close>

definition strs_field :: "(string list \<Rightarrow> 'a \<Rightarrow> 'a) \<Rightarrow> 'a setter" where
  "strs_field upd raw v x =
     (case v of JArr vs \<Rightarrow> map_option (\<lambda>ss. upd ss x) (string_elems vs) | JNull \<Rightarrow> Some (upd [] x) | _ \<Rightarrow> None)"

definition status_fields :: "(string \<times> status setter) list" where
  "status_fields =
     [(''phase'', str_field (\<lambda>s st. st\<lparr>sPhase := s\<rparr>)), (''message'', str_field (\<lambda>s st. st\<lparr>sMessage := s\<rparr>)),
      (''observed_generation'', int_field (\<lambda>n st. st\<lparr>sObservedGen := n\<rparr>)), (''updated_at'', time_field)]"

definition put_all :: "(string \<times> 'v) list \<Rightarrow> (string \<times> 'v) list option \<Rightarrow> (string \<times> 'v) list option" where
  "put_all kvs m = Some (fold (\<lambda>(k, v) acc. obj_put k v acc) kvs (case m of None \<Rightarrow> [] | Some xs \<Rightarrow> xs))"

definition resource_fields :: "(string \<times> resource setter) list" where
  "resource_fields =
     [(''id'', str_field (\<lambda>s r. r\<lparr>rID := s\<rparr>)), (''kind'', str_field (\<lambda>s r. r\<lparr>rKind := s\<rparr>)),
      (''org'', str_field (\<lambda>s r. r\<lparr>rOrg := s\<rparr>)), (''project'', str_field (\<lambda>s r. r\<lparr>rProject := s\<rparr>)),
      (''env'', str_field (\<lambda>s r. r\<lparr>rEnv := s\<rparr>)), (''name'', str_field (\<lambda>s r. r\<lparr>rName := s\<rparr>)),
      (''generation'', int_field (\<lambda>n r. r\<lparr>rGeneration := n\<rparr>)),
      (''labels'', (\<lambda>raw v r. case v of
          JObj kvs \<Rightarrow> map_option (\<lambda>ls. r\<lparr>rLabels := put_all ls (rLabels r)\<rparr>) (string_values kvs)
        | JNull \<Rightarrow> Some (r\<lparr>rLabels := None\<rparr>)
        | _ \<Rightarrow> None)),
      (''spec'', (\<lambda>raw v r. case v of
          JObj kvs \<Rightarrow> Some (r\<lparr>rSpec := put_all kvs (rSpec r)\<rparr>)
        | JNull \<Rightarrow> Some (r\<lparr>rSpec := None\<rparr>)
        | _ \<Rightarrow> None)),
      (''status'', (\<lambda>raw v r. map_option (\<lambda>st. r\<lparr>rStatus := st\<rparr>) (unmarshal_struct status_fields raw (rStatus r)))),
      (''created_at'', time_field), (''updated_at'', time_field)]"

definition zero_resource :: resource where
  "zero_resource =
     \<lparr>rID = [], rKind = [], rOrg = [], rProject = [], rEnv = [], rName = [], rGeneration = 0, rLabels = None, rSpec = None,
      rStatus = \<lparr>sPhase = [], sMessage = [], sObservedGen = 0, sUpdatedAt = 0\<rparr>, rCreatedAt = 0, rUpdatedAt = 0\<rparr>"

section \<open>Bodies\<close>

definition maxBodyBytes :: nat where "maxBodyBytes = 1048576"

text \<open>\<open>io.ReadAll(io.LimitReader(r.Body, maxBodyBytes+1))\<close>: the bytes and whether reading went well.\<close>

definition read_body :: "http_request \<Rightarrow> string \<times> bool" where
  "read_body r =
     (if length (rqBody r) > maxBodyBytes then (take (maxBodyBytes + 1) (rqBody r), True)
      else (rqBody r, \<not> rqBodyErr r))"

text \<open>The text of the library's decode error is not kept.\<close>

definition decodeBody :: "(string \<times> 'a setter) list \<Rightarrow> http_request \<Rightarrow> 'a \<Rightarrow> go_error + 'a" where
  "decodeBody fs r x =
     (case read_body r of (body, ok) \<Rightarrow>
        if \<not> ok then Inl ErrBadRequest
        else if length body > maxBodyBytes then Inl ErrBodyTooLarge
        else if body = [] then Inl (ValidationError ''body'' (Msg ''request body required'' []))
        else case unmarshal_struct fs body x of
          None \<Rightarrow> Inl (ValidationError ''body'' (Msg ''invalid JSON: '' []))
        | Some y \<Rightarrow> Inr y)"

definition bodyStatus :: "string \<Rightarrow> go_error \<Rightarrow> http_response" where
  "bodyStatus rid err =
     (if err = ErrBodyTooLarge then writeError rid 413 ''payload_too_large'' ''request body exceeds the 1 MiB limit''
      else stateStatus rid err)"

definition queryInt :: "http_request \<Rightarrow> string \<Rightarrow> int \<Rightarrow> int" where
  "queryInt r key dflt =
     (let v = query r key
      in if v = [] then dflt else case Atoi v of None \<Rightarrow> dflt | Some n \<Rightarrow> if n < 0 then dflt else n)"

section \<open>Resources on the wire\<close>

text \<open>\<open>None\<close> when a time cannot be encoded: the encoder then writes nothing.\<close>

definition resource_json :: "resource \<Rightarrow> json option" where
  "resource_json r =
     (case (marshal_time (sUpdatedAt (rStatus r)), marshal_time (rCreatedAt r), marshal_time (rUpdatedAt r)) of
        (Some st, Some ct, Some ut) \<Rightarrow>
          Some (JObj
            ([(''id'', JStr (rID r)), (''kind'', JStr (rKind r)), (''org'', JStr (rOrg r)), (''project'', JStr (rProject r)),
              (''env'', JStr (rEnv r)), (''name'', JStr (rName r)), (''generation'', JInt (rGeneration r))] @
             (case rLabels r of None \<Rightarrow> [] | Some ls \<Rightarrow> if ls = [] then [] else [(''labels'', JObj (map (\<lambda>(k, v). (k, JStr v)) ls))]) @
             (case rSpec r of None \<Rightarrow> [] | Some m \<Rightarrow> if m = [] then [] else [(''spec'', JObj m)]) @
             [(''status'', JObj
                ([(''phase'', JStr (sPhase (rStatus r)))] @
                 (if sMessage (rStatus r) = [] then [] else [(''message'', JStr (sMessage (rStatus r)))]) @
                 [(''observed_generation'', JInt (sObservedGen (rStatus r))), (''updated_at'', JStr st)])),
              (''created_at'', JStr ct), (''updated_at'', JStr ut)]))
      | _ \<Rightarrow> None)"

fun those_json :: "json option list \<Rightarrow> json list option" where
  "those_json [] = Some []"
| "those_json (x # xs) = (case x of None \<Rightarrow> None | Some v \<Rightarrow> map_option (Cons v) (those_json xs))"

text \<open>\<open>Time.Format\<close> with the layout \<open>2006-01-02T15:04:05Z\<close>, of a time in UTC.\<close>

definition format_seconds :: "go_time \<Rightarrow> string" where
  "format_seconds t =
     (let secs = t div 1000000000; sod = nat (secs mod 86400);
          (y, yd) = year_day (secs div 86400);
          (m, d) = month_day 1 (month_lengths y) yd
      in (if y < 0 then ''-'' else []) @ pad 4 (nat (abs y)) @ ''-'' @ pad 2 m @ ''-'' @ pad 2 (nat d) @ ''T'' @
         pad 2 (sod div 3600) @ '':'' @ pad 2 (sod div 60 mod 60) @ '':'' @ pad 2 (sod mod 60) @ ''Z'')"

definition audit_json :: "audit_entry \<Rightarrow> json option" where
  "audit_json e =
     map_option (\<lambda>t. JObj
       ([(''id'', JStr (aID e)), (''time'', JStr t), (''actor'', JStr (aActor e)), (''action'', JStr (aAction e)),
         (''resource_id'', JStr (aResourceID e)), (''kind'', JStr (aKind e)), (''logical_key'', JStr (aLogicalKey e)),
         (''generation'', JInt (aGeneration e))] @
        (if aReason e = [] then [] else [(''reason'', JStr (aReason e))]))) (marshal_time (aTime e))"

end
