(* ===== verification/Api.thy ===== *)
theory Api
  imports Http Authz_Laws Reconcile
begin

text \<open>
  The server behind \<^verbatim>\<open>/v1\<close>, first part: its state, authentication and access control of a request
  (\<^verbatim>\<open>internal/api/middleware.go\<close>). A request is served by a function from the server to the server and a
  response; what it draws from outside (clocks, random bytes, the resolver) is the record \<open>api_env\<close>.
  Logging, metrics and spans are left out. A panic value answers as \<open>RecoverMiddleware\<close> makes it answer,
  with the status 500 of an unknown error.
\<close>

section \<open>The server\<close>

record server_config =
  scAPIKeys :: "(string, string) gomap"   \<comment> \<open>bootstrap tokens and their principals\<close>
  scSkipPrefixes :: "string list"
  scDevAuth :: bool
  scCORSOrigins :: "string list"
  scVersion :: string
  scRefresher :: nat                      \<comment> \<open>the bus handler \<open>authz.New\<close> subscribed\<close>

record 'w server =
  svRecon :: "'w recon"                   \<comment> \<open>store, bus and reconciler queue\<close>
  svAuth :: "authorizer option"           \<comment> \<open>\<open>None\<close>: the legacy bearer-only mode\<close>

record api_env =
  nvEgress :: egress_env
  nvIO :: io                              \<comment> \<open>readings of the store write\<close>
  nvDenyIO :: io                          \<comment> \<open>readings of the audit entry of a denial\<close>
  nvNow :: go_time                        \<comment> \<open>clock at publication and in probe bodies\<close>
  nvRequestRand :: string                 \<comment> \<open>the 6 bytes of a request ID\<close>
  nvTokenRand :: "string option"          \<comment> \<open>the 16 bytes of a minted token, \<open>None\<close>: the source failed\<close>

abbreviation sv_store :: "'w server \<Rightarrow> store" where
  "sv_store sv \<equiv> xStore (svRecon sv)"

definition set_store :: "store \<Rightarrow> 'w server \<Rightarrow> 'w server" where
  "set_store s sv = sv\<lparr>svRecon := (svRecon sv)\<lparr>xStore := s\<rparr>\<rparr>"

record identity =
  idPrincipal :: string
  idRoles :: "string list"
  idAdmin :: bool

text \<open>The values the middleware puts into the request context.\<close>

record req_ctx =
  cxRequestID :: string
  cxActor :: string
  cxIdentity :: "identity option"

text \<open>\<open>authorizer.Refresh()\<close> with its error dropped. A refresh that did not end (\<open>None\<close>) does not occur on a
  store that satisfies its invariant.\<close>

definition refresh_cache :: "store \<Rightarrow> authorizer \<Rightarrow> authorizer" where
  "refresh_cache s a = (case Refresh s a of None \<Rightarrow> a | Some (a', e) \<Rightarrow> a')"

definition refresh_keys :: "'w server \<Rightarrow> 'w server" where
  "refresh_keys sv = sv\<lparr>svAuth := map_option (refresh_cache (sv_store sv)) (svAuth sv)\<rparr>"

text \<open>\<open>s.bus.Publish\<close>: the bus stores the event and runs the matching handlers; of these the authoriser's is
  part of this state.\<close>

definition server_publish :: "server_config \<Rightarrow> api_env \<Rightarrow> event \<Rightarrow> 'w server \<Rightarrow> 'w server" where
  "server_publish cfg env e sv =
     (let (b, e1, hs) = Publish (nvNow env) e (xBus (svRecon sv));
          sv1 = sv\<lparr>svRecon := (svRecon sv)\<lparr>xBus := b\<rparr>\<rparr>
      in if scRefresher cfg \<in> set hs then refresh_keys sv1 else sv1)"

section \<open>Tokens\<close>

definition TokenPrefix :: string where "TokenPrefix = ''ryk_''"

definition bearerToken :: "http_request \<Rightarrow> string option" where
  "bearerToken r =
     (let h = header r ''Authorization''
      in if \<not> HasPrefix h ''Bearer '' then None
         else let tok = TrimSpace (TrimPrefix h ''Bearer '') in if tok = [] then None else Some tok)"

record static_entry =
  stPrincipal :: string
  stDigest :: string

record static_index =
  ixByDigest :: "(string, static_entry) gomap"
  ixDummy :: string

definition newStaticKeyIndex :: "(string, string) gomap \<Rightarrow> static_index" where
  "newStaticKeyIndex keys =
     \<lparr>ixByDigest = fold (\<lambda>(tok, name) m.
          if tok = [] then m
          else AList.update (HashToken tok) \<lparr>stPrincipal = name, stDigest = HashToken tok\<rparr> m) keys [],
      ixDummy = HashToken ''ryvex-digest-compare-sink''\<rparr>"

definition static_lookup :: "static_index \<Rightarrow> string \<Rightarrow> string option" where
  "static_lookup ix token =
     (let digest = HashToken token; hit = map_of (ixByDigest ix) digest;
          target = (case hit of None \<Rightarrow> ixDummy ix | Some entry \<Rightarrow> stDigest entry)
      in if digest \<noteq> target then None
         else case hit of None \<Rightarrow> None | Some entry \<Rightarrow> Some (stPrincipal entry))"

definition dev_token :: "bool \<Rightarrow> string \<Rightarrow> bool" where
  "dev_token devAuth tok \<longleftrightarrow> devAuth \<and> HasPrefix tok TokenPrefix \<and> length tok > length TokenPrefix + 3"

definition dev_principal :: "string \<Rightarrow> string" where
  "dev_principal tok = ''dev:'' @ drop (length TokenPrefix) tok"

definition authenticateToken :: "string \<Rightarrow> static_index \<Rightarrow> bool \<Rightarrow> string option" where
  "authenticateToken tok ix devAuth =
     (case static_lookup ix tok of
        Some name \<Rightarrow> Some name
      | None \<Rightarrow> if dev_token devAuth tok then Some (dev_principal tok) else None)"

datatype token_kind = TokenUnknown | TokenManaged | TokenDev

definition zero_info :: key_info where
  "zero_info = \<lparr>iID = [], iPrincipal = [], iRoles = [], iScopes = [], iActive = False\<rparr>"

definition resolveToken :: "authorizer \<Rightarrow> bool \<Rightarrow> string \<Rightarrow> string \<times> key_info \<times> token_kind" where
  "resolveToken az devAuth tok =
     (case Authenticate az tok of
        Some p \<Rightarrow> (p, (case Lookup az p of None \<Rightarrow> zero_info | Some info \<Rightarrow> info), TokenManaged)
      | None \<Rightarrow>
          if dev_token devAuth tok then (dev_principal tok, zero_info, TokenDev) else ([], zero_info, TokenUnknown))"

definition resolve_identity :: "authorizer \<Rightarrow> bool \<Rightarrow> string \<Rightarrow> identity option" where
  "resolve_identity az devAuth tok =
     (case resolveToken az devAuth tok of (p, info, kind) \<Rightarrow>
        (case kind of
           TokenManaged \<Rightarrow> Some \<lparr>idPrincipal = p, idRoles = iRoles info, idAdmin = HasRole (iRoles info) RoleAdmin\<rparr>
         | TokenDev \<Rightarrow> Some \<lparr>idPrincipal = p, idRoles = [], idAdmin = True\<rparr>
         | TokenUnknown \<Rightarrow> None))"

section \<open>The target of a request\<close>

record request_scope =
  tgOrg :: string
  tgProject :: string
  tgWrite :: bool
  tgPass :: bool
  tgAdminOnly :: bool

definition zero_scope :: request_scope where
  "zero_scope = \<lparr>tgOrg = [], tgProject = [], tgWrite = False, tgPass = False, tgAdminOnly = False\<rparr>"

definition path_segments :: "string \<Rightarrow> string list" where
  "path_segments p = Split (CHR ''/'') (TrimChar (CHR ''/'') (TrimPrefix p ''/v1''))"

text \<open>The probe struct of \<open>peekBodyScope\<close>: organisation and project.\<close>

definition probe_fields :: "(string \<times> (string \<times> string) setter) list" where
  "probe_fields =
     [(''org'', str_field (\<lambda>s (a, b). (s, b))), (''project'', str_field (\<lambda>s (a, b). (a, s)))]"

text \<open>\<open>None\<close> is the response 413; the body that was read is put back.\<close>

definition peekBodyScope :: "http_request \<Rightarrow> (string \<times> string \<times> http_request) option" where
  "peekBodyScope r =
     (case read_body r of (body, ok) \<Rightarrow>
        if ok \<and> length body > maxBodyBytes then None
        else
          let (org, project) = (if \<not> ok then ([], [])
                else case unmarshal_struct probe_fields body ([], []) of None \<Rightarrow> ([], []) | Some scope \<Rightarrow> scope)
          in Some (org, project, r\<lparr>rqBody := body, rqBodyErr := False\<rparr>))"

definition too_large :: "string \<Rightarrow> http_response" where
  "too_large rid = writeError rid 413 ''payload_too_large'' ''request body exceeds the 1 MiB limit''"

definition deriveScope :: "string \<Rightarrow> http_request \<Rightarrow> http_response + request_scope \<times> http_request" where
  "deriveScope rid r =
     (let p = rqPath r; seg = path_segments p; n = length seg
      in if p = ''/'' \<or> p = ''/v1'' \<or> p = ''/v1/'' then Inr (zero_scope\<lparr>tgPass := True\<rparr>, r)
         else if seg ! 0 = ''keys'' then Inr (zero_scope\<lparr>tgPass := True\<rparr>, r)
         else if seg ! 0 = ''resources'' \<and> n = 1 then
           (if rqMethod r = ''POST'' then
              (case peekBodyScope r of
                 None \<Rightarrow> Inl (too_large rid)
               | Some (org, project, r') \<Rightarrow> Inr (zero_scope\<lparr>tgOrg := org, tgProject := project, tgWrite := True\<rparr>, r'))
            else if query r ''org'' = [] then Inr (zero_scope\<lparr>tgAdminOnly := True\<rparr>, r)
            else Inr (zero_scope\<lparr>tgOrg := query r ''org'', tgProject := query r ''project''\<rparr>, r))
         else if seg ! 0 = ''resources'' \<and> n = 2 then Inr (zero_scope\<lparr>tgAdminOnly := True\<rparr>, r)
         else if n = 2 \<and> (seg ! 1 = ''events'' \<or> seg ! 1 = ''audit'') then Inr (zero_scope\<lparr>tgOrg := seg ! 0\<rparr>, r)
         else if n = 3 \<and> seg ! 1 = ''reconcile'' then Inr (zero_scope\<lparr>tgOrg := seg ! 0, tgWrite := True\<rparr>, r)
         else if n = 4 then Inr (zero_scope\<lparr>tgOrg := seg ! 0, tgProject := seg ! 1\<rparr>, r)
         else if n = 5 then
           Inr (zero_scope\<lparr>tgOrg := seg ! 0, tgProject := seg ! 1, tgWrite := rqMethod r \<noteq> ''GET''\<rparr>, r)
         else Inr (zero_scope\<lparr>tgAdminOnly := True\<rparr>, r))"

section \<open>Middleware\<close>

type_synonym 'w http_handler = "req_ctx \<Rightarrow> http_request \<Rightarrow> 'w server \<Rightarrow> 'w server \<times> http_response"

definition add_headers :: "(string \<times> string) list \<Rightarrow> http_response \<Rightarrow> http_response" where
  "add_headers hs resp = resp\<lparr>rsHeader := hs @ rsHeader resp\<rparr>"

definition with_headers :: "(string \<times> string) list \<Rightarrow> 'w server \<times> http_response \<Rightarrow> 'w server \<times> http_response" where
  "with_headers hs res = (case res of (sv, resp) \<Rightarrow> (sv, add_headers hs resp))"

definition request_id_char :: "char \<Rightarrow> bool" where
  "request_id_char c \<longleftrightarrow> label_edge c \<or> c = CHR ''.'' \<or> c = CHR ''_'' \<or> c = CHR ''-''"

definition requestIDPattern :: "string \<Rightarrow> bool" where
  "requestIDPattern s \<longleftrightarrow> 1 \<le> length s \<and> length s \<le> 64 \<and> list_all request_id_char s"

definition RequestIDMiddleware :: "api_env \<Rightarrow> 'w http_handler \<Rightarrow> 'w http_handler" where
  "RequestIDMiddleware env next' cx r sv =
     (let given = header r ''X-Request-Id'';
          rid = (if requestIDPattern given then given else EncodeToHex (nvRequestRand env))
      in with_headers [(''X-Request-Id'', rid)] (next' (cx\<lparr>cxRequestID := rid\<rparr>) r sv))"

definition SecurityHeadersMiddleware :: "'w http_handler \<Rightarrow> 'w http_handler" where
  "SecurityHeadersMiddleware next' cx r sv =
     with_headers
       ([(''X-Content-Type-Options'', ''nosniff''), (''X-Frame-Options'', ''DENY'')] @
        (if rqPath r = ''/v1'' \<or> rqPath r = ''/v1/'' \<or> HasPrefix (rqPath r) ''/v1/''
         then [(''Cache-Control'', ''no-store'')] else []))
       (next' cx r sv)"

definition CORSMiddleware :: "string list \<Rightarrow> 'w http_handler \<Rightarrow> 'w http_handler" where
  "CORSMiddleware allowed next' cx r sv =
     (let origin = header r ''Origin''; ok = origin \<noteq> [] \<and> origin \<in> TrimSpace ` set allowed;
          hs = (if ok then [(''Access-Control-Allow-Origin'', origin), (''Vary'', ''Origin''),
                    (''Access-Control-Allow-Methods'', ''GET, POST, PUT, DELETE, OPTIONS''),
                    (''Access-Control-Allow-Headers'', ''Authorization, Content-Type''), (''Access-Control-Max-Age'', ''600'')]
                else if origin \<noteq> [] then [(''Vary'', ''Origin'')] else [])
      in with_headers hs
           (if \<not> ok \<and> origin \<noteq> [] \<and> rqMethod r = ''OPTIONS'' then
              (sv, writeError (cxRequestID cx) 403 ''forbidden'' ''origin not allowed'')
            else if rqMethod r = ''OPTIONS'' \<and> origin \<noteq> [] then (sv, \<lparr>rsStatus = 204, rsHeader = [], rsBody = None\<rparr>)
            else next' cx r sv))"

definition unauthorized :: "string \<Rightarrow> http_response" where
  "unauthorized rid =
     add_headers [(''WWW-Authenticate'', ''Bearer realm='' @ [CHR 0x22] @ ''ryvex'' @ [CHR 0x22])]
       (writeError rid 401 ''unauthorized'' ''missing or invalid bearer token (expected ryk_ API key)'')"

text \<open>The legacy mode: any known token may do anything.\<close>

definition AuthMiddleware :: "server_config \<Rightarrow> 'w http_handler \<Rightarrow> 'w http_handler" where
  "AuthMiddleware cfg next' cx r sv =
     (if list_ex (HasPrefix (rqPath r)) (scSkipPrefixes cfg @ [''/healthz'', ''/readyz'']) then next' cx r sv
      else case bearerToken r of
        None \<Rightarrow> (sv, unauthorized (cxRequestID cx))
      | Some tok \<Rightarrow>
          (case authenticateToken tok (newStaticKeyIndex (scAPIKeys cfg)) (scDevAuth cfg) of
             None \<Rightarrow> (sv, unauthorized (cxRequestID cx))
           | Some actor \<Rightarrow> next' (cx\<lparr>cxActor := actor\<rparr>) r sv))"

definition open_path :: "string \<Rightarrow> bool" where
  "open_path p \<longleftrightarrow>
     p = ''/healthz'' \<or> HasPrefix p ''/healthz/'' \<or> p = ''/readyz'' \<or> HasPrefix p ''/readyz/''"

text \<open>The reason a caller without the admin role is refused, empty when it is not.\<close>

definition denial :: "authorizer \<Rightarrow> identity \<Rightarrow> request_scope \<Rightarrow> string" where
  "denial az ident scope =
     (if tgAdminOnly scope then ''admin role required on this route''
      else let d = Authorize az (idPrincipal ident) (tgOrg scope) (tgProject scope) (tgWrite scope)
           in if \<not> dAllowed d then dReason d else [])"

definition AuthZMiddleware ::
    "server_config \<Rightarrow> api_env \<Rightarrow> authorizer \<Rightarrow> 'w http_handler \<Rightarrow> 'w http_handler" where
  "AuthZMiddleware cfg env az next' cx r sv =
     (if open_path (rqPath r) then next' cx r sv
      else case bearerToken r of
        None \<Rightarrow> (sv, unauthorized (cxRequestID cx))
      | Some tok \<Rightarrow>
          (case resolve_identity az (scDevAuth cfg) tok of
             None \<Rightarrow> (sv, unauthorized (cxRequestID cx))
           | Some ident \<Rightarrow>
               let cx1 = cx\<lparr>cxActor := idPrincipal ident, cxIdentity := Some ident\<rparr>
               in case deriveScope (cxRequestID cx) r of
                    Inl resp \<Rightarrow> (sv, resp)
                  | Inr (scope, r1) \<Rightarrow>
                      let reason = denial az ident scope
                      in if tgPass scope \<or> idAdmin ident \<or> reason = [] then next' cx1 r1 sv
                         else (set_store (AuditDenied (nvDenyIO env) (idPrincipal ident) (tgOrg scope) (tgProject scope)
                                 (rqMethod r) (rqPath r) reason (sv_store sv)) sv,
                               writeError (cxRequestID cx) 403 ''forbidden'' reason)))"

section \<open>Route labels\<close>

definition routeLabel :: "string \<Rightarrow> string" where
  "routeLabel path =
     (if path = ''/healthz'' then ''healthz''
      else if path = ''/readyz'' then ''readyz''
      else if path = ''/'' \<or> path = ''/v1'' \<or> path = ''/v1/'' then ''index''
      else
        let seg = path_segments path; n = length seg
        in if seg ! 0 = ''resources'' \<and> n = 1 then ''resources''
           else if seg ! 0 = ''resources'' \<and> n = 2 then ''resources/{id}''
           else if seg ! 0 = ''keys'' \<and> n = 1 then ''keys''
           else if seg ! 0 = ''keys'' \<and> n = 2 then ''keys/{id}''
           else if n = 2 \<and> seg ! 1 = ''events'' then ''org/events''
           else if n = 2 \<and> seg ! 1 = ''audit'' then ''org/audit''
           else if n = 3 \<and> seg ! 1 = ''reconcile'' then ''org/reconcile/{id}''
           else if n = 4 then ''scope/{kind}''
           else if n = 5 then ''scope/{kind}/{name}''
           else ''other'')"

end
