(* ===== verification/Api_Handlers.thy ===== *)
theory Api_Handlers
  imports Api
begin

text \<open>
  The resource, feed and reconcile handlers of \<^verbatim>\<open>internal/api/handlers.go\<close>. Every handler is the whole function
  of the source: decoding, store calls with their error mapping, publication and the response. The bus is
  the in-memory one, which offers no sequence replay.
\<close>

section \<open>Resources\<close>

definition resource_event :: "string \<Rightarrow> resource \<Rightarrow> string \<Rightarrow> string \<Rightarrow> event" where
  "resource_event typ res phase actor =
     \<lparr>eID = [], eTime = 0, eType = typ, eSubject = [], eOrg = rOrg res, eProject = rProject res, eEnv = rEnv res,
      eKind = rKind res, eName = rName res, eResourceID = rID res, eGeneration = rGeneration res, ePhase = phase,
      eActor = actor, eData = None\<rparr>"

definition created_event :: "resource \<Rightarrow> string \<Rightarrow> event" where
  "created_event res actor = resource_event EventCreated res (sPhase (rStatus res)) actor"

definition write_as :: "string \<Rightarrow> string \<Rightarrow> write_options" where
  "write_as actor reason = \<lparr>wActor = actor, wReason = reason\<rparr>"

text \<open>The tail that \<open>handleCreate\<close> and the create branch of \<open>handleScopePut\<close> share: write, publish, answer 201.\<close>

definition create_and_publish ::
    "server_config \<Rightarrow> api_env \<Rightarrow> req_ctx \<Rightarrow> resource \<Rightarrow> string \<Rightarrow> 'w server \<Rightarrow> 'w server \<times> http_response" where
  "create_and_publish cfg env cx res reason sv =
     (case CreateResource (nvEgress env) (nvIO env) (Some res) (write_as (cxActor cx) reason) (sv_store sv) of
        (s, Inl e) \<Rightarrow> (set_store s sv, stateStatus (cxRequestID cx) e)
      | (s, Inr created) \<Rightarrow>
          (server_publish cfg env (created_event created (cxActor cx)) (set_store s sv),
           writeJSON 201 (resource_json created)))"

definition handleCreate :: "server_config \<Rightarrow> api_env \<Rightarrow> 'w http_handler" where
  "handleCreate cfg env cx r sv =
     (case decodeBody resource_fields r zero_resource of
        Inl e \<Rightarrow> (sv, bodyStatus (cxRequestID cx) e)
      | Inr res \<Rightarrow> create_and_publish cfg env cx (res\<lparr>rID := []\<rparr>) [] sv)"

text \<open>The loop over the kind table finds the one kind that folds to the text.\<close>

definition matchKind :: "string \<Rightarrow> string" where
  "matchKind raw =
     (let lower = ToLower raw
      in case find (\<lambda>k. EqualFold k lower) Kinds of
           Some k \<Rightarrow> k
         | None \<Rightarrow>
             if lower = ''policies'' then KindPolicy
             else let trimmed = TrimSuffix lower ''s''
                  in if trimmed \<noteq> lower then
                       (case find (\<lambda>k. EqualFold k trimmed) Kinds of Some k \<Rightarrow> k | None \<Rightarrow> raw)
                     else raw)"

definition list_response :: "resource list \<Rightarrow> string \<Rightarrow> http_response" where
  "list_response page next' =
     writeJSON 200 (map_option (\<lambda>js. JObj [(''items'', JArr js), (''next_cursor'', JStr next')])
       (those_json (map resource_json page)))"

definition handleList :: "'w http_handler" where
  "handleList cx r sv =
     (case ListResources \<lparr>oOrg = query r ''org'', oProject = query r ''project'', oEnv = query r ''env'',
              oKind = matchKind (query r ''kind''), oLimit = queryInt r ''limit'' 50, oCursor = query r ''cursor''\<rparr> (sv_store sv) of
        Inl e \<Rightarrow> (sv, stateStatus (cxRequestID cx) e)
      | Inr (page, next') \<Rightarrow> (sv, list_response page next'))"

definition handleGetByID :: "string \<Rightarrow> 'w http_handler" where
  "handleGetByID i cx r sv =
     (case GetResource i (sv_store sv) of
        Inl e \<Rightarrow> (sv, stateStatus (cxRequestID cx) e)
      | Inr res \<Rightarrow> (sv, writeJSON 200 (resource_json res)))"

definition no_content :: http_response where
  "no_content = \<lparr>rsStatus = 204, rsHeader = [], rsBody = None\<rparr>"

text \<open>The tail that the two delete handlers share.\<close>

definition delete_and_publish ::
    "server_config \<Rightarrow> api_env \<Rightarrow> req_ctx \<Rightarrow> resource \<Rightarrow> 'w server \<Rightarrow> 'w server \<times> http_response" where
  "delete_and_publish cfg env cx res sv =
     (case DeleteResource (nvIO env) (rID res) (write_as (cxActor cx) ''api delete'') (sv_store sv) of
        (s, Some e) \<Rightarrow> (set_store s sv, stateStatus (cxRequestID cx) e)
      | (s, None) \<Rightarrow> (server_publish cfg env (resource_event EventDeleted res [] (cxActor cx)) (set_store s sv), no_content))"

definition handleDeleteByID :: "server_config \<Rightarrow> api_env \<Rightarrow> string \<Rightarrow> 'w http_handler" where
  "handleDeleteByID cfg env i cx r sv =
     (case GetResource i (sv_store sv) of
        Inl e \<Rightarrow> (sv, stateStatus (cxRequestID cx) e)
      | Inr res \<Rightarrow> delete_and_publish cfg env cx res sv)"

section \<open>Scope-addressed resources\<close>

definition handleScopeList :: "string list \<Rightarrow> 'w http_handler" where
  "handleScopeList seg cx r sv =
     (case ListResources \<lparr>oOrg = seg ! 0, oProject = seg ! 1, oEnv = seg ! 2, oKind = matchKind (seg ! 3),
              oLimit = queryInt r ''limit'' 50, oCursor = query r ''cursor''\<rparr> (sv_store sv) of
        Inl e \<Rightarrow> (sv, stateStatus (cxRequestID cx) e)
      | Inr (page, next') \<Rightarrow> (sv, list_response page next'))"

abbreviation get_at :: "string list \<Rightarrow> store \<Rightarrow> go_error + resource" where
  "get_at seg s \<equiv> GetByLogicalKey (seg ! 0) (seg ! 1) (seg ! 2) (matchKind (seg ! 3)) (seg ! 4) s"

definition handleScopeGet :: "string list \<Rightarrow> 'w http_handler" where
  "handleScopeGet seg cx r sv =
     (case get_at seg (sv_store sv) of
        Inl e \<Rightarrow> (sv, stateStatus (cxRequestID cx) e)
      | Inr res \<Rightarrow> (sv, writeJSON 200 (resource_json res)))"

text \<open>The mutation callback of a PUT, and what it leaves in the captured variable \<open>changed\<close>. The store runs
  the callback only on a resource it found whose generation the caller may overwrite.\<close>

definition put_spec :: "resource \<Rightarrow> resource \<Rightarrow> resource" where
  "put_spec inp cur = cur\<lparr>rSpec := rSpec inp, rLabels := (if rLabels inp \<noteq> None then rLabels inp else rLabels cur)\<rparr>"

definition left_by :: "(resource \<Rightarrow> 'a) \<Rightarrow> string \<Rightarrow> update_options \<Rightarrow> 'a \<Rightarrow> store \<Rightarrow> 'a" where
  "left_by f i o' x s =
     (case map_of (byID s) i of
        None \<Rightarrow> x
      | Some cur \<Rightarrow>
          if uExpectedGeneration o' \<noteq> 0 \<and> uExpectedGeneration o' \<noteq> rGeneration cur then x else f (DeepCopy cur))"

definition put_options :: "string \<Rightarrow> int \<Rightarrow> update_options" where
  "put_options actor expected = \<lparr>uWrite = write_as actor ''api put'', uExpectedGeneration = expected\<rparr>"

definition put_update ::
    "server_config \<Rightarrow> api_env \<Rightarrow> req_ctx \<Rightarrow> resource \<Rightarrow> resource \<Rightarrow> 'w server \<Rightarrow> 'w server \<times> http_response" where
  "put_update cfg env cx inp existing sv =
     (let o' = put_options (cxActor cx) (rGeneration inp);
          changed = left_by (\<lambda>cur. \<not> specLabelsEqual (DeepCopy cur) (put_spec inp cur)) (rID existing) o' False (sv_store sv)
      in case UpdateResource (nvEgress env) (nvIO env) (rID existing) (\<lambda>cur. Inr (put_spec inp cur)) o' (sv_store sv) of
           (s, Inl e) \<Rightarrow> (set_store s sv, stateStatus (cxRequestID cx) e)
         | (s, Inr updated) \<Rightarrow>
             ((if changed
               then server_publish cfg env (resource_event EventUpdated updated (sPhase (rStatus updated)) (cxActor cx)) (set_store s sv)
               else set_store s sv),
              writeJSON 200 (resource_json updated)))"

definition handleScopePut :: "server_config \<Rightarrow> api_env \<Rightarrow> string list \<Rightarrow> 'w http_handler" where
  "handleScopePut cfg env seg cx r sv =
     (case decodeBody resource_fields r zero_resource of
        Inl e \<Rightarrow> (sv, bodyStatus (cxRequestID cx) e)
      | Inr inp \<Rightarrow>
          (case get_at seg (sv_store sv) of
             Inl e \<Rightarrow>
               if e = ErrNotFound then
                 create_and_publish cfg env cx
                   (inp\<lparr>rOrg := seg ! 0, rProject := seg ! 1, rEnv := seg ! 2, rKind := matchKind (seg ! 3), rName := seg ! 4,
                        rID := []\<rparr>) ''api put'' sv
               else (sv, stateStatus (cxRequestID cx) e)
           | Inr existing \<Rightarrow> put_update cfg env cx inp existing sv))"

definition handleScopeDelete :: "server_config \<Rightarrow> api_env \<Rightarrow> string list \<Rightarrow> 'w http_handler" where
  "handleScopeDelete cfg env seg cx r sv =
     (case get_at seg (sv_store sv) of
        Inl e \<Rightarrow> (sv, stateStatus (cxRequestID cx) e)
      | Inr res \<Rightarrow> delete_and_publish cfg env cx res sv)"

section \<open>The event feed\<close>

definition maxFeedPage :: int where "maxFeedPage = 500"

definition feed_limit :: "http_request \<Rightarrow> nat" where
  "feed_limit r = (let l = queryInt r ''limit'' 100 in if l \<le> 0 \<or> l > maxFeedPage then 100 else nat l)"

definition eventSeq :: "event \<Rightarrow> nat option" where
  "eventSeq e =
     (if \<not> HasPrefix (eID e) ''evt-'' then None else ParseUint (TrimPrefix (eID e) ''evt-''))"

definition older_than :: "nat \<Rightarrow> event \<Rightarrow> bool" where
  "older_than below e \<longleftrightarrow> (case eventSeq e of None \<Rightarrow> False | Some n \<Rightarrow> n < below)"

definition eventPage :: "string \<Rightarrow> nat \<Rightarrow> nat \<Rightarrow> 'h bus \<Rightarrow> event list \<times> string" where
  "eventPage org limit below b =
     (let fetch = (if below > 0 then int RingSize else int limit + 1);
          recent = Recent org fetch b;
          all = (if below > 0 then filter (older_than below) recent else recent)
      in if length all > limit then
           (take limit all,
            case eventSeq (take limit all ! (limit - 1)) of None \<Rightarrow> [] | Some n \<Rightarrow> encodeCursor (word_of_nat n))
         else (all, []))"

definition event_json :: "event \<Rightarrow> json option" where
  "event_json e =
     map_option (\<lambda>t. JObj
       ([(''id'', JStr (eID e)), (''time'', JStr t), (''type'', JStr (eType e)), (''subject'', JStr (eSubject e)),
         (''org'', JStr (eOrg e)), (''project'', JStr (eProject e)), (''env'', JStr (eEnv e)), (''kind'', JStr (eKind e)),
         (''name'', JStr (eName e)), (''resource_id'', JStr (eResourceID e)), (''generation'', JInt (eGeneration e))] @
        (if ePhase e = [] then [] else [(''phase'', JStr (ePhase e))]) @
        (if eActor e = [] then [] else [(''actor'', JStr (eActor e))]) @
        (case eData e of None \<Rightarrow> [] | Some m \<Rightarrow> if m = [] then [] else [(''data'', JObj m)]))) (marshal_time (eTime e))"

definition feed_response :: "string \<Rightarrow> json option list \<Rightarrow> string \<Rightarrow> http_response" where
  "feed_response name items next' =
     writeJSON 200 (map_option (\<lambda>js. JObj [(''count'', JInt (int (length items))), (name, JArr js), (''next_cursor'', JStr next')])
       (those_json items))"

definition handleEvents :: "string \<Rightarrow> 'w http_handler" where
  "handleEvents org cx r sv =
     (let cursor = query r ''cursor'';
          page = (\<lambda>below. case eventPage org (feed_limit r) below (xBus (svRecon sv)) of
             (evts, next') \<Rightarrow> (sv, feed_response ''events'' (map event_json evts) next'))
      in if has_query r ''from'' \<and> cursor \<noteq> [] then
           (sv, writeError (cxRequestID cx) 400 ''bad_request'' ''from and cursor are mutually exclusive query parameters'')
         else if cursor = [] then page 0
         else case decodeCursor cursor of
           Inl e \<Rightarrow> (sv, writeError (cxRequestID cx) 400 ''bad_request'' ''invalid cursor: must be an events feed pagination token'')
         | Inr n \<Rightarrow> page (unat n))"

section \<open>The audit feed\<close>

text \<open>The audit page of a request and its next cursor; a bad token is the error.\<close>

definition auditPage :: "string \<Rightarrow> string \<Rightarrow> nat \<Rightarrow> string \<Rightarrow> nat \<Rightarrow> store \<Rightarrow> go_error + audit_entry list \<times> string" where
  "auditPage org kind limit cursor offset s =
     (case ListAudit \<lparr>qOrg = org, qKind = kind, qLimit = int limit + 1, qCursor = cursor\<rparr> s of
        Inl e \<Rightarrow> Inl e
      | Inr entries \<Rightarrow>
          if length entries > limit then Inr (take limit entries, encodeCursor (word_of_nat (offset + limit)))
          else Inr (entries, []))"

definition handleAudit :: "string \<Rightarrow> 'w http_handler" where
  "handleAudit org cx r sv =
     (let cursor = query r ''cursor'';
          page = (\<lambda>offset. case auditPage org (matchKind (query r ''kind'')) (feed_limit r) cursor offset (sv_store sv) of
             Inl e \<Rightarrow>
               if e = ErrBadRequest then (sv, stateStatus (cxRequestID cx) e)
               else (sv, writeError (cxRequestID cx) 500 ''internal_error'' ''audit query failed'')
           | Inr (entries, next') \<Rightarrow> (sv, feed_response ''entries'' (map audit_json entries) next'))
      in if cursor = [] then page 0
         else case decodeCursor cursor of
           Inl e \<Rightarrow> (sv, writeError (cxRequestID cx) 400 ''bad_request'' ''invalid cursor: must be an audit feed pagination token'')
         | Inr n \<Rightarrow> page (unat n))"

section \<open>Manual reconciliation\<close>

definition handleReconcile :: "string \<Rightarrow> string \<Rightarrow> 'w http_handler" where
  "handleReconcile org i cx r sv =
     (case GetResource i (sv_store sv) of
        Inl e \<Rightarrow> (sv, stateStatus (cxRequestID cx) e)
      | Inr res \<Rightarrow>
          if org \<noteq> rOrg res then (sv, writeError (cxRequestID cx) 404 ''not_found'' ''resource not found in this org'')
          else (sv\<lparr>svRecon := Trigger i (svRecon sv)\<rparr>,
                writeJSON 202 (Some (JObj [(''reason'', JStr ''manual reconcile trigger''), (''resource_id'', JStr i),
                  (''status'', JStr ''accepted'')]))))"

end
