(* ===== verification/Api_Keys.thy ===== *)
theory Api_Keys
  imports Api_Handlers
begin

text \<open>
  The key service, \<^verbatim>\<open>internal/api/keys.go\<close>: managed keys as \<open>APIKey\<close> resources of the reserved organisation,
  minted, listed, updated and revoked; the seeding of bootstrap keys; and the handlers, which ask for the
  admin role themselves.
\<close>

section \<open>The service\<close>

record key_view =
  vID :: string
  vPrincipal :: string
  vRoles :: "string list"
  vScopes :: "string list"
  vActive :: bool
  vCreatedAt :: string
  vUpdatedAt :: string

record create_key_request =
  ckPrincipal :: string
  ckRoles :: "string list"
  ckScopes :: "string list"
  ckOrg :: string
  ckProject :: string

record update_key_request =
  ukRoles :: "string list option"
  ukScopes :: "string list option"
  ukActive :: "bool option"

definition newToken :: "string option \<Rightarrow> string option" where
  "newToken b = map_option (\<lambda>bs. TokenPrefix @ EncodeToHex bs) b"

definition anyStrings :: "string list \<Rightarrow> json" where
  "anyStrings ss = JArr (map JStr ss)"

definition scopeOrg :: "string \<Rightarrow> string option" where
  "scopeOrg scope =
     (case CutPrefix scope ''org/'' of
        None \<Rightarrow> None
      | Some rest \<Rightarrow>
          let org = (case Cut rest ''/project/'' of Some (o', p) \<Rightarrow> o' | None \<Rightarrow> rest)
          in if org = [] \<or> org = ''*'' then None else Some org)"

definition resourceToKeyView :: "resource \<Rightarrow> go_error + key_view" where
  "resourceToKeyView res =
     (case ParseAPIKeySpec (rSpec res) of
        Inl e \<Rightarrow> Inl e
      | Inr spec \<Rightarrow> Inr \<lparr>vID = rID res, vPrincipal = kPrincipal spec, vRoles = kRoles spec, vScopes = kScopes spec,
          vActive = kActive spec, vCreatedAt = format_seconds (rCreatedAt res), vUpdatedAt = format_seconds (rUpdatedAt res)\<rparr>)"

text \<open>A listing whose cursors never end would keep the loop going; the memory store's listings end.\<close>

definition listResources :: "store \<Rightarrow> go_error + resource list" where
  "listResources s =
     (case page_loop stop_on_last_or_empty (\<lambda>c. ListResources (key_list_options\<lparr>oCursor := c\<rparr>) s)
             (\<lambda>r out. out @ [r]) [] [] of
        None \<Rightarrow> Inl (GoPanic ''endless listing'')
      | Some res \<Rightarrow> res)"

text \<open>The scopes a create request asks for; the organisation the code derives from the first scope is used
  nowhere.\<close>

definition requested_scopes :: "create_key_request \<Rightarrow> go_error + string list" where
  "requested_scopes req =
     (if ckScopes req \<noteq> [] then Inr (ckScopes req)
      else if ckOrg req \<noteq> [] then
        Inr [if ckProject req \<noteq> [] then ''org/'' @ ckOrg req @ ''/project/'' @ ckProject req else ''org/'' @ ckOrg req]
      else if HasRole (ckRoles req) RoleAdmin then Inr [''org/*'']
      else Inl (ValidationError ''scopes'' (Msg ''scopes or org is required for operator/viewer keys'' [])))"

definition hash_taken :: "string \<Rightarrow> resource \<Rightarrow> bool" where
  "hash_taken hash res \<longleftrightarrow> (case ParseAPIKeySpec (rSpec res) of Inl e \<Rightarrow> False | Inr spec \<Rightarrow> kKeyHash spec = hash)"

definition keys_Create ::
    "api_env \<Rightarrow> string \<Rightarrow> create_key_request \<Rightarrow> store \<Rightarrow> store \<times> (go_error + string \<times> key_view)" where
  "keys_Create env actor req s =
     (case requested_scopes req of
        Inl e \<Rightarrow> (s, Inl e)
      | Inr scopes \<Rightarrow>
          (case newToken (nvTokenRand env) of
             None \<Rightarrow> (s, Inl (ErrOther ''random source failed''))
           | Some token \<Rightarrow>
               let hash = HashToken token
               in if (case listResources s of Inl e \<Rightarrow> False | Inr existing \<Rightarrow> list_ex (hash_taken hash) existing)
                  then (s, Inl ErrAlreadyExists)
                  else
                    (case CreateResource (nvEgress env) (nvIO env)
                            (Some (NewAPIKeyResource (ckPrincipal req) (ckRoles req) scopes hash))
                            (write_as actor ''keys api: create'') s of
                       (s1, Inl e) \<Rightarrow> (s1, Inl e)
                     | (s1, Inr created) \<Rightarrow>
                         (case resourceToKeyView created of
                            Inl e \<Rightarrow> (s1, Inl e)
                          | Inr kv \<Rightarrow> (s1, Inr (token, kv))))))"

definition keys_List :: "store \<Rightarrow> go_error + key_view list" where
  "keys_List s =
     (case listResources s of
        Inl e \<Rightarrow> Inl e
      | Inr resources \<Rightarrow>
          Inr (concat (map (\<lambda>res. case resourceToKeyView res of Inl e \<Rightarrow> [] | Inr kv \<Rightarrow> [kv]) resources)))"

text \<open>The mutation callback of an update. Assigning into the spec of a resource without one would panic.\<close>

definition set_spec :: "string \<Rightarrow> json option \<Rightarrow> jobj option \<Rightarrow> jobj option" where
  "set_spec key v sp = (case v of None \<Rightarrow> sp | Some x \<Rightarrow> map_option (obj_put key x) sp)"

definition patch_key :: "update_key_request \<Rightarrow> resource \<Rightarrow> resource" where
  "patch_key req cur =
     cur\<lparr>rSpec := set_spec ''active'' (map_option JBool (ukActive req))
           (set_spec ''scopes'' (map_option anyStrings (ukScopes req))
             (set_spec ''roles'' (map_option anyStrings (ukRoles req)) (rSpec cur)))\<rparr>"

definition empty_patch :: "update_key_request \<Rightarrow> bool" where
  "empty_patch req \<longleftrightarrow> ukRoles req = None \<and> ukScopes req = None \<and> ukActive req = None"

definition patch_fn :: "update_key_request \<Rightarrow> resource \<Rightarrow> go_error + resource" where
  "patch_fn req cur =
     (if rSpec cur = None \<and> \<not> empty_patch req then Inl (GoPanic ''assignment to entry in nil map'')
      else Inr (patch_key req cur))"

definition key_update_options :: "string \<Rightarrow> update_options" where
  "key_update_options actor = \<lparr>uWrite = write_as actor ''keys api: update'', uExpectedGeneration = 0\<rparr>"

definition keys_Update ::
    "api_env \<Rightarrow> string \<Rightarrow> string \<Rightarrow> update_key_request \<Rightarrow> store \<Rightarrow> store \<times> (go_error + key_view \<times> bool)" where
  "keys_Update env actor i req s =
     (case GetResource i s of
        Inl e \<Rightarrow> (s, Inl e)
      | Inr res \<Rightarrow>
          if rKind res \<noteq> KindAPIKey then (s, Inl ErrNotFound)
          else
            let o' = key_update_options actor;
                changed = left_by (\<lambda>cur. \<not> specLabelsEqual (DeepCopy cur) (patch_key req cur)) i o' False s
            in case UpdateResource (nvEgress env) (nvIO env) i (patch_fn req) o' s of
                 (s1, Inl e) \<Rightarrow> (s1, Inl e)
               | (s1, Inr updated) \<Rightarrow>
                   (case resourceToKeyView updated of Inl e \<Rightarrow> (s1, Inl e) | Inr kv \<Rightarrow> (s1, Inr (kv, changed))))"

definition keys_Delete :: "api_env \<Rightarrow> string \<Rightarrow> string \<Rightarrow> store \<Rightarrow> store \<times> go_error option" where
  "keys_Delete env actor i s =
     (case GetResource i s of
        Inl e \<Rightarrow> (s, Some e)
      | Inr res \<Rightarrow>
          if rKind res \<noteq> KindAPIKey then (s, Some ErrNotFound)
          else DeleteResource (nvIO env) i (write_as actor ''keys api: delete'') s)"

section \<open>Bootstrap keys\<close>

definition SeedAdminKey :: "egress_env \<Rightarrow> io \<Rightarrow> string \<Rightarrow> string \<Rightarrow> store \<Rightarrow> store \<times> go_error option" where
  "SeedAdminKey env io p token s =
     (let create = (\<lambda>_ :: unit.
            case CreateResource env io (Some (NewAPIKeyResource p [RoleAdmin] [''org/*''] (HashToken token)))
                   (write_as ''bootstrap'' ''static api key bootstrap'') s of
              (s1, Inl e) \<Rightarrow> (s1, if e = ErrAlreadyExists then None else Some e)
            | (s1, Inr res) \<Rightarrow> (s1, None))
      in case GetByLogicalKey ReservedOrg ReservedProject ReservedEnv KindAPIKey p s of
           Inl (GoPanic m) \<Rightarrow> (s, Some (GoPanic m))
         | Inl e \<Rightarrow> create ()
         | Inr existing \<Rightarrow>
             (case ParseAPIKeySpec (rSpec existing) of Inr spec \<Rightarrow> (s, None) | Inl e \<Rightarrow> create ()))"

text \<open>\<open>seedBootstrapKeys\<close> of \<^verbatim>\<open>cmd/ryvexd/serve.go\<close>: failures are logged and skipped.\<close>

definition seedBootstrapKeys :: "egress_env \<Rightarrow> (string \<Rightarrow> io) \<Rightarrow> (string, string) gomap \<Rightarrow> store \<Rightarrow> store" where
  "seedBootstrapKeys env ios keys s = fold (\<lambda>(token, p) s. fst (SeedAdminKey env (ios token) p token s)) keys s"

section \<open>Handlers\<close>

definition create_key_fields :: "(string \<times> create_key_request setter) list" where
  "create_key_fields =
     [(''principal'', str_field (\<lambda>s q. q\<lparr>ckPrincipal := s\<rparr>)), (''roles'', strs_field (\<lambda>ss q. q\<lparr>ckRoles := ss\<rparr>)),
      (''scopes'', strs_field (\<lambda>ss q. q\<lparr>ckScopes := ss\<rparr>)), (''org'', str_field (\<lambda>s q. q\<lparr>ckOrg := s\<rparr>)),
      (''project'', str_field (\<lambda>s q. q\<lparr>ckProject := s\<rparr>))]"

definition opt_strs_field :: "(string list option \<Rightarrow> 'a \<Rightarrow> 'a) \<Rightarrow> 'a setter" where
  "opt_strs_field upd raw v x =
     (case v of JArr vs \<Rightarrow> map_option (\<lambda>ss. upd (Some ss) x) (string_elems vs) | JNull \<Rightarrow> Some (upd None x) | _ \<Rightarrow> None)"

definition opt_bool_field :: "(bool option \<Rightarrow> 'a \<Rightarrow> 'a) \<Rightarrow> 'a setter" where
  "opt_bool_field upd raw v x =
     (case v of JBool b \<Rightarrow> Some (upd (Some b) x) | JNull \<Rightarrow> Some (upd None x) | _ \<Rightarrow> None)"

definition update_key_fields :: "(string \<times> update_key_request setter) list" where
  "update_key_fields =
     [(''roles'', opt_strs_field (\<lambda>v q. q\<lparr>ukRoles := v\<rparr>)), (''scopes'', opt_strs_field (\<lambda>v q. q\<lparr>ukScopes := v\<rparr>)),
      (''active'', opt_bool_field (\<lambda>v q. q\<lparr>ukActive := v\<rparr>))]"

definition zero_create_key :: create_key_request where
  "zero_create_key = \<lparr>ckPrincipal = [], ckRoles = [], ckScopes = [], ckOrg = [], ckProject = []\<rparr>"

definition zero_update_key :: update_key_request where
  "zero_update_key = \<lparr>ukRoles = None, ukScopes = None, ukActive = None\<rparr>"

definition strings_json :: "string list \<Rightarrow> json" where
  "strings_json ss = JArr (map JStr ss)"

definition key_view_json :: "key_view \<Rightarrow> json" where
  "key_view_json kv =
     JObj [(''id'', JStr (vID kv)), (''principal'', JStr (vPrincipal kv)), (''roles'', strings_json (vRoles kv)),
           (''scopes'', strings_json (vScopes kv)), (''active'', JBool (vActive kv)), (''created_at'', JStr (vCreatedAt kv)),
           (''updated_at'', JStr (vUpdatedAt kv))]"

text \<open>\<open>requireAdmin\<close> in front of a handler; \<open>denyAdmin\<close> is its refusal.\<close>

definition denyAdmin :: "api_env \<Rightarrow> req_ctx \<Rightarrow> http_request \<Rightarrow> string \<Rightarrow> 'w server \<Rightarrow> 'w server \<times> http_response" where
  "denyAdmin env cx r p sv =
     (let reason = ''admin role required for key management''
      in ((case svAuth sv of
             None \<Rightarrow> sv
           | Some az \<Rightarrow> set_store (AuditDenied (nvDenyIO env) p [] [] (rqMethod r) (rqPath r) reason (sv_store sv)) sv),
          writeError (cxRequestID cx) 403 ''forbidden'' reason))"

definition requireAdmin :: "api_env \<Rightarrow> (identity \<Rightarrow> 'w http_handler) \<Rightarrow> 'w http_handler" where
  "requireAdmin env next' cx r sv =
     (case cxIdentity cx of
        None \<Rightarrow> denyAdmin env cx r [] sv
      | Some ident \<Rightarrow> if idAdmin ident then next' ident cx r sv else denyAdmin env cx r (idPrincipal ident) sv)"

definition publishKeyEvent :: "server_config \<Rightarrow> api_env \<Rightarrow> string \<Rightarrow> key_view \<Rightarrow> string \<Rightarrow> 'w server \<Rightarrow> 'w server" where
  "publishKeyEvent cfg env typ kv actor sv =
     server_publish cfg env
       \<lparr>eID = [], eTime = 0, eType = typ, eSubject = [], eOrg = ReservedOrg, eProject = ReservedProject, eEnv = ReservedEnv,
        eKind = KindAPIKey, eName = vPrincipal kv, eResourceID = vID kv, eGeneration = 0, ePhase = [], eActor = actor,
        eData = None\<rparr> sv"

definition handleKeysCreate :: "server_config \<Rightarrow> api_env \<Rightarrow> 'w http_handler" where
  "handleKeysCreate cfg env =
     requireAdmin env (\<lambda>ident cx r sv.
       case decodeBody create_key_fields r zero_create_key of
         Inl e \<Rightarrow> (sv, bodyStatus (cxRequestID cx) e)
       | Inr req \<Rightarrow>
           (case keys_Create env (idPrincipal ident) req (sv_store sv) of
              (s, Inl e) \<Rightarrow> (set_store s sv, stateStatus (cxRequestID cx) e)
            | (s, Inr (token, kv)) \<Rightarrow>
                (refresh_keys (publishKeyEvent cfg env EventCreated kv (idPrincipal ident) (set_store s sv)),
                 writeJSON 201 (Some (JObj [(''active'', JBool (vActive kv)), (''id'', JStr (vID kv)),
                   (''principal'', JStr (vPrincipal kv)), (''roles'', strings_json (vRoles kv)),
                   (''scopes'', strings_json (vScopes kv)), (''token'', JStr token)])))))"

definition handleKeysList :: "api_env \<Rightarrow> 'w http_handler" where
  "handleKeysList env =
     requireAdmin env (\<lambda>ident cx r sv.
       case keys_List (sv_store sv) of
         Inl e \<Rightarrow> (sv, stateStatus (cxRequestID cx) e)
       | Inr keys \<Rightarrow>
           (sv, writeJSON 200 (Some (JObj [(''count'', JInt (int (length keys))), (''keys'', JArr (map key_view_json keys))]))))"

definition handleKeysUpdate :: "server_config \<Rightarrow> api_env \<Rightarrow> string \<Rightarrow> 'w http_handler" where
  "handleKeysUpdate cfg env i =
     requireAdmin env (\<lambda>ident cx r sv.
       case decodeBody update_key_fields r zero_update_key of
         Inl e \<Rightarrow> (sv, bodyStatus (cxRequestID cx) e)
       | Inr req \<Rightarrow>
           (case keys_Update env (idPrincipal ident) i req (sv_store sv) of
              (s, Inl e) \<Rightarrow> (set_store s sv, stateStatus (cxRequestID cx) e)
            | (s, Inr (kv, changed)) \<Rightarrow>
                (refresh_keys
                   (if changed then publishKeyEvent cfg env EventUpdated kv (idPrincipal ident) (set_store s sv) else set_store s sv),
                 writeJSON 200 (Some (key_view_json kv)))))"

definition handleKeysDelete :: "api_env \<Rightarrow> string \<Rightarrow> 'w http_handler" where
  "handleKeysDelete env i =
     requireAdmin env (\<lambda>ident cx r sv.
       case keys_Delete env (idPrincipal ident) i (sv_store sv) of
         (s, Some e) \<Rightarrow> (set_store s sv, stateStatus (cxRequestID cx) e)
       | (s, None) \<Rightarrow> (refresh_keys (set_store s sv), no_content))"

end
