(* ===== verification/Api_Server.thy ===== *)
theory Api_Server
  imports Api_Keys
begin

text \<open>
  The rest of \<^verbatim>\<open>internal/api/server.go\<close>: probes, the index, the dispatch of \<^verbatim>\<open>/v1\<close> on the depth of the path, the
  multiplexer and the handler stack \<open>NewServer\<close> builds.
\<close>

section \<open>Probes and index\<close>

definition busHealth :: "'h bus \<Rightarrow> go_error option" where
  "busHealth b = Healthy b"

definition dep_state :: "go_error option \<Rightarrow> string" where
  "dep_state e = (case e of None \<Rightarrow> ''ok'' | Some x \<Rightarrow> ''unavailable'')"

definition dependencyStates :: "'w server \<Rightarrow> json \<times> bool" where
  "dependencyStates sv =
     (let st = Ping (sv_store sv); bs = busHealth (xBus (svRecon sv))
      in (JObj [(''bus'', JStr (dep_state bs)), (''store'', JStr (dep_state st))], st = None \<and> bs = None))"

definition probeActor :: "server_config \<Rightarrow> http_request \<Rightarrow> 'w server \<Rightarrow> string" where
  "probeActor cfg r sv =
     (case bearerToken r of
        None \<Rightarrow> []
      | Some tok \<Rightarrow>
          (case svAuth sv of
             Some az \<Rightarrow>
               (case resolveToken az (scDevAuth cfg) tok of (p, info, kind) \<Rightarrow> if kind \<noteq> TokenUnknown then p else [])
           | None \<Rightarrow>
               (case authenticateToken tok (newStaticKeyIndex (scAPIKeys cfg)) (scDevAuth cfg) of None \<Rightarrow> [] | Some p \<Rightarrow> p)))"

definition Version :: string where "Version = ''v1.1.0''"

definition server_version :: "server_config \<Rightarrow> string" where
  "server_version cfg = (if scVersion cfg = [] then Version else scVersion cfg)"

text \<open>The members of a map are encoded in key order. The count of the memory store does not fail.\<close>

definition handleHealthz :: "server_config \<Rightarrow> api_env \<Rightarrow> 'w http_handler" where
  "handleHealthz cfg env cx r sv =
     (let (deps, healthy) = dependencyStates sv; actor = probeActor cfg r sv
      in (sv, writeJSON 200 (Some (JObj
           ((if actor = [] then [] else [(''authenticated_as'', JStr actor)]) @ [(''dependencies'', deps)] @
            (if actor = [] then [] else [(''resources'', JInt (int (Count (sv_store sv))))]) @
            [(''service'', JStr ''ryvexd''), (''status'', JStr (if healthy then ''ok'' else ''degraded'')),
             (''time'', JStr (format_seconds (nvNow env))), (''version'', JStr (server_version cfg))])))))"

definition handleReadyz :: "server_config \<Rightarrow> api_env \<Rightarrow> 'w http_handler" where
  "handleReadyz cfg env cx r sv =
     (let (deps, healthy) = dependencyStates sv
      in (sv, writeJSON (if healthy then 200 else 503) (Some (JObj
           [(''dependencies'', deps), (''service'', JStr ''ryvexd''),
            (''status'', JStr (if healthy then ''ready'' else ''unavailable'')),
            (''time'', JStr (format_seconds (nvNow env))), (''version'', JStr (server_version cfg))]))))"

definition index_endpoints :: "bool \<Rightarrow> string list" where
  "index_endpoints rbac =
     [''GET    /healthz'', ''GET    /readyz'', ''GET    /v1'', ''POST   /v1/resources'',
      ''GET    /v1/resources?org=&project=&env=&kind=&limit=&cursor='', ''GET    /v1/resources/{id}'',
      ''DELETE /v1/resources/{id}'', ''GET    /v1/{org}/events?limit='', ''GET    /v1/{org}/audit?kind=&limit='',
      ''POST   /v1/{org}/reconcile/{id}'', ''GET    /v1/{org}/{project}/{env}/{kind}'',
      ''GET    /v1/{org}/{project}/{env}/{kind}/{name}'', ''PUT    /v1/{org}/{project}/{env}/{kind}/{name}'',
      ''DELETE /v1/{org}/{project}/{env}/{kind}/{name}''] @
     (if rbac then [''POST   /v1/keys'', ''GET    /v1/keys'', ''PUT    /v1/keys/{id}'', ''DELETE /v1/keys/{id}''] else [])"

definition handleIndex :: "server_config \<Rightarrow> 'w http_handler" where
  "handleIndex cfg cx r sv =
     (sv, writeJSON 200 (Some (JObj
        [(''docs'', JStr ''docs/api-contracts.md''), (''endpoints'', strings_json (index_endpoints (svAuth sv \<noteq> None))),
         (''name'', JStr ''Ryvex Control Plane API''), (''version'', JStr (server_version cfg))])))"

section \<open>Dispatch\<close>

text \<open>A switch on the method: the handlers it names, in the order the \<open>Allow\<close> header lists them.\<close>

definition by_method :: "(string \<times> 'w http_handler) list \<Rightarrow> 'w http_handler" where
  "by_method hs cx r sv =
     (case map_of hs (rqMethod r) of
        Some h \<Rightarrow> h cx r sv
      | None \<Rightarrow> (sv, methodNotAllowed (cxRequestID cx) r (map fst hs)))"

definition routeV1 :: "server_config \<Rightarrow> api_env \<Rightarrow> 'w http_handler" where
  "routeV1 cfg env cx r sv =
     (let path = TrimChar (CHR ''/'') (TrimPrefix (rqPath r) ''/v1''); seg = Split (CHR ''/'') path; n = length seg
      in if path = [] then handleIndex cfg cx r sv
         else if seg ! 0 = ''resources'' \<and> n = 1 then
           by_method [(''POST'', handleCreate cfg env), (''GET'', handleList)] cx r sv
         else if seg ! 0 = ''resources'' \<and> n = 2 then
           by_method [(''GET'', handleGetByID (seg ! 1)), (''DELETE'', handleDeleteByID cfg env (seg ! 1))] cx r sv
         else if n = 2 \<and> seg ! 1 = ''events'' then by_method [(''GET'', handleEvents (seg ! 0))] cx r sv
         else if n = 2 \<and> seg ! 1 = ''audit'' then by_method [(''GET'', handleAudit (seg ! 0))] cx r sv
         else if n = 3 \<and> seg ! 1 = ''reconcile'' then
           by_method [(''POST'', handleReconcile (seg ! 0) (seg ! 2))] cx r sv
         else if seg ! 0 = ''keys'' \<and> n = 1 \<and> svAuth sv \<noteq> None then
           by_method [(''GET'', handleKeysList env), (''POST'', handleKeysCreate cfg env)] cx r sv
         else if seg ! 0 = ''keys'' \<and> n = 2 \<and> svAuth sv \<noteq> None then
           by_method [(''PUT'', handleKeysUpdate cfg env (seg ! 1)), (''DELETE'', handleKeysDelete env (seg ! 1))] cx r sv
         else if n = 4 then by_method [(''GET'', handleScopeList seg)] cx r sv
         else if n = 5 then
           by_method [(''GET'', handleScopeGet seg), (''PUT'', handleScopePut cfg env seg),
                      (''DELETE'', handleScopeDelete cfg env seg)] cx r sv
         else (sv, writeError (cxRequestID cx) 404 ''not_found'' ''unknown /v1 route''))"

text \<open>\<open>http.ServeMux\<close>: a path that is not in canonical form is answered with a redirect to that form (of which
  status and path are kept), except for \<open>CONNECT\<close>.\<close>

fun clean_segments :: "string list \<Rightarrow> string list \<Rightarrow> string list" where
  "clean_segments acc [] = rev acc"
| "clean_segments acc (s # ss) =
     clean_segments (if s = [] \<or> s = ''.'' then acc else if s = ''..'' then drop 1 acc else s # acc) ss"

definition cleanPath :: "string \<Rightarrow> string" where
  "cleanPath p =
     (if p = [] then ''/''
      else
        let rooted = (if hd p = CHR ''/'' then p else CHR ''/'' # p);
            np = ''/'' @ Join ''/'' (clean_segments [] (Split (CHR ''/'') rooted))
        in if last rooted = CHR ''/'' \<and> np \<noteq> ''/'' then np @ ''/'' else np)"

definition mux :: "server_config \<Rightarrow> api_env \<Rightarrow> 'w http_handler" where
  "mux cfg env cx r sv =
     (let p = rqPath r
      in if rqMethod r \<noteq> ''CONNECT'' \<and> cleanPath p \<noteq> p then
           (sv, \<lparr>rsStatus = 301, rsHeader = [(''Location'', cleanPath p)], rsBody = None\<rparr>)
         else if p = ''/healthz'' then handleHealthz cfg env cx r sv
         else if p = ''/readyz'' then handleReadyz cfg env cx r sv
         else if HasPrefix p ''/v1/'' then routeV1 cfg env cx r sv
         else if p = ''/v1'' then handleIndex cfg cx r sv
         else if p \<noteq> ''/'' then
           (sv, writeError (cxRequestID cx) 404 ''not_found'' ''unknown route; the REST face lives under /v1/'')
         else handleIndex cfg cx r sv)"

section \<open>The handler stack\<close>

definition Chain :: "('h \<Rightarrow> 'h) list \<Rightarrow> 'h \<Rightarrow> 'h" where
  "Chain mws final = foldr (\<lambda>mw h. mw h) mws final"

definition auth_middleware :: "server_config \<Rightarrow> api_env \<Rightarrow> authorizer option \<Rightarrow> 'w http_handler \<Rightarrow> 'w http_handler" where
  "auth_middleware cfg env az =
     (case az of None \<Rightarrow> AuthMiddleware cfg | Some a \<Rightarrow> AuthZMiddleware cfg env a)"

text \<open>\<open>NewServer\<close> and a call of the handler it returns. The authoriser's caches are read under its lock when the
  request arrives.\<close>

definition NewServer :: "server_config \<Rightarrow> api_env \<Rightarrow> http_request \<Rightarrow> 'w server \<Rightarrow> 'w server \<times> http_response" where
  "NewServer cfg env r sv =
     Chain [RequestIDMiddleware env, SecurityHeadersMiddleware, CORSMiddleware (scCORSOrigins cfg),
            auth_middleware cfg env (svAuth sv)]
       (mux cfg env) \<lparr>cxRequestID = [], cxActor = [], cxIdentity = None\<rparr> r sv"

end
