(* ===== verification/Api_Laws.thy ===== *)
theory Api_Laws
  imports Api_Server
begin

text \<open>
  Laws of the server: the shape of the handler stack, which resources a request touches, the agreement of
  the scope a POST body is authorised for with the one it writes to, and the key cache after a refresh.
\<close>

section \<open>The stack\<close>

definition preflight :: "http_request \<Rightarrow> bool" where
  "preflight r \<longleftrightarrow> rqMethod r = ''OPTIONS'' \<and> header r ''Origin'' \<noteq> []"

definition request_id :: "api_env \<Rightarrow> http_request \<Rightarrow> string" where
  "request_id env r =
     (if requestIDPattern (header r ''X-Request-Id'') then header r ''X-Request-Id'' else EncodeToHex (nvRequestRand env))"

definition first_ctx :: "api_env \<Rightarrow> http_request \<Rightarrow> req_ctx" where
  "first_ctx env r = \<lparr>cxRequestID = request_id env r, cxActor = [], cxIdentity = None\<rparr>"

lemma with_headers_simps [simp]:
  "fst (with_headers hs x) = fst x" "rsStatus (snd (with_headers hs x)) = rsStatus (snd x)"
  "rsHeader (snd (with_headers hs x)) = hs @ rsHeader (snd x)" "rsBody (snd (with_headers hs x)) = rsBody (snd x)"
  by (simp_all add: with_headers_def add_headers_def split: prod.split)

lemma NewServer_fst:
  "fst (NewServer cfg env r sv) =
     (if preflight r then sv else fst (auth_middleware cfg env (svAuth sv) (mux cfg env) (first_ctx env r) r sv))"
  by (simp add: NewServer_def Chain_def RequestIDMiddleware_def SecurityHeadersMiddleware_def CORSMiddleware_def Let_def
      preflight_def first_ctx_def request_id_def)

lemma NewServer_status:
  "\<not> preflight r \<Longrightarrow> rsStatus (snd (NewServer cfg env r sv)) =
     rsStatus (snd (auth_middleware cfg env (svAuth sv) (mux cfg env) (first_ctx env r) r sv))"
  by (simp add: NewServer_def Chain_def RequestIDMiddleware_def SecurityHeadersMiddleware_def CORSMiddleware_def Let_def
      preflight_def first_ctx_def request_id_def)

lemma NewServer_body:
  "\<not> preflight r \<Longrightarrow> rsBody (snd (NewServer cfg env r sv)) =
     rsBody (snd (auth_middleware cfg env (svAuth sv) (mux cfg env) (first_ctx env r) r sv))"
  by (simp add: NewServer_def Chain_def RequestIDMiddleware_def SecurityHeadersMiddleware_def CORSMiddleware_def Let_def
      preflight_def first_ctx_def request_id_def)

lemma NewServer_headers:
  "\<exists>hs. rsHeader (snd (NewServer cfg env r sv)) = (''X-Request-Id'', request_id env r) # hs"
  by (simp add: NewServer_def Chain_def RequestIDMiddleware_def Let_def request_id_def)

section \<open>Touched resources\<close>

text \<open>The resources a transition creates, changes or removes.\<close>

definition touched :: "store \<Rightarrow> store \<Rightarrow> resource \<Rightarrow> bool" where
  "touched s s' x \<longleftrightarrow>
     (\<exists>i. map_of (byID s) i \<noteq> map_of (byID s') i \<and> (map_of (byID s) i = Some x \<or> map_of (byID s') i = Some x))"

abbreviation same_place :: "resource \<Rightarrow> resource \<Rightarrow> bool" where
  "same_place x y \<equiv> rOrg x = rOrg y \<and> rProject x = rProject y \<and> rKind x = rKind y"

lemma touched_same [simp]: "byID s' = byID s \<Longrightarrow> \<not> touched s s' x"
  by (simp add: touched_def)

lemma touched_create:
  assumes "touched s (fst (CreateResource env io (Some r) o' s)) x" "map_of (byID s) (newID (ioRand io)) = None"
  shows "same_place x r \<and> Validate env r = None"
proof -
  have "rKind (DeepCopy r) = rKind r" "rOrg (DeepCopy r) = rOrg r" "rProject (DeepCopy r) = rProject r"
    by (simp_all add: DeepCopy_def)
  then show ?thesis
    using assms by (auto simp: CreateResource_def touched_def Let_def update_conv' split: option.splits if_splits
        simp del: map_of_eq_None_iff)
qed

lemma touched_delete:
  assumes "touched s (fst (DeleteResource io i o' s)) x"
  shows "map_of (byID s) i = Some x"
  using assms by (auto simp: DeleteResource_def touched_def delete_conv' split: option.splits if_splits
      simp del: map_of_eq_Some_iff)

lemma touched_update:
  assumes "touched s (fst (UpdateResource env io i fn o' s)) x" "index_inv s" "\<And>r r'. fn r = Inr r' \<Longrightarrow> same_place r' r"
  obtains cur where "map_of (byID s) i = Some cur" "same_place x cur"
proof -
  obtain cur where c: "map_of (byID s) i = Some cur"
    using assms(1) by (cases "map_of (byID s) i") (auto simp: UpdateResource_def)
  then have w: "DeepCopy cur = cur" using assms(2) stored_wf by (metis DeepCopy_id)
  have "same_place x cur"
  proof (cases "fn cur")
    case (Inl e)
    then show ?thesis using assms(1) c w by (simp add: UpdateResource_def split: if_splits)
  next
    case (Inr work)
    then have "same_place work cur" using assms(3) by simp
    then show ?thesis using assms(1) c w Inr
      by (auto simp: UpdateResource_def touched_def Let_def update_conv' split: option.splits if_splits
          simp del: map_of_eq_Some_iff)
  qed
  then show ?thesis using c that by blast
qed

section \<open>What the server state shares\<close>

lemma store_frame [simp, frame_simps]:
  "sv_store (set_store s sv) = s" "svAuth (set_store s sv) = svAuth sv"
  "sv_store (refresh_keys sv) = sv_store sv" "sv_store (server_publish cfg env e sv) = sv_store sv"
  "sv_store (publishKeyEvent cfg env typ kv actor sv) = sv_store sv"
  by (simp_all add: set_store_def refresh_keys_def server_publish_def publishKeyEvent_def Let_def split: prod.split)

lemma AuditDenied_byID [simp]:
  "byID (AuditDenied io a b c d e f s) = byID s" "byLogic (AuditDenied io a b c d e f s) = byLogic s"
  by (simp_all add: AuditDenied_def AppendAudit_def Let_def)

section \<open>What handlers touch\<close>

definition fresh :: "api_env \<Rightarrow> 'w server \<Rightarrow> bool" where
  "fresh env sv \<longleftrightarrow> map_of (byID (sv_store sv)) (newID (ioRand (nvIO env))) = None"

abbreviation handled :: "'w http_handler \<Rightarrow> req_ctx \<Rightarrow> http_request \<Rightarrow> 'w server \<Rightarrow> store" where
  "handled h cx r sv \<equiv> sv_store (fst (h cx r sv))"

lemma create_and_publish_store:
  "sv_store (fst (create_and_publish cfg env cx res reason sv)) =
     fst (CreateResource (nvEgress env) (nvIO env) (Some res) (write_as (cxActor cx) reason) (sv_store sv))"
  by (simp add: create_and_publish_def split: prod.split sum.split)

lemma delete_and_publish_store:
  "sv_store (fst (delete_and_publish cfg env cx res sv)) =
     fst (DeleteResource (nvIO env) (rID res) (write_as (cxActor cx) ''api delete'') (sv_store sv))"
  by (simp add: delete_and_publish_def split: prod.split option.split)

lemma create_and_publish_touched:
  assumes "touched (sv_store sv) (sv_store (fst (create_and_publish cfg env cx res reason sv))) x" "fresh env sv"
  shows "same_place x res \<and> Validate (nvEgress env) res = None"
  using touched_create assms by (auto simp: fresh_def create_and_publish_store)

lemma delete_and_publish_touched:
  assumes "touched (sv_store sv) (sv_store (fst (delete_and_publish cfg env cx res sv))) x"
  shows "map_of (byID (sv_store sv)) (rID res) = Some x"
  using touched_delete assms unfolding delete_and_publish_store by metis

lemma put_spec_ok: "wf_resource inp \<Longrightarrow> fn_ok (\<lambda>cur. Inr (put_spec inp cur))"
  by (auto simp: fn_ok_def put_spec_def wf_resource_def)

lemma read_handlers [simp]:
  "fst (handleList cx r sv) = sv" "fst (handleGetByID i cx r sv) = sv" "fst (handleScopeList seg cx r sv) = sv"
  "fst (handleScopeGet seg cx r sv) = sv" "fst (handleEvents org cx r sv) = sv" "fst (handleAudit org cx r sv) = sv"
  "fst (handleIndex cfg cx r sv) = sv" "fst (handleHealthz cfg env cx r sv) = sv" "fst (handleReadyz cfg env cx r sv) = sv"
  by (simp_all add: handleList_def handleGetByID_def handleScopeList_def handleScopeGet_def handleEvents_def handleAudit_def
      handleIndex_def handleHealthz_def handleReadyz_def Let_def split: sum.split prod.split)

lemma handleReconcile_store [simp]: "handled (handleReconcile org i) cx r sv = sv_store sv"
  by (simp add: handleReconcile_def Trigger_def send_def split: sum.split)

text \<open>The resource at an address lies in the organisation and project of the address.\<close>

lemma matchKind_no_slash: "CHR ''/'' \<notin> set k \<Longrightarrow> CHR ''/'' \<notin> set (matchKind k)"
proof -
  have "CHR ''/'' \<notin> set x" if "find P Kinds = Some x" for P x
    using that Kinds_no_slash by (auto simp: find_Some_iff)
  moreover have "CHR ''/'' \<notin> set KindPolicy" by (simp add: KindPolicy_def)
  ultimately show "CHR ''/'' \<notin> set k \<Longrightarrow> ?thesis" by (auto simp: matchKind_def Let_def split: option.splits)
qed

lemma Split_parts: "w \<in> set (Split d s) \<Longrightarrow> d \<notin> set w"
  by (induction s arbitrary: w) (auto split: list.splits if_splits)

lemma get_at_place:
  assumes "index_inv s" "get_at seg s = Inr res" "length seg = 5" "\<forall>w \<in> set seg. CHR ''/'' \<notin> set w"
  shows "map_of (byID s) (rID res) = Some res \<and> rOrg res = seg ! 0 \<and> rProject res = seg ! 1"
proof -
  obtain i r where i: "map_of (byLogic s) (logical (seg ! 0) (seg ! 1) (seg ! 2) (matchKind (seg ! 3)) (seg ! 4)) = Some i"
    "map_of (byID s) i = Some r" "res = DeepCopy r"
    using assms(2) by (auto simp: GetByLogicalKey_def split: option.splits)
  have r: "res = r" using i(3) stored_wf [OF assms(1) i(2)] by simp
  have ok: "stored_ok i r" using stored_okD [OF assms(1) i(2)] .
  have "LogicalKey r = logical (seg ! 0) (seg ! 1) (seg ! 2) (matchKind (seg ! 3)) (seg ! 4)"
    using assms(1) i(1,2) unfolding index_inv_def by (metis option.inject)
  then have "[rOrg r, rProject r, rEnv r, rKind r, rName r] = [seg ! 0, seg ! 1, seg ! 2, matchKind (seg ! 3), seg ! 4]"
    using ok assms(3,4) matchKind_no_slash
    by (intro Join_inject [where d = "CHR ''/''"])
       (auto simp: LogicalKey_def logical_def stored_ok_def addr_ok_def dest: scopeRe_no_slash Kinds_no_slash)
  then show ?thesis using r ok i(2) by (simp add: stored_ok_def)
qed

lemma handleScopeDelete_touched:
  assumes "touched (sv_store sv) (handled (handleScopeDelete cfg env seg) cx r sv) x" "index_inv (sv_store sv)"
    "length seg = 5" "\<forall>w \<in> set seg. CHR ''/'' \<notin> set w"
  shows "rOrg x = seg ! 0 \<and> rProject x = seg ! 1"
proof (cases "get_at seg (sv_store sv)")
  case (Inr res)
  then have "map_of (byID (sv_store sv)) (rID res) = Some x"
    using assms(1) delete_and_publish_touched by (auto simp: handleScopeDelete_def)
  then show ?thesis using get_at_place [OF assms(2) Inr assms(3,4)] by simp
qed (use assms(1) in \<open>simp add: handleScopeDelete_def\<close>)

lemma put_update_store:
  "sv_store (fst (put_update cfg env cx inp existing sv)) =
     fst (UpdateResource (nvEgress env) (nvIO env) (rID existing) (\<lambda>cur. Inr (put_spec inp cur))
            (put_options (cxActor cx) (rGeneration inp)) (sv_store sv))"
  by (simp add: put_update_def Let_def split: prod.split sum.split)

lemma handleScopePut_touched:
  assumes "touched (sv_store sv) (handled (handleScopePut cfg env seg) cx r sv) x" "index_inv (sv_store sv)" "fresh env sv"
    "length seg = 5" "\<forall>w \<in> set seg. CHR ''/'' \<notin> set w"
  shows "rOrg x = seg ! 0 \<and> rProject x = seg ! 1"
proof -
  obtain inp where inp: "decodeBody resource_fields r zero_resource = Inr inp"
    using assms(1) by (cases "decodeBody resource_fields r zero_resource") (auto simp: handleScopePut_def)
  show ?thesis
  proof (cases "get_at seg (sv_store sv)")
    case (Inl e)
    then show ?thesis using assms(1) inp create_and_publish_touched [OF _ assms(3)]
      by (auto simp: handleScopePut_def split: if_splits dest: create_and_publish_touched [OF _ assms(3)])
  next
    case (Inr res)
    let ?s = "sv_store (fst (put_update cfg env cx inp res sv))"
    have "touched (sv_store sv) ?s x" using assms(1) inp Inr by (simp add: handleScopePut_def)
    then obtain cur where "map_of (byID (sv_store sv)) (rID res) = Some cur" "same_place x cur"
      unfolding put_update_store by (rule touched_update) (auto simp: assms(2) put_spec_def)
    then show ?thesis using get_at_place [OF assms(2) Inr assms(4,5)] by simp
  qed
qed

lemma handleCreate_touched:
  assumes "touched (sv_store sv) (handled (handleCreate cfg env) cx r sv) x" "fresh env sv"
  obtains res where "decodeBody resource_fields r zero_resource = Inr res" "rOrg x = rOrg res" "rProject x = rProject res"
proof -
  obtain res where res: "decodeBody resource_fields r zero_resource = Inr res"
    using assms(1) by (cases "decodeBody resource_fields r zero_resource") (auto simp: handleCreate_def)
  then have "same_place x (res\<lparr>rID := []\<rparr>)"
    using assms(1) create_and_publish_touched [OF _ assms(2)] by (simp add: handleCreate_def)
  then show ?thesis using res that by simp
qed

text \<open>Without the admin role the key handlers only append to the audit log.\<close>

lemma requireAdmin_denied:
  assumes "\<not> (\<exists>ident. cxIdentity cx = Some ident \<and> idAdmin ident)"
  shows "byID (handled (requireAdmin env h) cx r sv) = byID (sv_store sv)"
  using assms by (auto simp: requireAdmin_def denyAdmin_def Let_def split: option.splits)

lemma key_handlers_denied:
  assumes "\<not> (\<exists>ident. cxIdentity cx = Some ident \<and> idAdmin ident)"
  shows "byID (handled (handleKeysCreate cfg env) cx r sv) = byID (sv_store sv)"
    "byID (handled (handleKeysList env) cx r sv) = byID (sv_store sv)"
    "byID (handled (handleKeysUpdate cfg env i) cx r sv) = byID (sv_store sv)"
    "byID (handled (handleKeysDelete env i) cx r sv) = byID (sv_store sv)"
  by (simp_all add: handleKeysCreate_def handleKeysList_def handleKeysUpdate_def handleKeysDelete_def requireAdmin_denied [OF assms])

lemma key_handlers_admin:
  "touched (sv_store sv) (handled (handleKeysCreate cfg env) cx r sv) x \<Longrightarrow> \<exists>ident. cxIdentity cx = Some ident \<and> idAdmin ident"
  "touched (sv_store sv) (handled (handleKeysList env) cx r sv) x \<Longrightarrow> \<exists>ident. cxIdentity cx = Some ident \<and> idAdmin ident"
  "touched (sv_store sv) (handled (handleKeysUpdate cfg env i) cx r sv) x \<Longrightarrow> \<exists>ident. cxIdentity cx = Some ident \<and> idAdmin ident"
  "touched (sv_store sv) (handled (handleKeysDelete env i) cx r sv) x \<Longrightarrow> \<exists>ident. cxIdentity cx = Some ident \<and> idAdmin ident"
  using key_handlers_denied touched_same by metis+

section \<open>The target of a request\<close>

text \<open>Decoding the same members, the probe struct ends with the organisation and project of the resource.\<close>

lemma fold_names [simp]:
  "fold_case ''id'' = ''id''" "fold_case ''kind'' = ''kind''" "fold_case ''org'' = ''org''" "fold_case ''project'' = ''project''"
  by code_simp+

lemma find_org:
  "fold_case k = ''org'' \<Longrightarrow>
     find (\<lambda>(n, f). EqualFold n k) resource_fields = Some (''org'', str_field (\<lambda>s r. r\<lparr>rOrg := s\<rparr>)) \<and>
     find (\<lambda>(n, f). EqualFold n k) probe_fields = Some (''org'', str_field (\<lambda>s (a, b). (s, b)))"
  "fold_case k = ''project'' \<Longrightarrow>
     find (\<lambda>(n, f). EqualFold n k) resource_fields = Some (''project'', str_field (\<lambda>s r. r\<lparr>rProject := s\<rparr>)) \<and>
     find (\<lambda>(n, f). EqualFold n k) probe_fields = Some (''project'', str_field (\<lambda>s (a, b). (a, s)))"
  "fold_case k \<noteq> ''org'' \<Longrightarrow> fold_case k \<noteq> ''project'' \<Longrightarrow> find (\<lambda>(n, f). EqualFold n k) probe_fields = None"
  by (simp_all add: resource_fields_def probe_fields_def EqualFold_def del: fold_case.simps)

definition keeps_place :: "resource setter \<Rightarrow> bool" where
  "keeps_place f \<longleftrightarrow> (\<forall>raw v r r'. f raw v r = Some r' \<longrightarrow> rOrg r' = rOrg r \<and> rProject r' = rProject r)"

lemma keeps_place_fields:
  "(\<And>s r. rOrg (u s r) = rOrg r \<and> rProject (u s r) = rProject r) \<Longrightarrow> keeps_place (str_field u)"
  "(\<And>n r. rOrg (w n r) = rOrg r \<and> rProject (w n r) = rProject r) \<Longrightarrow> keeps_place (int_field w)"
  "keeps_place time_field"
  by (auto simp: keeps_place_def str_field_def int_field_def time_field_def split: json.splits if_splits)

lemma other_setters: "list_all (\<lambda>(n, f). n = ''org'' \<or> n = ''project'' \<or> keeps_place f) resource_fields"
  unfolding resource_fields_def
  by (simp del: map_option_case, intro conjI keeps_place_fields) (auto simp: keeps_place_def split: json.splits)

lemma probe_agrees:
  assumes "set_fields resource_fields ms res = Some res'"
  shows "set_fields probe_fields ms (rOrg res, rProject res) = Some (rOrg res', rProject res')"
  using assms
proof (induction ms arbitrary: res)
  case (Cons m ms)
  obtain k raw v where m: "m = (k, raw, v)" by (cases m)
  consider "fold_case k = ''org''" | "fold_case k = ''project''" | "fold_case k \<noteq> ''org''" "fold_case k \<noteq> ''project''" by blast
  then show ?case
  proof cases
    case 3
    show ?thesis
    proof (cases "find (\<lambda>(n, f). EqualFold n k) resource_fields")
      case None
      then show ?thesis using Cons.IH [of res] Cons.prems 3 by (simp add: m find_org)
    next
      case (Some nf)
      obtain n f where nf: "nf = (n, f)" by (cases nf)
      obtain y where y: "f raw v res = Some y" "set_fields resource_fields ms y = Some res'"
        using Cons.prems Some by (auto simp: m nf split: option.splits)
      have "(n, f) \<in> set resource_fields" "EqualFold n k"
        using Some unfolding nf find_Some_iff by (metis nth_mem, auto)
      then have "keeps_place f"
        using other_setters 3 fold_names(3,4) by (fastforce simp: list_all_iff EqualFold_def)
      then have "rOrg y = rOrg res \<and> rProject y = rProject res"
        using y(1) unfolding keeps_place_def by blast
      then show ?thesis using Cons.IH [OF y(2)] 3 by (simp add: m find_org)
    qed
  next
    case 1
    then show ?thesis using Cons.prems Cons.IH
      by (fastforce simp: m find_org str_field_def split: json.splits option.splits)
  next
    case 2
    then show ?thesis using Cons.prems Cons.IH
      by (fastforce simp: m find_org str_field_def split: json.splits option.splits)
  qed
qed simp

lemma unmarshal_probe:
  assumes "unmarshal_struct resource_fields body zero_resource = Some res"
  shows "unmarshal_struct probe_fields body ([], []) = Some (rOrg res, rProject res)"
proof -
  have z: "rOrg zero_resource = []" "rProject zero_resource = []" by (simp_all add: zero_resource_def)
  show ?thesis
    using assms probe_agrees [of _ zero_resource res] unfolding z
    by (auto simp: unmarshal_struct_def zero_resource_def split: option.splits json.splits)
qed

text \<open>The four ways in which a routed request can touch a resource.\<close>

lemma by_method_touched:
  assumes "touched (sv_store sv) (handled (by_method hs) cx r sv) x"
  obtains h where "map_of hs (rqMethod r) = Some h" "touched (sv_store sv) (handled h cx r sv) x"
  using assms by (auto simp: by_method_def split: option.splits)

lemma path_segments_no_slash: "w \<in> set (path_segments p) \<Longrightarrow> CHR ''/'' \<notin> set w"
  by (auto simp: path_segments_def dest: Split_parts)

lemma one_segment: "length xs = 1 \<Longrightarrow> xs ! 0 = a \<Longrightarrow> xs = [a]"
  by (cases xs) auto

lemma routeV1_touched:
  assumes t: "touched (sv_store sv) (handled (routeV1 cfg env) cx r sv) x" and i: "index_inv (sv_store sv)" and f: "fresh env sv"
    and seg: "seg = path_segments (rqPath r)"
  obtains
    (create) res where "seg = [''resources'']" "rqMethod r = ''POST''" "decodeBody resource_fields r zero_resource = Inr res"
      "rOrg x = rOrg res" "rProject x = rProject res"
  | (ident) "length seg = 2" "seg ! 0 = ''resources''"
  | (scope) "length seg = 5" "rqMethod r \<noteq> ''GET''" "rOrg x = seg ! 0" "rProject x = seg ! 1"
  | (keys) ident where "seg ! 0 = ''keys''" "cxIdentity cx = Some ident" "idAdmin ident"
proof -
  note ns = path_segments_no_slash [of _ "rqPath r", folded seg]
  consider (res1) "seg ! 0 = ''resources''" "length seg = 1"
      "touched (sv_store sv) (handled (by_method [(''POST'', handleCreate cfg env), (''GET'', handleList)]) cx r sv) x"
    | (res2) "seg ! 0 = ''resources''" "length seg = 2"
    | (k1) "seg ! 0 = ''keys''"
      "touched (sv_store sv) (handled (by_method [(''GET'', handleKeysList env), (''POST'', handleKeysCreate cfg env)]) cx r sv) x"
    | (k2) "seg ! 0 = ''keys''"
      "touched (sv_store sv) (handled (by_method [(''PUT'', handleKeysUpdate cfg env (seg ! 1)), (''DELETE'', handleKeysDelete env (seg ! 1))]) cx r sv) x"
    | (s5) "length seg = 5"
      "touched (sv_store sv) (handled (by_method [(''GET'', handleScopeGet seg), (''PUT'', handleScopePut cfg env seg),
          (''DELETE'', handleScopeDelete cfg env seg)]) cx r sv) x"
    using t unfolding routeV1_def Let_def seg path_segments_def
    by (auto split: if_splits elim!: by_method_touched)
  then show ?thesis
  proof cases
    case res1
    then obtain h where "map_of [(''POST'', handleCreate cfg env), (''GET'', handleList)] (rqMethod r) = Some h"
      "touched (sv_store sv) (handled h cx r sv) x" by (rule_tac by_method_touched)
    then have m: "rqMethod r = ''POST''" "touched (sv_store sv) (handled (handleCreate cfg env) cx r sv) x"
      by (auto split: if_splits)
    show ?thesis
      by (rule handleCreate_touched [OF m(2) f], rule create) (use m(1) res1 one_segment in auto)
  next
    case k1
    then show ?thesis using keys by (auto elim!: by_method_touched split: if_splits dest!: key_handlers_admin)
  next
    case k2
    then show ?thesis using keys by (auto elim!: by_method_touched split: if_splits dest!: key_handlers_admin)
  next
    case s5
    then show ?thesis using handleScopePut_touched [OF _ i f s5(1)] handleScopeDelete_touched [OF _ i s5(1)] ns scope
      by (auto elim!: by_method_touched split: if_splits)
  qed (use ident in simp)
qed

section \<open>Access control\<close>

lemma mux_touched:
  assumes "touched (sv_store sv) (handled (mux cfg env) cx r sv) x"
  shows "HasPrefix (rqPath r) ''/v1/'' \<and> touched (sv_store sv) (handled (routeV1 cfg env) cx r sv) x"
  using assms by (auto simp: mux_def Let_def split: if_splits)

lemma v1_not_open: "HasPrefix p ''/v1'' \<Longrightarrow> \<not> open_path p"
  by (auto simp: open_path_def HasPrefix_iff)

text \<open>Cached scopes are valid ones; in particular none of them covers the empty organisation.\<close>

definition cache_ok :: "authorizer \<Rightarrow> bool" where
  "cache_ok az \<longleftrightarrow> (\<forall>p info. Lookup az p = Some info \<longrightarrow> (\<forall>scope \<in> set (iScopes info). ValidScope scope True))"

lemma scope_not_empty_org: "ValidScope scope True \<Longrightarrow> \<not> ScopeMatches scope [] project"
proof -
  have "\<not> scopeRe []" by code_simp
  then show "ValidScope scope True \<Longrightarrow> ?thesis"
    by (auto simp: ValidScope_def ScopeMatches_def wildcardScope_def CutPrefix_Some split: option.splits if_splits)
       (code_simp)?
qed

lemma Authorize_empty_org:
  assumes "cache_ok az" "dAllowed (Authorize az p [] project write)"
  shows "\<exists>info. Lookup az p = Some info \<and> RoleAdmin \<in> set (iRoles info)"
  using assms scope_not_empty_org by (fastforce simp: Authorize_iff may_access_def cache_ok_def)

lemma Authorize_reason: "dReason (Authorize az p org project write) \<noteq> []"
  by (simp add: Authorize_def allow_def deny_def split: option.split)

lemma denial_empty:
  "denial az ident scope = [] \<longleftrightarrow>
     \<not> tgAdminOnly scope \<and> dAllowed (Authorize az (idPrincipal ident) (tgOrg scope) (tgProject scope) (tgWrite scope))"
  by (simp add: denial_def Let_def Authorize_reason)

lemma resolve_identity_managed:
  assumes "resolve_identity az False tok = Some ident"
  shows "Authenticate az tok = Some (idPrincipal ident) \<and>
     (idAdmin ident \<longrightarrow> (\<exists>info. Lookup az (idPrincipal ident) = Some info \<and> RoleAdmin \<in> set (iRoles info)))"
  using assms by (auto simp: resolve_identity_def resolveToken_def dev_token_def zero_info_def split: option.splits if_splits)

lemma special_paths:
  "path_segments ''/'' = [[]]" "path_segments ''/v1'' = [[]]" "path_segments ''/v1/'' = [[]]"
  by code_simp+

lemma deriveScope_shape:
  assumes "deriveScope rid r = Inr (scope, r1)"
  shows "rqPath r1 = rqPath r \<and> rqMethod r1 = rqMethod r"
  using assms by (auto simp: deriveScope_def peekBodyScope_def Let_def split: if_splits option.splits prod.splits)

lemma deriveScope_cases:
  assumes d: "deriveScope rid r = Inr (scope, r1)" and seg: "seg = path_segments (rqPath r)"
  shows "seg ! 0 \<noteq> ''keys'' \<Longrightarrow> length seg = 5 \<Longrightarrow>
      \<not> tgPass scope \<and> tgOrg scope = seg ! 0 \<and> tgProject scope = seg ! 1 \<and> (tgWrite scope \<longleftrightarrow> rqMethod r \<noteq> ''GET'')"
    and "length seg = 2 \<Longrightarrow> seg ! 0 = ''resources'' \<Longrightarrow> \<not> tgPass scope \<and> tgAdminOnly scope"
    and "seg = [''resources''] \<Longrightarrow> rqMethod r = ''POST'' \<Longrightarrow> \<not> tgPass scope \<and> tgWrite scope \<and>
      (\<exists>org project. peekBodyScope r = Some (org, project, r1) \<and> tgOrg scope = org \<and> tgProject scope = project)"
proof -
  have sp: "\<not> (rqPath r = ''/'' \<or> rqPath r = ''/v1'' \<or> rqPath r = ''/v1/'')" if "seg \<noteq> [[]]"
    using that special_paths seg by metis
  note d' = d [unfolded deriveScope_def Let_def, folded seg]
  show "\<not> tgPass scope \<and> tgOrg scope = seg ! 0 \<and> tgProject scope = seg ! 1 \<and> (tgWrite scope \<longleftrightarrow> rqMethod r \<noteq> ''GET'')"
    if k: "seg ! 0 \<noteq> ''keys''" "length seg = 5"
  proof -
    have "seg \<noteq> [[]]" using k(2) by auto
    then show ?thesis using d' k sp by (auto simp: zero_scope_def)
  qed
  show "\<not> tgPass scope \<and> tgAdminOnly scope" if k: "length seg = 2" "seg ! 0 = ''resources''"
  proof -
    have "seg \<noteq> [[]]" using k(1) by auto
    then show ?thesis using d' k sp by (auto simp: zero_scope_def)
  qed
  show "\<not> tgPass scope \<and> tgWrite scope \<and>
      (\<exists>org project. peekBodyScope r = Some (org, project, r1) \<and> tgOrg scope = org \<and> tgProject scope = project)"
    if k: "seg = [''resources'']" "rqMethod r = ''POST''"
  proof -
    have "seg \<noteq> [[]]" using k(1) by auto
    then show ?thesis using d' k sp by (auto simp: zero_scope_def split: option.splits)
  qed
qed

text \<open>The scope a POST is authorised for is the one it writes to; a body that could not be read in full is
  authorised for the empty organisation.\<close>

lemma peek_agrees:
  assumes "peekBodyScope r = Some (org, project, r1)" "decodeBody resource_fields r1 zero_resource = Inr res"
  shows "org = [] \<or> org = rOrg res \<and> project = rProject res"
proof -
  obtain body ok where b: "read_body r = (body, ok)" by (cases "read_body r")
  then have l: "length body \<le> maxBodyBytes" "r1 = r\<lparr>rqBody := body, rqBodyErr := False\<rparr>"
    using assms(1) by (auto simp: peekBodyScope_def read_body_def Let_def split: if_splits prod.splits)
  then have "unmarshal_struct resource_fields body zero_resource = Some res"
    using assms(2) by (auto simp: decodeBody_def read_body_def split: if_splits option.splits)
  then show ?thesis using assms(1) b unmarshal_probe by (auto simp: peekBodyScope_def Let_def split: if_splits)
qed

abbreviation is_admin :: "authorizer \<Rightarrow> string \<Rightarrow> bool" where
  "is_admin az p \<equiv> (\<exists>info. Lookup az p = Some info \<and> RoleAdmin \<in> set (iRoles info))"

lemma request_touched:
  assumes az: "svAuth sv = Some az" "\<not> scDevAuth cfg" "cache_ok az" and i: "index_inv (sv_store sv)" and f: "fresh env sv"
    and t: "touched (sv_store sv) (sv_store (fst (NewServer cfg env r sv))) x"
  obtains tok p where "bearerToken r = Some tok" "Authenticate az tok = Some p"
    "is_admin az p \<or> dAllowed (Authorize az p (rOrg x) (rProject x) True) \<or> rOrg x = ''keys''"
proof -
  let ?cx = "first_ctx env r"
  have t1: "touched (sv_store sv) (handled (AuthZMiddleware cfg env az (mux cfg env)) ?cx r sv) x"
    using t az(1) by (simp add: NewServer_fst auth_middleware_def split: if_splits)
  have np: "\<not> open_path (rqPath r)"
  proof
    assume o: "open_path (rqPath r)"
    then have "touched (sv_store sv) (handled (mux cfg env) ?cx r sv) x" using t1 by (simp add: AuthZMiddleware_def)
    then have "HasPrefix (rqPath r) ''/v1/''" using mux_touched by blast
    then have "HasPrefix (rqPath r) ''/v1''" by (auto simp: HasPrefix_iff)
    then show False using v1_not_open o by blast
  qed
  then obtain tok ident scope r1 where a: "bearerToken r = Some tok" "resolve_identity az False tok = Some ident"
      "deriveScope (cxRequestID ?cx) r = Inr (scope, r1)" "tgPass scope \<or> idAdmin ident \<or> denial az ident scope = []"
      "touched (sv_store sv) (handled (mux cfg env) (?cx\<lparr>cxActor := idPrincipal ident, cxIdentity := Some ident\<rparr>) r1 sv) x"
    using t1 az(2) by (auto simp: AuthZMiddleware_def Let_def split: option.splits sum.splits if_splits)
  let ?p = "idPrincipal ident"
  have id: "Authenticate az tok = Some ?p" "idAdmin ident \<Longrightarrow> is_admin az ?p"
    using resolve_identity_managed [OF a(2)] by auto
  have sh: "rqPath r1 = rqPath r" "rqMethod r1 = rqMethod r" using deriveScope_shape [OF a(3)] by auto
  have "is_admin az ?p \<or> dAllowed (Authorize az ?p (rOrg x) (rProject x) True) \<or> rOrg x = ''keys''"
  proof (rule routeV1_touched [OF conjunct2 [OF mux_touched [OF a(5)]] i f refl])
    fix res assume c: "path_segments (rqPath r1) = [''resources'']" "rqMethod r1 = ''POST''"
      "decodeBody resource_fields r1 zero_resource = Inr res" "rOrg x = rOrg res" "rProject x = rProject res"
    then obtain org project where o: "\<not> tgPass scope" "tgWrite scope" "peekBodyScope r = Some (org, project, r1)"
      "tgOrg scope = org" "tgProject scope = project"
      using deriveScope_cases(3) [OF a(3) refl] sh by auto
    then have "idAdmin ident \<or> dAllowed (Authorize az ?p org project True)"
      using a(4) by (auto simp: denial_empty)
    then show ?thesis
      using peek_agrees [OF o(3) c(3)] c(4,5) id(2) Authorize_empty_org [OF az(3)] by metis
  next
    assume "length (path_segments (rqPath r1)) = 2" "path_segments (rqPath r1) ! 0 = ''resources''"
    then show ?thesis using deriveScope_cases(2) [OF a(3) refl] sh a(4) id(2) by (auto simp: denial_empty)
  next
    assume c: "length (path_segments (rqPath r1)) = 5" "rqMethod r1 \<noteq> ''GET''"
      "rOrg x = path_segments (rqPath r1) ! 0" "rProject x = path_segments (rqPath r1) ! 1"
    show ?thesis
    proof (cases "path_segments (rqPath r) ! 0 = ''keys''")
      case False
      then show ?thesis using deriveScope_cases(1) [OF a(3) refl False] c sh a(4) id(2) by (auto simp: denial_empty)
    qed (use c sh in simp)
  next
    fix ident'
    assume "cxIdentity (?cx\<lparr>cxActor := idPrincipal ident, cxIdentity := Some ident\<rparr>) = Some ident'" "idAdmin ident'"
    then show ?thesis using id(2) by simp
  qed
  then show ?thesis using that a(1) id(1) by blast
qed

end
