(* ===== verification/Api_Feeds.thy ===== *)
theory Api_Feeds
  imports Api_Laws Bus_Props
begin

text \<open>
  The two feeds as paged listings: the audit feed by offsets, the event feed by publication numbers. A client
  that follows \<open>next_cursor\<close> to the end has seen the retained log of its organisation exactly once.
\<close>

section \<open>The audit feed\<close>

type_synonym audit_query = "store \<times> string \<times> string \<times> nat"  \<comment> \<open>store, organisation, kind, page size\<close>

definition audit_feed :: "audit_query \<Rightarrow> string \<Rightarrow> go_error + audit_entry list \<times> string" where
  "audit_feed = (\<lambda>(s, org, kind, limit) c.
     case cursor_offset c of None \<Rightarrow> Inl ErrBadRequest | Some n \<Rightarrow> auditPage org kind limit c n s)"

definition audit_of :: "audit_query \<Rightarrow> audit_entry list" where
  "audit_of = (\<lambda>(s, org, kind, limit).
     filter (\<lambda>e. (org = [] \<or> HasPrefix (aLogicalKey e) (org @ ''/'')) \<and> (kind = [] \<or> aKind e = kind)) (rev (audit_log s)))"

definition audit_page_size :: "audit_query \<Rightarrow> nat" where
  "audit_page_size = (\<lambda>(s, org, kind, limit). limit)"

definition audit_fits :: "audit_query \<Rightarrow> bool" where
  "audit_fits = (\<lambda>(s, org, kind, limit).
     0 < limit \<and> int limit \<le> maxFeedPage \<and> length (audit_of (s, org, kind, limit)) \<le> 2147483647)"

lemma audit_feed_page:
  assumes "cursor_offset c = Some n" "audit_fits (s, org, kind, limit)"
  shows "audit_feed (s, org, kind, limit) c =
     (let xs = audit_of (s, org, kind, limit)
      in Inr (take limit (drop n xs), if n + limit < length xs then encodeCursor (word_of_nat (n + limit)) else []))"
proof -
  let ?q = "\<lparr>qOrg = org, qKind = kind, qLimit = int limit + 1, qCursor = c\<rparr>"
  let ?xs = "audit_of (s, org, kind, limit)"
  have l: "audit_limit (int limit + 1) = limit + 1"
    using assms(2) by (simp add: audit_fits_def audit_limit_def maxFeedPage_def maxAuditQueryLimit_def nat_add_distrib)
  have "filter (audit_match ?q) (rev (audit_log s)) = ?xs"
    by (simp add: audit_of_def) (rule filter_cong, auto simp: audit_match_def)
  then have "ListAudit ?q s = Inr (take (limit + 1) (drop n ?xs))"
    using ListAudit_page [of ?q n s] assms(1) l by simp
  then show ?thesis using assms(1)
    by (auto simp: audit_feed_def auditPage_def Let_def min_def)
qed

interpretation audit_pages: paged_listing audit_feed audit_of audit_page_size "\<lambda>_. cursor_offset" audit_fits
proof unfold_locales
  show "cursor_offset [] = Some 0" by (simp add: cursor_offset_def)
next
  fix q assume "audit_fits q" then show "0 < audit_page_size q"
    by (auto simp: audit_fits_def audit_page_size_def)
next
  fix q c n assume "audit_fits q" "cursor_offset c = Some n"
  then show "\<exists>next'. audit_feed q c = Inr (take (audit_page_size q) (drop n (audit_of q)), next')"
    by (cases q) (simp add: audit_feed_page audit_page_size_def Let_def)
next
  fix q c n page next' assume "audit_fits q" "cursor_offset c = Some n" "audit_feed q c = Inr (page, next')"
  then show "next' = [] \<longleftrightarrow> length (audit_of q) \<le> n + audit_page_size q"
    by (cases q) (auto simp: audit_feed_page audit_page_size_def Let_def split: if_splits)
next
  fix q c n page next'
  assume "audit_fits q" "cursor_offset c = Some n" "audit_feed q c = Inr (page, next')" "next' \<noteq> []"
  then show "cursor_offset next' = Some (n + audit_page_size q)"
    by (cases q) (auto simp: audit_feed_page audit_page_size_def Let_def audit_fits_def simp del: of_nat_add
        split: if_splits intro!: cursor_offset_encode)
qed

section \<open>The event feed\<close>

text \<open>The publication numbers of the retained events increase, lie below the bus counter and are not zero.\<close>

definition numbered :: "'h bus \<Rightarrow> bool" where
  "numbered b \<longleftrightarrow>
     (\<exists>ns. map eID (ring b) = map (\<lambda>n. ''evt-'' @ dec n) ns \<and> sorted_wrt (<) ns \<and>
        list_all (\<lambda>n. 0 < n \<and> n \<le> unat (next_id b)) ns) \<and> length (ring b) \<le> RingSize"

lemma numbered_ring: "ring b' = ring b \<Longrightarrow> unat (next_id b) \<le> unat (next_id b') \<Longrightarrow> numbered b \<Longrightarrow> numbered b'"
  by (fastforce simp: numbered_def list_all_iff)

lemma sorted_wrt_drop: "sorted_wrt P xs \<Longrightarrow> sorted_wrt P (drop n xs)"
  by (induction xs arbitrary: n) (auto simp: drop_Cons split: nat.splits)

lemma next_id_step: "unat (next_id b) + 1 < 2 ^ 64 \<Longrightarrow> unat (next_id b + 1) = unat (next_id b) + 1"
  by (simp add: unat_word_ariths)

lemma numbered_publish:
  assumes "numbered b" "unat (next_id b) + 1 < 2 ^ 64"
  shows "numbered (fst (Publish t e b))"
proof -
  obtain ns where ns: "map eID (ring b) = map (\<lambda>n. ''evt-'' @ dec n) ns" "sorted_wrt (<) ns"
    "list_all (\<lambda>n. 0 < n \<and> n \<le> unat (next_id b)) ns"
    using assms(1) by (auto simp: numbered_def)
  have u: "unat (next_id b + 1) = unat (next_id b) + 1" by (rule next_id_step [OF assms(2)])
  let ?ms = "ns @ [unat (next_id b) + 1]" let ?r = "ring b @ [(stamp t e)\<lparr>eID := ''evt-'' @ dec (unat (next_id b + 1))\<rparr>]"
  have m: "map eID ?r = map (\<lambda>n. ''evt-'' @ dec n) ?ms" "sorted_wrt (<) ?ms"
    "list_all (\<lambda>n. 0 < n \<and> n \<le> unat (next_id b) + 1) ?ms"
    using ns u by (auto simp: sorted_wrt_append list_all_iff)
  define k where "k = length ?r - RingSize"
  have r: "ring (fst (Publish t e b)) = drop k ?r" "next_id (fst (Publish t e b)) = next_id b + 1"
    by (auto simp: Publish_def ring_append_def Let_def k_def)
  have "map eID (drop k ?r) = map (\<lambda>n. ''evt-'' @ dec n) (drop k ?ms)" using m(1) by (metis drop_map)
  moreover have "sorted_wrt (<) (drop k ?ms)" using m(2) by (rule sorted_wrt_drop)
  moreover have "list_all (\<lambda>n. 0 < n \<and> n \<le> unat (next_id b) + 1) (drop k ?ms)"
    using m(3) by (auto simp: list_all_iff dest: in_set_dropD)
  moreover have "length (drop k ?r) \<le> RingSize" by (simp add: k_def)
  ultimately show ?thesis unfolding numbered_def r u by blast
qed

lemma reach_numbered: "bus_reach b \<Longrightarrow> numbered b"
proof (induction rule: bus_reach.induct)
  case (subscribe b p h)
  have "unat (next_id b + 1) = unat (next_id b) + 1" using subscribe.hyps(2) by (simp add: unat_word_ariths)
  then show ?case using subscribe.IH
    by (auto simp: Subscribe_def Let_def elim!: numbered_ring [rotated 2] split: option.split)
next
  case (cancel b x)
  then show ?case by (auto simp: Cancel_def Let_def elim!: numbered_ring [rotated 2])
qed (auto simp: numbered_publish, auto simp: numbered_def NewBus_def)

type_synonym 'h event_query = "'h bus \<times> string \<times> nat"  \<comment> \<open>bus, organisation, page size\<close>

definition event_feed :: "'h event_query \<Rightarrow> string \<Rightarrow> go_error + event list \<times> string" where
  "event_feed = (\<lambda>(b, org, limit) c.
     if c = [] then Inr (eventPage org limit 0 b)
     else case decodeCursor c of Inl e \<Rightarrow> Inl e | Inr n \<Rightarrow> Inr (eventPage org limit (unat n) b))"

definition events_of :: "'h event_query \<Rightarrow> event list" where
  "events_of = (\<lambda>(b, org, limit). filter (\<lambda>e. org = [] \<or> eOrg e = org) (rev (ring b)))"

definition event_page_size :: "'h event_query \<Rightarrow> nat" where
  "event_page_size = (\<lambda>(b, org, limit). limit)"

text \<open>The position a cursor stands for: how many events are not older than it.\<close>

definition event_offset :: "'h event_query \<Rightarrow> string \<Rightarrow> nat option" where
  "event_offset q c =
     (if c = [] then Some 0
      else case decodeCursor c of
        Inl e \<Rightarrow> None
      | Inr n \<Rightarrow> Some (if n = 0 then 0 else length (filter (\<lambda>e. \<not> older_than (unat n) e) (events_of q))))"

definition event_fits :: "'h event_query \<Rightarrow> bool" where
  "event_fits = (\<lambda>(b, org, limit).
     numbered b \<and> unat (next_id b) \<le> 2147483647 \<and> 0 < limit \<and> int limit \<le> maxFeedPage)"

text \<open>Newest first, the numbers of the events of an organisation decrease.\<close>

lemma event_numbers:
  assumes "event_fits q"
  obtains ns where "map eventSeq (events_of q) = map Some ns" "sorted_wrt (>) ns"
    "list_all (\<lambda>n. 0 < n \<and> n \<le> 2147483647) ns"
proof -
  obtain b org limit where q: "q = (b, org, limit)" by (cases q)
  obtain ms where ms: "map eID (ring b) = map (\<lambda>n. ''evt-'' @ dec n) ms" "sorted_wrt (<) ms"
    "list_all (\<lambda>n. 0 < n \<and> n \<le> unat (next_id b)) ms"
    using assms by (auto simp: q event_fits_def numbered_def)
  have u: "unat (next_id b) \<le> 2147483647" using assms by (simp add: q event_fits_def)
  have seq: "map eventSeq (ring b) = map Some ms"
  proof (rule nth_equalityI)
    show l: "length (map eventSeq (ring b)) = length (map Some ms)" using ms(1) by (metis length_map)
    fix i assume "i < length (map eventSeq (ring b))"
    then have i: "i < length (ring b)" "i < length ms" using l by auto
    have "eID (ring b ! i) = ''evt-'' @ dec (ms ! i)" using ms(1) i by (metis nth_map)
    moreover have "ms ! i < 2 ^ 64"
      using ms(3) u i(2) by (force simp: list_all_length)
    ultimately show "map eventSeq (ring b) ! i = map Some ms ! i"
      using i by (simp add: eventSeq_def HasPrefix_def TrimPrefix_def)
  qed
  have num: "eventSeq e = Some (the (eventSeq e))" if "e \<in> set (ring b)" for e
    using seq that by (metis (no_types, lifting) in_set_conv_nth length_map nth_map option.sel)
  let ?ns = "map (\<lambda>e. the (eventSeq e)) (events_of q)"
  have ms': "map (\<lambda>e. the (eventSeq e)) (ring b) = ms"
    using arg_cong [OF seq, of "map the"] by (simp add: comp_def)
  have "sorted_wrt (>) (map (\<lambda>e. the (eventSeq e)) (rev (ring b)))"
    using ms(2) unfolding ms' [symmetric] by (simp add: rev_map [symmetric] sorted_wrt_rev)
  then have "sorted_wrt (>) ?ns"
    by (simp add: events_of_def q sorted_wrt_map sorted_wrt_filter)
  moreover have "list_all (\<lambda>n. 0 < n \<and> n \<le> 2147483647) ?ns"
    using ms(3) u unfolding ms' [symmetric] by (force simp: events_of_def q list_all_iff)
  moreover have "map eventSeq (events_of q) = map Some ?ns"
    using num by (simp add: events_of_def q)
  ultimately show ?thesis using that by blast
qed

lemma filter_suffix:
  "sorted_wrt (\<lambda>x y. P x \<longrightarrow> P y) xs \<Longrightarrow> filter P xs = drop (length (filter (\<lambda>x. \<not> P x) xs)) xs"
proof (induction xs)
  case (Cons x xs)
  show ?case
  proof (cases "P x")
    case True
    then have "\<forall>y \<in> set xs. P y" using Cons.prems by simp
    then show ?thesis using True by (simp add: filter_id_conv [THEN iffD2] filter_empty_conv [THEN iffD2])
  qed (use Cons in simp)
qed simp

lemma length_filter_from:
  "sorted_wrt (>) ns \<Longrightarrow> i < length ns \<Longrightarrow> length (filter (\<lambda>n. ns ! i \<le> n) ns) = Suc i" for ns :: "nat list"
proof (induction ns arbitrary: i)
  case (Cons n ns)
  show ?case
  proof (cases i)
    case 0
    then have "filter (\<lambda>m. n \<le> m) ns = []" using Cons.prems by (auto simp: filter_empty_conv)
    then show ?thesis using 0 by simp
  next
    case (Suc j)
    then have "ns ! j < n" "j < length ns" using Cons.prems by auto
    then have "ns ! j \<le> n" by (intro less_imp_le)
    moreover have "length (filter (\<lambda>n. ns ! j \<le> n) ns) = Suc j" using Cons \<open>j < length ns\<close> by simp
    ultimately show ?thesis using Suc by simp
  qed
qed simp

lemma not_older:
  assumes "map eventSeq xs = map Some ns"
  shows "length (filter (\<lambda>e. \<not> older_than m e) xs) = length (filter (\<lambda>n. m \<le> n) ns)"
  using assms
proof (induction xs arbitrary: ns)
  case (Cons e xs)
  then obtain n ns' where "ns = n # ns'" "eventSeq e = Some n" "map eventSeq xs = map Some ns'" by (auto simp: map_eq_Cons_conv)
  then show ?case using Cons.IH [of ns'] by (simp add: older_than_def not_less)
qed simp

lemma older_suffix:
  assumes "map eventSeq xs = map Some ns" "sorted_wrt (>) ns"
  shows "filter (older_than m) xs = drop (length (filter (\<lambda>e. \<not> older_than m e) xs)) xs"
proof (rule filter_suffix)
  have "eventSeq (xs ! i) = Some (ns ! i)" if "i < length xs" for i using assms(1) that by (metis length_map nth_map)
  moreover have "length xs = length ns" using assms(1) by (metis length_map)
  ultimately show "sorted_wrt (\<lambda>x y. older_than m x \<longrightarrow> older_than m y) xs"
    using assms(2) unfolding sorted_wrt_iff_nth_less by (fastforce simp: older_than_def)
qed

lemma event_feed_page:
  assumes f: "event_fits (b, org, limit)" and o: "event_offset (b, org, limit) c = Some n"
  shows "event_feed (b, org, limit) c =
     (let xs = events_of (b, org, limit)
      in Inr (take limit (drop n xs),
              if n + limit < length xs then encodeCursor (word_of_nat (the (eventSeq (xs ! (n + limit - 1))))) else []))"
proof -
  let ?xs = "events_of (b, org, limit)"
  obtain ns where ns: "map eventSeq ?xs = map Some ns" "sorted_wrt (>) ns" by (rule event_numbers [OF f])
  have l: "0 < limit" "limit \<le> 500" "length (ring b) \<le> 1024"
    using f by (auto simp: event_fits_def maxFeedPage_def numbered_def RingSize_def)
  have lx: "length ?xs \<le> 1024" 
    using l(3) length_filter_le [of "\<lambda>e. org = [] \<or> eOrg e = org" "rev (ring b)"] by (simp add: events_of_def)
  have r: "Recent org (int k) b = take k ?xs" if "0 < k" "k \<le> 1024" for k
    using that by (simp add: Recent_def collect_recent_take RingSize_def events_of_def)
  have some: "eventSeq e = Some (the (eventSeq e))" if "e \<in> set ?xs" for e
    using ns(1) that by (metis (no_types, lifting) in_set_conv_nth length_map nth_map option.sel)
  have page: "eventPage org limit m b =
      (take limit (drop k ?xs),
       if k + limit < length ?xs then encodeCursor (word_of_nat (the (eventSeq (?xs ! (k + limit - 1))))) else [])"
    if k: "k = (if m = 0 then 0 else length (filter (\<lambda>e. \<not> older_than m e) ?xs))" for m k
  proof -
    define all where "all = (if m > 0 then filter (older_than m) (take 1024 ?xs) else take (limit + 1) ?xs)"
    have "all = (if m > 0 then drop k ?xs else take (limit + 1) ?xs)"
      using lx older_suffix [OF ns, of m] k by (simp add: all_def)
    then have al: "take limit all = take limit (drop k ?xs)" "length all > limit \<longleftrightarrow> k + limit < length ?xs"
      using k by (auto simp: min_def)
    have rec: "Recent org (if m > 0 then int RingSize else int limit + 1) b = (if m > 0 then take 1024 ?xs else take (limit + 1) ?xs)"
      using r [of 1024] r [of "limit + 1"] l by (simp add: RingSize_def add.commute)
    have e: "eventPage org limit m b = (if length all > limit then (take limit all,
        case eventSeq (take limit all ! (limit - 1)) of None \<Rightarrow> [] | Some n \<Rightarrow> encodeCursor (word_of_nat n)) else (all, []))"
      unfolding eventPage_def Let_def rec all_def by (cases "m > 0") simp_all
    show ?thesis
    proof (cases "k + limit < length ?xs")
      case True
      then have "take limit all ! (limit - 1) = ?xs ! (k + limit - 1)" using al(1) l(1) by (simp add: add_diff_assoc2)
      moreover have "?xs ! (k + limit - 1) \<in> set ?xs" using True by simp
      ultimately have "eventSeq (take limit all ! (limit - 1)) = Some (the (eventSeq (?xs ! (k + limit - 1))))"
        using some by simp
      then show ?thesis using e al True by simp
    next
      case False
      then have "take limit all = all" "\<not> length all > limit" using al(2) by simp_all
      then show ?thesis using e al(1) False by simp
    qed
  qed
  show ?thesis
    using o page by (auto simp: event_feed_def event_offset_def Let_def unat_eq_zero split: if_splits sum.splits)
qed

lemma decode_event_cursor:
  assumes "m \<le> 2147483647"
  shows "\<exists>w. decodeCursor (encodeCursor (word_of_nat m)) = Inr w \<and> unat w = m"
  using cursor_offset_encode [OF assms] by (auto simp: cursor_offset_def split: if_splits sum.splits)

interpretation event_pages: paged_listing event_feed events_of event_page_size event_offset event_fits
proof unfold_locales
  fix q :: "'a event_query" show "event_offset q [] = Some 0" by (simp add: event_offset_def)
next
  fix q :: "'a event_query" assume "event_fits q" then show "0 < event_page_size q"
    by (auto simp: event_fits_def event_page_size_def)
next
  fix q :: "'a event_query" and c n assume "event_fits q" "event_offset q c = Some n"
  then show "\<exists>next'. event_feed q c = Inr (take (event_page_size q) (drop n (events_of q)), next')"
    by (cases q) (simp add: event_feed_page event_page_size_def Let_def)
next
  fix q :: "'a event_query" and c n page next'
  assume "event_fits q" "event_offset q c = Some n" "event_feed q c = Inr (page, next')"
  then show "next' = [] \<longleftrightarrow> length (events_of q) \<le> n + event_page_size q"
    by (cases q) (auto simp: event_feed_page event_page_size_def Let_def split: if_splits)
next
  fix q :: "'a event_query" and c n page next'
  assume a: "event_fits q" "event_offset q c = Some n" "event_feed q c = Inr (page, next')" "next' \<noteq> []"
  obtain b org limit where q: "q = (b, org, limit)" by (cases q)
  obtain ns where ns: "map eventSeq (events_of q) = map Some ns" "sorted_wrt (>) ns"
    "list_all (\<lambda>n. 0 < n \<and> n \<le> 2147483647) ns" by (rule event_numbers [OF a(1)])
  let ?i = "n + limit - 1"
  have l: "0 < limit" using a(1) by (simp add: q event_fits_def)
  have lt: "n + limit < length (events_of q)" and nx: "next' = encodeCursor (word_of_nat (the (eventSeq (events_of q ! ?i))))"
    using a by (auto simp: q event_feed_page Let_def split: if_splits)
  have len: "length (events_of q) = length ns" using ns(1) by (metis length_map)
  then have i: "?i < length ns" using lt by simp
  then have m: "the (eventSeq (events_of q ! ?i)) = ns ! ?i" using ns(1) len by (metis nth_map option.sel)
  have b: "0 < ns ! ?i" "ns ! ?i \<le> 2147483647" using ns(3) i by (auto simp: list_all_length)
  obtain w where w: "decodeCursor next' = Inr w" "unat w = ns ! ?i"
    using decode_event_cursor [OF b(2)] nx m by auto
  have "length (filter (\<lambda>e. \<not> older_than (ns ! ?i) e) (events_of q)) = n + limit"
    using not_older [OF ns(1)] length_filter_from [OF ns(2) i] l by simp
  moreover have "w \<noteq> 0" using w(2) b(1) by auto
  ultimately show "event_offset q next' = Some (n + event_page_size q)"
    using w a(4) by (simp add: event_offset_def event_page_size_def q)
qed

end
