(* ===== verification/Api_Key_Laws.thy ===== *)
theory Api_Key_Laws
  imports Api_Laws
begin

text \<open>
  Laws of the key service: its listing is the set of stored keys, a refreshed cache answers for exactly them,
  and what a successful creation or removal of a key leaves in the store.
\<close>

section \<open>Refreshed caches\<close>

definition few_keys :: "store \<Rightarrow> bool" where
  "few_keys s \<longleftrightarrow> length (byID s) \<le> 2147483647"

lemma keys_in_length: "length (keys_in s) \<le> length (byID s)"
proof -
  have "length (filter P (map snd (byID s))) \<le> length (map snd (byID s))" for P by (rule length_filter_le)
  then show ?thesis by (simp add: keys_in_def sorted_matches_def)
qed

lemma few_keys_in: "few_keys s \<Longrightarrow> length (keys_in s) \<le> 2147483647"
  using keys_in_length [of s] by (simp add: few_keys_def)

lemma refresh_cache_keys:
  assumes "store_inv s" "few_keys s"
  shows "e \<in> set (byHash (refresh_cache s a)) \<longleftrightarrow> stored_key s (hInfo e) (hHash e)"
    and "Lookup (refresh_cache s a) p = Some info \<longleftrightarrow> iPrincipal info = p \<and> (\<exists>h. stored_key s info h)"
  by (rule Refresh_caches [OF assms(1) few_keys_in [OF assms(2)], of a], simp add: refresh_cache_def)+

lemma stored_key_scopes:
  assumes "stored_key s info h"
  shows "\<forall>scope \<in> set (iScopes info). ValidScope scope True"
proof -
  obtain r spec where r: "key_of r = Some info" "ParseAPIKeySpec (rSpec r) = Inr spec"
    using assms by (auto simp: stored_key_def)
  then have "wf_key_spec spec" "iScopes info = kScopes spec"
    using ParseAPIKeySpec_wf by (auto simp: key_of_def split: if_splits)
  then show ?thesis by (auto simp: wf_key_spec_def list_all_iff ValidScope_iff)
qed

lemma Authenticate_unique:
  assumes "store_inv s" "few_keys s" "token \<noteq> []" "stored_key s info (HashToken token)" "iActive info"
    "\<And>i. stored_key s i (HashToken token) \<Longrightarrow> i = info"
  shows "Authenticate (refresh_cache s a) token = Some (iPrincipal info) \<and>
    Lookup (refresh_cache s a) (iPrincipal info) = Some info"
proof -
  let ?e = "\<lparr>hHash = HashToken token, hInfo = info\<rparr>"
  have "find_hash (HashToken token) (byHash (refresh_cache s a)) = Some (iPrincipal (hInfo ?e))"
  proof (rule find_hash_unique)
    show "?e \<in> set (byHash (refresh_cache s a))" using assms(1,2,4) by (simp add: refresh_cache_keys)
    show "\<forall>e' \<in> set (byHash (refresh_cache s a)). hHash e' = HashToken token \<longrightarrow> e' = ?e"
    proof (intro ballI impI)
      fix e' assume "e' \<in> set (byHash (refresh_cache s a))" "hHash e' = HashToken token"
      then have "hInfo e' = info" using assms(1,2,6) by (simp add: refresh_cache_keys)
      then show "e' = ?e" using \<open>hHash e' = HashToken token\<close> by simp
    qed
  qed (simp_all add: assms(5))
  then show ?thesis using assms(1-4) by (auto simp: Authenticate_def refresh_cache_keys)
qed

lemma Authenticate_stored:
  assumes "store_inv s" "few_keys s" "Authenticate (refresh_cache s a) token = Some p"
  shows "\<exists>info. stored_key s info (HashToken token) \<and> iPrincipal info = p \<and> iActive info"
  using assms find_hash_Some [of "HashToken token" "byHash (refresh_cache s a)" p]
  by (fastforce simp: Authenticate_def refresh_cache_keys split: if_splits)

section \<open>The service\<close>

lemma listResources_keys:
  assumes "store_inv s" "few_keys s"
  shows "listResources s = Inr (keys_in s)"
proof -
  have i: "index_inv s" using assms(1) by (simp add: store_inv_def)
  have "mem_fits (s, key_list_options)" using few_keys_in [OF assms(2)] by (simp add: mem_fits_def keys_in_def)
  from mem.walk_all [OF this good_stops(2), of "\<lambda>r out. out @ [r]" "[]"]
  have "page_loop stop_on_last_or_empty (\<lambda>c. ListResources (key_list_options\<lparr>oCursor := c\<rparr>) s) (\<lambda>r out. out @ [r]) [] [] =
      Some (Inr (fold (\<lambda>r out. out @ [r]) (keys_in s) []))"
    by (simp add: mem_list_def mem_contents_def keys_in_def DeepCopy_sorted_matches [OF i])
  moreover have "fold (\<lambda>r out. out @ [r]) xs out = out @ xs" for xs out :: "resource list"
    by (induction xs arbitrary: out) auto
  ultimately show ?thesis by (simp add: listResources_def)
qed

lemma hash_taken_stored:
  assumes "index_inv s"
  shows "list_ex (hash_taken h) (keys_in s) \<longleftrightarrow> (\<exists>info. stored_key s info h)"
proof -
  have "hash_taken h r \<longleftrightarrow> hHash (entry_of r) = h" if "r \<in> set (keys_in s)" for r
    using keys_parse [OF assms that] by (auto simp: hash_taken_def entry_of_def)
  then show ?thesis unfolding stored_key_iff [OF assms] list_ex_iff
    by (metis hash_entry_eta hash_entry.select_convs(1))
qed

lemma length_update_new: "map_of xs k = None \<Longrightarrow> length (AList.update k v xs) = Suc (length xs)"
  by (induction xs) (auto split: if_splits)

lemma newToken_not_Nil: "newToken b = Some token \<Longrightarrow> token \<noteq> []"
  by (auto simp: newToken_def TokenPrefix_def)

lemma NewAPIKeyResource_valid_wf:
  assumes "Validate env (NewAPIKeyResource p roles scopes h) = None"
  shows "wf_key_spec \<lparr>kPrincipal = p, kRoles = roles, kKeyHash = h, kScopes = scopes, kActive = True\<rparr>"
proof -
  obtain k where k: "ParseAPIKeySpec (rSpec (NewAPIKeyResource p roles scopes h)) = Inr k"
    using assms by (auto simp: Validate_None validateAPIKey_None NewAPIKeyResource_def split: if_splits)
  have "k = \<lparr>kPrincipal = p, kRoles = roles, kKeyHash = h, kScopes = scopes, kActive = True\<rparr>"
    using k by (auto simp: ParseAPIKeySpec_def NewAPIKeyResource_def parse_principal_def parse_roles_def parse_key_hash_def
        parse_scopes_def parse_active_def split: if_splits sum.splits option.splits prod.splits)
  then show ?thesis using ParseAPIKeySpec_wf [OF k] by simp
qed

text \<open>A successful creation: the stored key is the requested one and the only one with its digest.\<close>

lemma keys_Create_success:
  assumes c: "keys_Create env actor req s = (s', Inr (token, kv))" and inv: "store_inv s" "few_keys s"
    and f: "map_of (byID s) (newID (ioRand (nvIO env))) = None"
  obtains scopes info where "newToken (nvTokenRand env) = Some token" "requested_scopes req = Inr scopes"
    "info = \<lparr>iID = newID (ioRand (nvIO env)), iPrincipal = ckPrincipal req, iRoles = ckRoles req, iScopes = scopes, iActive = True\<rparr>"
    "store_inv s'" "length (byID s') = Suc (length (byID s))" "stored_key s' info (HashToken token)"
    "\<And>i. stored_key s' i (HashToken token) \<Longrightarrow> i = info"
proof -
  obtain scopes where sc: "requested_scopes req = Inr scopes" "newToken (nvTokenRand env) = Some token"
    using c by (auto simp: keys_Create_def Let_def split: sum.splits option.splits if_splits prod.splits)
  let ?h = "HashToken token" let ?r = "NewAPIKeyResource (ckPrincipal req) (ckRoles req) scopes ?h"
  let ?o = "write_as actor ''keys api: create''" let ?id = "newID (ioRand (nvIO env))"
  have i: "index_inv s" using inv(1) by (simp add: store_inv_def)
  have none: "\<not> stored_key s j ?h" for j
    using c sc listResources_keys [OF inv] hash_taken_stored [OF i, of ?h]
    by (auto simp: keys_Create_def Let_def split: if_splits)
  obtain created where cr: "CreateResource (nvEgress env) (nvIO env) (Some ?r) ?o s = (s', Inr created)"
    using c sc by (auto simp: keys_Create_def Let_def split: sum.splits if_splits prod.splits)
  have v: "Validate (nvEgress env) ?r = None" "map_of (byLogic s) (LogicalKey ?r) = None"
    using cr by (auto simp: CreateResource_def Let_def split: option.splits if_splits)
  note wk = NewAPIKeyResource_valid_wf [OF v(1)]
  have wf: "wf_resource ?r" by (rule NewAPIKeyResource_wf [OF wk])
  obtain st where st: "st = ?r\<lparr>rID := ?id, rGeneration := 1, rCreatedAt := ioNow (nvIO env), rUpdatedAt := ioNow (nvIO env),
       rStatus := (rStatus ?r)\<lparr>sPhase := (if sPhase (rStatus ?r) = [] then PhasePending else sPhase (rStatus ?r)),
                              sObservedGen := 0, sUpdatedAt := ioNow (nvIO env)\<rparr>\<rparr>"
    and s': "s' = appendAuditLocked (nvIO env) (or_actor ''anonymous'' ?o) ''created'' st
          (s\<lparr>byID := AList.update (rID st) st (byID s), byLogic := AList.update (LogicalKey ?r) (rID st) (byLogic s)\<rparr>)"
    using create_success [OF wf v, of "nvIO env" ?o] cr by auto
  have b: "byID s' = AList.update ?id st (byID s)" "rID st = ?id" using s' st by simp_all
  have inv': "store_inv s'"
    using create_inv [OF inv(1), of "nvIO env" "Some ?r" ?o "nvEgress env"] f wf cr by simp
  then have i': "index_inv s'" by (simp add: store_inv_def)
  have m: "map_of (byID s') j = (if j = ?id then Some st else map_of (byID s) j)" for j
    using b by (simp add: update_conv')
  let ?info = "\<lparr>iID = ?id, iPrincipal = ckPrincipal req, iRoles = ckRoles req, iScopes = scopes, iActive = True\<rparr>"
  have p: "ParseAPIKeySpec (rSpec st) =
      Inr \<lparr>kPrincipal = ckPrincipal req, kRoles = ckRoles req, kKeyHash = ?h, kScopes = scopes, kActive = True\<rparr>"
    "rKind st = KindAPIKey"
    using ParseAPIKeySpec_New [OF wk] st by (simp_all add: NewAPIKeyResource_def)
  have sk: "stored_key s' ?info ?h"
    unfolding stored_key_def using p b m by (intro exI [of _ st]) (simp add: key_of_def GetResource_iff [OF i'])
  have uni: "j = ?info" if j: "stored_key s' j ?h" for j
  proof -
    obtain r spec where r: "map_of (byID s') (rID r) = Some r" "key_of r = Some j" "ParseAPIKeySpec (rSpec r) = Inr spec"
      "kKeyHash spec = ?h" using j by (auto simp: stored_key_def GetResource_iff [OF i'])
    have "rID r = ?id"
    proof (rule ccontr)
      assume "rID r \<noteq> ?id"
      then have "stored_key s j ?h" using r m by (auto simp: stored_key_def GetResource_iff [OF i])
      then show False using none by blast
    qed
    then have "r = st" using r(1) m by simp
    then show ?thesis using r(2) p b(2) by (simp add: key_of_def)
  qed
  have "length (byID s') = Suc (length (byID s))"
    using f unfolding b(1) by (simp add: length_update_new)
  then show ?thesis using that sc inv' sk uni by blast
qed

lemma keys_Create_accepted:
  assumes "requested_scopes req = Inr scopes" "newToken (nvTokenRand env) = Some token" "listResources s = Inr existing"
    "\<not> list_ex (hash_taken (HashToken token)) existing"
    "wf_key_spec \<lparr>kPrincipal = ckPrincipal req, kRoles = ckRoles req, kKeyHash = HashToken token, kScopes = scopes, kActive = True\<rparr>"
    "map_of (byLogic s) (LogicalKey (NewAPIKeyResource (ckPrincipal req) (ckRoles req) scopes (HashToken token))) = None"
  shows "\<exists>s' kv. keys_Create env actor req s = (s', Inr (token, kv))"
proof -
  let ?r = "NewAPIKeyResource (ckPrincipal req) (ckRoles req) scopes (HashToken token)"
  obtain st s' where st: "rSpec st = rSpec ?r"
    "CreateResource (nvEgress env) (nvIO env) (Some ?r) (write_as actor ''keys api: create'') s = (s', Inr st)"
    using create_success [OF NewAPIKeyResource_wf [OF assms(5)] NewAPIKeyResource_valid [OF assms(5), of "nvEgress env"] assms(6)]
    by fastforce
  have "ParseAPIKeySpec (rSpec st) =
      Inr \<lparr>kPrincipal = ckPrincipal req, kRoles = ckRoles req, kKeyHash = HashToken token, kScopes = scopes, kActive = True\<rparr>"
    unfolding st(1) by (rule ParseAPIKeySpec_New [OF assms(5)])
  then show ?thesis using assms(1-4) st(2) by (simp add: keys_Create_def resourceToKeyView_def)
qed

lemma keys_Delete_success:
  assumes "keys_Delete env actor (iID info) s = (s', None)" "store_inv s" "stored_key s info h"
  shows "store_inv s'" "length (byID s') \<le> length (byID s)" "stored_key s' i h' \<Longrightarrow> iPrincipal i \<noteq> iPrincipal info"
proof -
  have i: "index_inv s" using assms(2) by (simp add: store_inv_def)
  have d: "DeleteResource (nvIO env) (iID info) (write_as actor ''keys api: delete'') s = (s', None)"
    using assms(1) by (auto simp: keys_Delete_def split: sum.splits if_splits)
  then have b: "byID s' = AList.delete (iID info) (byID s)" by (auto simp: DeleteResource_def split: option.splits)
  show inv': "store_inv s'" using delete_inv [OF assms(2)] d by (metis fst_conv)
  then have i': "index_inv s'" by (simp add: store_inv_def)
  show "length (byID s') \<le> length (byID s)" unfolding b by (rule length_delete_le)
  assume k: "stored_key s' i h'"
  then obtain r where r: "map_of (byID s') (rID r) = Some r" "key_of r = Some i" by (auto simp: stored_key_def GetResource_iff [OF i'])
  have m: "rID r \<noteq> iID info" "map_of (byID s) (rID r) = Some r"
    using r(1) unfolding b delete_conv' by (auto split: if_splits)
  have "iID i = rID r" using r(2) by (auto simp: key_of_def split: if_splits sum.splits)
  moreover have "stored_key s i h'"
    using k b unfolding stored_key_def GetResource_iff [OF i] GetResource_iff [OF i'] by (auto simp: delete_conv' split: if_splits)
  ultimately show "iPrincipal i \<noteq> iPrincipal info" using stored_key_principal_unique [OF i _ assms(3)] m(1) by metis
qed

end
