(* ===== verification/Api_System.thy ===== *)
theory Api_System
  imports Api_Key_Laws Reconcile_Laws
begin

text \<open>
  The server as a system: requests, reconciler passes and cache refreshes in any order. Every request keeps the
  store's invariant, so in every reachable state the store is consistent and the key cache holds valid scopes.
\<close>

section \<open>Store invariant across a request\<close>

lemma denied_inv [simp]: "store_inv s \<Longrightarrow> store_inv (AuditDenied io a b c d e f s)"
  using op_inv [of s "OpAudit io _"] by (simp add: AuditDenied_def)

lemma create_keeps:
  assumes "store_inv s" "map_of (byID s) (newID (ioRand io)) = None" "Validate env r = None \<Longrightarrow> wf_resource r"
  shows "store_inv (fst (CreateResource env io (Some r) o' s))"
proof (cases "Validate env r")
  case None
  then show ?thesis using create_inv [OF assms(1), of io "Some r"] assms(2,3) by simp
qed (simp add: CreateResource_def assms(1))

text \<open>Only the stored resource and updates that pass validation matter.\<close>

lemma update_keeps:
  assumes "store_inv s"
    "\<And>r r'. map_of (byID s) i = Some r \<Longrightarrow> fn r = Inr r' \<Longrightarrow> Validate env r' = None \<Longrightarrow>
       r' = r\<lparr>rSpec := rSpec r', rLabels := rLabels r'\<rparr> \<and> (wf_resource r \<longrightarrow> wf_resource r')"
  shows "store_inv (fst (UpdateResource env io i fn o' s))"
proof (cases "map_of (byID s) i")
  case (Some cur)
  let ?fn = "\<lambda>r. if r \<noteq> cur then Inl ErrNotFound else case fn r of Inl e \<Rightarrow> Inl e
      | Inr r' \<Rightarrow> (case Validate env r' of Some e \<Rightarrow> Inl e | None \<Rightarrow> Inr r')"
  have "fn_ok ?fn"
    unfolding fn_ok_def
  proof (intro allI impI)
    fix r r' assume "?fn r = Inr r'"
    then have "r = cur" "fn cur = Inr r'" "Validate env r' = None" by (auto split: if_splits sum.splits option.splits)
    then show "r' = r\<lparr>rSpec := rSpec r', rLabels := rLabels r'\<rparr> \<and> (wf_resource r \<longrightarrow> wf_resource r')"
      using assms(2) [OF Some] by blast
  qed
  moreover have "DeepCopy cur = cur" using assms(1) stored_wf Some by (metis DeepCopy_id store_inv_def)
  then have eq: "fst (UpdateResource env io i ?fn o' s) = fst (UpdateResource env io i fn o' s)"
    using Some by (cases "fn cur"; cases "Validate env (projr (fn cur))") (simp_all add: UpdateResource_def Let_def)
  ultimately show ?thesis using update_inv [OF assms(1), of ?fn env io i o'] unfolding eq by blast
qed (simp add: UpdateResource_def assms(1))

lemma map_of_obj_put: "map_of (obj_put k v m) = (map_of m)(k \<mapsto> v)"
  by (induction k v m rule: obj_put.induct) (auto simp: fun_eq_iff)

lemma obj_put_keys: "set (map fst (obj_put k v m)) = insert k (set (map fst m))"
  by (induction k v m rule: obj_put.induct) auto

lemma sorted_obj_put: "sorted_keys m \<Longrightarrow> sorted_keys (obj_put k v m)"
proof (induction k v m rule: obj_put.induct)
  case (2 k v k' v' m)
  show ?case
  proof (cases "k = k' \<or> k < k'")
    case False
    then have "\<forall>x \<in> set (map fst (obj_put k v m)). k' < x"
      using 2 unfolding obj_put_keys by (auto simp: sorted_keys_def)
    then show ?thesis using 2 False by (auto simp: sorted_keys_def)
  qed (use 2 in \<open>auto simp: sorted_keys_def intro: less_trans\<close>)
qed (simp add: sorted_keys_def)

lemma wf_obj_put:
  assumes "wf_json (JObj m)" "valid_utf8 k" "wf_json v"
  shows "wf_json (JObj (obj_put k v m))"
proof -
  have "list_all (\<lambda>(k, v). valid_utf8 k \<and> wf_json v) (obj_put k v m)"
    using assms by (induction k v m rule: obj_put.induct) (auto simp: sorted_keys_def simp del: valid_utf8.simps)
  then show ?thesis using assms(1) by (simp add: sorted_obj_put)
qed

text \<open>A patched key that passes validation is well formed.\<close>

lemma ascii_strings: "(\<And>x. x \<in> set ss \<Longrightarrow> ascii x) \<Longrightarrow> wf_json (anyStrings ss)"
  using ascii_utf8 by (auto simp: anyStrings_def list_all_iff)

lemma parsed_lists:
  assumes "ParseAPIKeySpec (Some m) = Inr k"
  shows "map_of m ''roles'' = Some (anyStrings ss) \<Longrightarrow> wf_json (anyStrings ss)"
    "map_of m ''scopes'' = Some (anyStrings ss) \<Longrightarrow> wf_json (anyStrings ss)"
proof -
  have d: "decodeStringSlice (anyStrings xs) field = Inr xs" for xs field
    using decodeStringSlice_anySlice by (simp add: anyStrings_def anySlice_def)
  have w: "wf_key_spec k" using ParseAPIKeySpec_wf [OF assms] .
  show "map_of m ''roles'' = Some (anyStrings ss) \<Longrightarrow> wf_json (anyStrings ss)"
    using assms w d Roles_ascii
    by (intro ascii_strings) (auto simp: ParseAPIKeySpec_def parse_roles_def first_bad_None list_all_iff split: sum.splits if_splits option.splits prod.splits)
  show "map_of m ''scopes'' = Some (anyStrings ss) \<Longrightarrow> wf_json (anyStrings ss)"
    using assms w d ValidScope_ascii
    by (intro ascii_strings) (auto simp: ParseAPIKeySpec_def parse_scopes_def first_bad_None list_all_iff split: sum.splits if_splits option.splits prod.splits)
qed

lemma patch_key_wf:
  assumes "Validate env (patch_key req cur) = None" "rKind cur = KindAPIKey" "wf_resource cur"
  shows "wf_resource (patch_key req cur)"
proof -
  let ?r = "map_option anyStrings (ukRoles req)" let ?s = "map_option anyStrings (ukScopes req)" let ?a = "map_option JBool (ukActive req)"
  obtain k where k: "ParseAPIKeySpec (rSpec (patch_key req cur)) = Inr k"
    using assms(1,2) by (auto simp: Validate_None validateAPIKey_None patch_key_def split: if_splits)
  then obtain m where m: "rSpec cur = Some m"
    by (cases "rSpec cur") (auto simp: patch_key_def set_spec_def ParseAPIKeySpec_def split: option.splits)
  have step: "\<exists>m'. set_spec key v (Some n) = Some m' \<and> map_of m' = (case v of None \<Rightarrow> map_of n | Some x \<Rightarrow> (map_of n)(key \<mapsto> x)) \<and>
      (wf_json (JObj n) \<longrightarrow> valid_utf8 key \<longrightarrow> (\<forall>x. v = Some x \<longrightarrow> wf_json x) \<longrightarrow> wf_json (JObj m'))" for key v n
    using wf_obj_put map_of_obj_put by (cases v) (auto simp: set_spec_def simp del: wf_json.simps valid_utf8.simps)
  obtain m1 where m1: "set_spec ''roles'' ?r (Some m) = Some m1" "map_of m1 = (case ?r of None \<Rightarrow> map_of m | Some x \<Rightarrow> (map_of m)(''roles'' \<mapsto> x))"
    "wf_json (JObj m) \<Longrightarrow> valid_utf8 ''roles'' \<Longrightarrow> (\<And>x. ?r = Some x \<Longrightarrow> wf_json x) \<Longrightarrow> wf_json (JObj m1)" using step by blast
  obtain m2 where m2: "set_spec ''scopes'' ?s (Some m1) = Some m2" "map_of m2 = (case ?s of None \<Rightarrow> map_of m1 | Some x \<Rightarrow> (map_of m1)(''scopes'' \<mapsto> x))"
    "wf_json (JObj m1) \<Longrightarrow> valid_utf8 ''scopes'' \<Longrightarrow> (\<And>x. ?s = Some x \<Longrightarrow> wf_json x) \<Longrightarrow> wf_json (JObj m2)" using step by blast
  obtain m3 where m3: "set_spec ''active'' ?a (Some m2) = Some m3" "map_of m3 = (case ?a of None \<Rightarrow> map_of m2 | Some x \<Rightarrow> (map_of m2)(''active'' \<mapsto> x))"
    "wf_json (JObj m2) \<Longrightarrow> valid_utf8 ''active'' \<Longrightarrow> (\<And>x. ?a = Some x \<Longrightarrow> wf_json x) \<Longrightarrow> wf_json (JObj m3)" using step by blast
  have sp: "rSpec (patch_key req cur) = Some m3" using m m1(1) m2(1) m3(1) by (simp add: patch_key_def)
  have "map_of m3 ''roles'' = Some x" if "?r = Some x" for x using that m1(2) m2(2) m3(2) by (auto split: option.splits)
  then have r: "wf_json x" if "?r = Some x" for x using that parsed_lists(1) [OF k [unfolded sp]] by auto
  have "map_of m3 ''scopes'' = Some x" if "?s = Some x" for x using that m1(2) m2(2) m3(2) by (auto split: option.splits)
  then have s: "wf_json x" if "?s = Some x" for x using that parsed_lists(2) [OF k [unfolded sp]] by auto
  have a: "wf_json x" if "?a = Some x" for x using that by auto
  have u: "valid_utf8 ''roles''" "valid_utf8 ''scopes''" "valid_utf8 ''active''"
    by (rule ascii_utf8, simp add: ascii_def byte_def)+
  have "wf_json (JObj m)" using assms(3) m by (simp add: wf_resource_def wf_spec_def)
  then have "wf_json (JObj m3)" using m1(3) m2(3) m3(3) u r s a by blast
  then show ?thesis using assms(3) sp by (simp add: wf_resource_def wf_spec_def patch_key_def)
qed

section \<open>Requests\<close>

text \<open>The resource a body decodes to has only numbers of the modelled precision.\<close>

definition body_ok :: "http_request \<Rightarrow> bool" where
  "body_ok r \<longleftrightarrow>
     (case unmarshal_struct resource_fields (rqBody r) zero_resource of None \<Rightarrow> True | Some res \<Rightarrow> wf_resource res)"

lemma decodeBody_wf: "body_ok r \<Longrightarrow> decodeBody resource_fields r zero_resource = Inr res \<Longrightarrow> wf_resource res"
  by (auto simp: decodeBody_def read_body_def body_ok_def split: if_splits option.splits)

lemma wf_resource_place [simp]:
  "wf_resource (r\<lparr>rOrg := a\<rparr>) = wf_resource r" "wf_resource (r\<lparr>rProject := a\<rparr>) = wf_resource r"
  "wf_resource (r\<lparr>rEnv := a\<rparr>) = wf_resource r" "wf_resource (r\<lparr>rKind := a\<rparr>) = wf_resource r"
  "wf_resource (r\<lparr>rName := a\<rparr>) = wf_resource r"
  by (simp_all add: wf_resource_def)

lemma create_and_publish_keeps:
  assumes "store_inv (sv_store sv)" "fresh env sv" "wf_resource res"
  shows "store_inv (sv_store (fst (create_and_publish cfg env cx res reason sv)))"
  using create_keeps [OF assms(1), of "nvIO env" "nvEgress env" res "write_as (cxActor cx) reason"] assms(2,3)
  by (simp add: create_and_publish_store fresh_def)

lemma delete_and_publish_keeps:
  "store_inv (sv_store sv) \<Longrightarrow> store_inv (sv_store (fst (delete_and_publish cfg env cx res sv)))"
  by (simp add: delete_and_publish_store delete_inv)

lemma put_update_keeps:
  assumes "store_inv (sv_store sv)" "wf_resource inp"
  shows "store_inv (sv_store (fst (put_update cfg env cx inp existing sv)))"
  unfolding put_update_store using update_inv [OF assms(1) put_spec_ok [OF assms(2)]] .

lemma handleScopePut_keeps:
  assumes "store_inv (sv_store sv)" "fresh env sv" "body_ok r"
  shows "store_inv (handled (handleScopePut cfg env seg) cx r sv)"
proof (cases "decodeBody resource_fields r zero_resource")
  case (Inr inp)
  have w: "wf_resource inp" using decodeBody_wf [OF assms(3) Inr] .
  then have "wf_resource (inp\<lparr>rOrg := a, rProject := b, rEnv := c, rKind := d, rName := e, rID := []\<rparr>)" for a b c d e
    by (simp add: wf_resource_def)
  then have "store_inv (sv_store (fst (create_and_publish cfg env cx
      (inp\<lparr>rOrg := a, rProject := b, rEnv := c, rKind := d, rName := e, rID := []\<rparr>) reason sv)))" for a b c d e reason
    using create_and_publish_keeps [OF assms(1,2)] by blast
  then show ?thesis using Inr assms(1) put_update_keeps [OF assms(1) w]
    by (cases "get_at seg (sv_store sv)") (simp_all add: handleScopePut_def)
qed (use assms in \<open>simp add: handleScopePut_def\<close>)

lemma handleCreate_keeps:
  assumes "store_inv (sv_store sv)" "fresh env sv" "body_ok r"
  shows "store_inv (handled (handleCreate cfg env) cx r sv)"
proof (cases "decodeBody resource_fields r zero_resource")
  case (Inr inp)
  then show ?thesis using assms decodeBody_wf [OF assms(3) Inr] by (simp add: handleCreate_def create_and_publish_keeps)
qed (use assms in \<open>simp add: handleCreate_def\<close>)

lemma delete_handlers_keep:
  assumes "store_inv (sv_store sv)"
  shows "store_inv (handled (handleScopeDelete cfg env seg) cx r sv)" "store_inv (handled (handleDeleteByID cfg env i) cx r sv)"
  using assms by (simp_all add: handleScopeDelete_def handleDeleteByID_def delete_and_publish_keeps split: sum.split)

lemma requireAdmin_keeps:
  assumes "store_inv (sv_store sv)" "\<And>ident. store_inv (handled (h ident) cx r sv)"
  shows "store_inv (handled (requireAdmin env h) cx r sv)"
  using assms by (simp add: requireAdmin_def denyAdmin_def Let_def split: option.split)

lemma keys_Create_keeps:
  assumes "store_inv s" "map_of (byID s) (newID (ioRand (nvIO env))) = None"
  shows "store_inv (fst (keys_Create env actor req s))"
proof -
  have "store_inv (fst (CreateResource (nvEgress env) (nvIO env) (Some (NewAPIKeyResource p roles scopes h)) o' s))" for p roles scopes h o'
    using assms NewAPIKeyResource_wf NewAPIKeyResource_valid_wf by (intro create_keeps) blast+
  then show ?thesis
    using assms(1) by (simp add: keys_Create_def Let_def case_prod_beta split: sum.split option.split)
qed

lemma keys_Update_keeps:
  assumes "store_inv s"
  shows "store_inv (fst (keys_Update env actor i req s))"
proof (cases "GetResource i s")
  case (Inr res)
  have i: "index_inv s" using assms by (simp add: store_inv_def)
  then have m: "map_of (byID s) i = Some res" using Inr by (simp add: GetResource_iff)
  have "store_inv (fst (UpdateResource (nvEgress env) (nvIO env) i (patch_fn req) (key_update_options actor) s))"
    if "rKind res = KindAPIKey"
  proof (rule update_keeps [OF assms])
    fix r r' assume "map_of (byID s) i = Some r" "patch_fn req r = Inr r'" "Validate (nvEgress env) r' = None"
    then have "r = res" "r' = patch_key req res" "Validate (nvEgress env) (patch_key req res) = None"
      using m by (auto simp: patch_fn_def split: if_splits simp del: map_of_eq_Some_iff)
    then show "r' = r\<lparr>rSpec := rSpec r', rLabels := rLabels r'\<rparr> \<and> (wf_resource r \<longrightarrow> wf_resource r')"
      using patch_key_wf that by (auto simp: patch_key_def)
  qed
  then show ?thesis using assms Inr
    by (simp add: keys_Update_def Let_def case_prod_beta split: sum.split)
qed (simp add: keys_Update_def assms)

lemma keys_Delete_keeps: "store_inv s \<Longrightarrow> store_inv (fst (keys_Delete env actor i s))"
  using delete_inv by (simp add: keys_Delete_def split: sum.split)

lemma key_handlers_keep:
  assumes "store_inv (sv_store sv)" "fresh env sv"
  shows "store_inv (handled (handleKeysCreate cfg env) cx r sv)" "store_inv (handled (handleKeysList env) cx r sv)"
    "store_inv (handled (handleKeysUpdate cfg env i) cx r sv)" "store_inv (handled (handleKeysDelete env i) cx r sv)"
proof -
  have c: "store_inv (fst (keys_Create env actor req (sv_store sv)))" for actor req
    using keys_Create_keeps assms by (simp add: fresh_def)
  have u: "store_inv (fst (keys_Update env actor i req (sv_store sv)))" for actor req using keys_Update_keeps assms by blast
  have d: "store_inv (fst (keys_Delete env actor i (sv_store sv)))" for actor using keys_Delete_keeps assms by blast
  show "store_inv (handled (handleKeysCreate cfg env) cx r sv)"
    unfolding handleKeysCreate_def using assms(1) c
    by (intro requireAdmin_keeps) (simp_all add: case_prod_beta split: sum.split)
  show "store_inv (handled (handleKeysList env) cx r sv)"
    unfolding handleKeysList_def using assms(1) by (intro requireAdmin_keeps) (simp_all split: sum.split)
  show "store_inv (handled (handleKeysUpdate cfg env i) cx r sv)"
    unfolding handleKeysUpdate_def using assms(1) u
    by (intro requireAdmin_keeps) (simp_all add: case_prod_beta split: sum.split)
  show "store_inv (handled (handleKeysDelete env i) cx r sv)"
    unfolding handleKeysDelete_def using assms(1) d
    by (intro requireAdmin_keeps) (simp_all add: case_prod_beta split: option.split)
qed

lemma by_method_keeps:
  assumes "store_inv (sv_store sv)" "list_all (\<lambda>(m, h). store_inv (handled h cx r sv)) hs"
  shows "store_inv (handled (by_method hs) cx r sv)"
  using assms by (auto simp: by_method_def list_all_iff split: option.split dest!: map_of_SomeD)

lemma routeV1_keeps:
  assumes "store_inv (sv_store sv)" "fresh env sv" "body_ok r"
  shows "store_inv (handled (routeV1 cfg env) cx r sv)"
  unfolding routeV1_def Let_def
  using assms handleCreate_keeps [OF assms] handleScopePut_keeps [OF assms] delete_handlers_keep [OF assms(1)]
    key_handlers_keep [OF assms(1,2)]
  by (simp add: by_method_keeps)

lemma mux_keeps:
  assumes "store_inv (sv_store sv)" "fresh env sv" "body_ok r"
  shows "store_inv (handled (mux cfg env) cx r sv)"
  using assms routeV1_keeps [OF assms] by (simp add: mux_def Let_def)

lemma deriveScope_body:
  assumes "deriveScope rid r = Inr (scope, r1)" "body_ok r"
  shows "body_ok r1"
proof -
  have "rqBody r1 = rqBody r"
    using assms(1) by (auto simp: deriveScope_def peekBodyScope_def read_body_def Let_def split: if_splits option.splits prod.splits)
  then show ?thesis using assms(2) by (simp add: body_ok_def)
qed

lemma request_keeps_inv:
  assumes "store_inv (sv_store sv)" "fresh env sv" "body_ok r"
  shows "store_inv (sv_store (fst (NewServer cfg env r sv)))"
proof -
  have m: "store_inv (handled (mux cfg env) cx r1 sv)" if "body_ok r1" for cx r1
    using mux_keeps [OF assms(1,2) that] .
  then have "store_inv (handled (AuthMiddleware cfg (mux cfg env)) cx r sv)" for cx
    using assms by (simp add: AuthMiddleware_def split: option.split)
  moreover have "store_inv (handled (AuthZMiddleware cfg env az (mux cfg env)) cx r sv)" for az cx
    using assms m deriveScope_body [OF _ assms(3)] by (simp add: AuthZMiddleware_def Let_def split: option.split sum.split)
  ultimately show ?thesis using assms(1) by (simp add: NewServer_fst auth_middleware_def split: option.split)
qed

section \<open>The key cache\<close>

lemma refresh_one_scopes:
  assumes "\<forall>p info. map_of (snd acc) p = Some info \<longrightarrow> (\<forall>scope \<in> set (iScopes info). ValidScope scope True)"
  shows "\<forall>p info. map_of (snd (refresh_one r acc)) p = Some info \<longrightarrow> (\<forall>scope \<in> set (iScopes info). ValidScope scope True)"
proof (cases "ParseAPIKeySpec (rSpec r)")
  case (Inr spec)
  have "\<forall>scope \<in> set (kScopes spec). ValidScope scope True"
    using ParseAPIKeySpec_wf [OF Inr] by (auto simp: wf_key_spec_def list_all_iff ValidScope_iff)
  then show ?thesis using assms Inr
    by (cases acc) (auto simp: refresh_one_def Let_def update_conv' simp del: map_of_eq_Some_iff split: option.splits if_splits)
qed (use assms in \<open>simp add: refresh_one_def\<close>)

lemma refresh_cache_ok: "cache_ok a \<Longrightarrow> cache_ok (refresh_cache s a)"
proof -
  let ?P = "\<lambda>acc :: hash_entry list \<times> (string, key_info) gomap.
      \<forall>p info. map_of (snd acc) p = Some info \<longrightarrow> (\<forall>scope \<in> set (iScopes info). ValidScope scope True)"
  assume "cache_ok a"
  moreover have "?P out" if "page_loop stop_on_last_or_empty (\<lambda>c. ListResources (key_list_options\<lparr>oCursor := c\<rparr>) s) refresh_one [] ([], []) = Some (Inr out)" for out
    using page_loop_inv [OF that, of ?P] refresh_one_scopes by simp
  ultimately show ?thesis
    by (auto simp: refresh_cache_def Refresh_def cache_ok_def Lookup_def split: option.splits sum.splits prod.splits)
qed

definition cache_valid :: "'w server \<Rightarrow> bool" where
  "cache_valid sv \<longleftrightarrow> (case svAuth sv of None \<Rightarrow> True | Some az \<Rightarrow> cache_ok az)"

definition server_inv :: "'w server \<Rightarrow> bool" where
  "server_inv sv \<longleftrightarrow> store_inv (sv_store sv) \<and> cache_valid sv"

lemma cache_valid_simps [simp]:
  "cache_valid (set_store s sv) = cache_valid sv" "cache_valid (sv\<lparr>svRecon := rc\<rparr>) = cache_valid sv"
  "cache_valid sv \<Longrightarrow> cache_valid (refresh_keys sv)"
  by (cases "svAuth sv"; simp add: cache_valid_def set_store_def refresh_keys_def refresh_cache_ok)+

text \<open>A request changes the cache by refreshing it, if at all.\<close>

definition cache_kept :: "'w server \<Rightarrow> 'w server \<Rightarrow> bool" where
  "cache_kept sv sv' \<longleftrightarrow> (cache_valid sv \<longrightarrow> cache_valid sv')"

lemma cache_kept_basic [simp]:
  "cache_kept sv sv" "cache_kept sv (set_store s sv)"
  "cache_kept sv sv1 \<Longrightarrow> cache_kept sv (refresh_keys sv1)"
  "cache_kept sv (sv\<lparr>svRecon := rc\<rparr>)"
  by (simp_all add: cache_kept_def)

lemma cache_kept_publish [simp]:
  "cache_kept sv sv1 \<Longrightarrow> cache_kept sv (server_publish cfg env e sv1)"
  "cache_kept sv sv1 \<Longrightarrow> cache_kept sv (publishKeyEvent cfg env typ kv actor sv1)"
  by (simp_all add: cache_kept_def server_publish_def publishKeyEvent_def Let_def case_prod_beta)

lemma cache_kept_tails [simp]:
  "cache_kept sv (fst (create_and_publish cfg env cx res reason sv))"
  "cache_kept sv (fst (delete_and_publish cfg env cx res sv))"
  "cache_kept sv (fst (put_update cfg env cx inp existing sv))"
  "cache_kept sv (fst (denyAdmin env cx r p sv))"
  by (simp_all add: create_and_publish_def delete_and_publish_def put_update_def denyAdmin_def Let_def case_prod_beta
      split: sum.split option.split)

lemma cache_kept_handlers [simp]:
  "cache_kept sv (fst (handleCreate cfg env cx r sv))" "cache_kept sv (fst (handleDeleteByID cfg env i cx r sv))"
  "cache_kept sv (fst (handleScopePut cfg env seg cx r sv))" "cache_kept sv (fst (handleScopeDelete cfg env seg cx r sv))"
  "cache_kept sv (fst (handleReconcile org i cx r sv))"
  "cache_kept sv (fst (handleKeysCreate cfg env cx r sv))" "cache_kept sv (fst (handleKeysList env cx r sv))"
  "cache_kept sv (fst (handleKeysUpdate cfg env i cx r sv))" "cache_kept sv (fst (handleKeysDelete env i cx r sv))"
  by (simp_all add: handleCreate_def handleDeleteByID_def handleScopePut_def handleScopeDelete_def handleReconcile_def
      handleKeysCreate_def handleKeysList_def handleKeysUpdate_def handleKeysDelete_def requireAdmin_def case_prod_beta
      split: sum.split option.split)

lemma by_method_cache: "list_all (\<lambda>(m, h). cache_kept sv (fst (h cx r sv))) hs \<Longrightarrow> cache_kept sv (fst (by_method hs cx r sv))"
  by (auto simp: by_method_def list_all_iff split: option.split dest!: map_of_SomeD)

lemma mux_cache: "cache_kept sv (fst (mux cfg env cx r sv))"
proof -
  have "cache_kept sv (fst (routeV1 cfg env cx r sv))" by (simp add: routeV1_def Let_def by_method_cache)
  then show ?thesis by (simp add: mux_def Let_def)
qed

lemma request_cache: "cache_kept sv (fst (NewServer cfg env r sv))"
  by (simp add: mux_cache NewServer_fst auth_middleware_def AuthMiddleware_def AuthZMiddleware_def Let_def
      split: option.split sum.split)

lemma request_server_inv:
  assumes "server_inv sv" "fresh env sv" "body_ok r"
  shows "server_inv (fst (NewServer cfg env r sv))"
  using assms request_cache [of sv cfg env r] by (simp add: server_inv_def cache_kept_def request_keeps_inv)

section \<open>Reachable systems\<close>

text \<open>The daemon after boot (a store reached by seeding, an empty cache, refreshed) and its life: requests,
  reconciler runs, periodic refreshes.\<close>

inductive system_reach :: "server_config \<Rightarrow> 'w recon_config \<Rightarrow> 'w server \<Rightarrow> bool" for cfg rcfg where
  boot: "reachable eenv (xStore rc) \<Longrightarrow> system_reach cfg rcfg (refresh_keys \<lparr>svRecon = rc, svAuth = Some NewAuthorizer\<rparr>)"
| request: "system_reach cfg rcfg sv \<Longrightarrow> fresh env sv \<Longrightarrow> body_ok r \<Longrightarrow> system_reach cfg rcfg (fst (NewServer cfg env r sv))"
| reconcile: "system_reach cfg rcfg sv \<Longrightarrow> recon_run rcfg (svRecon sv) rc \<Longrightarrow> system_reach cfg rcfg (sv\<lparr>svRecon := rc\<rparr>)"
| refresh: "system_reach cfg rcfg sv \<Longrightarrow> system_reach cfg rcfg (refresh_keys sv)"

lemma refresh_server_inv: "server_inv sv \<Longrightarrow> server_inv (refresh_keys sv)"
  by (simp add: server_inv_def)

lemma NewAuthorizer_ok: "cache_ok NewAuthorizer"
  by (simp add: cache_ok_def NewAuthorizer_def Lookup_def)

lemma system_inv: "system_reach cfg rcfg sv \<Longrightarrow> server_inv sv"
proof (induction rule: system_reach.induct)
  case (boot eenv rc)
  then show ?case using reachable_inv NewAuthorizer_ok by (intro refresh_server_inv) (simp add: server_inv_def cache_valid_def)
next
  case (reconcile sv rc)
  then have "same_desired (sv_store sv) (xStore rc)" using run_keeps by blast
  then show ?case using reconcile.IH by (simp add: server_inv_def same_desired_def)
qed (auto intro: request_server_inv refresh_server_inv)

end
