(* ===== verification/Api_Props.thy ===== *)
theory Api_Props
  imports Api_Feeds Api_System Authz_Props
begin

text \<open>Properties of the HTTP API, from the bytes of a request to the resources it touches.\<close>

section \<open>Served requests\<close>

lemma served_v1:
  assumes "svAuth sv = Some az" "\<not> preflight r" "bearerToken r = Some tok" "resolve_identity az (scDevAuth cfg) tok = Some ident"
    "deriveScope (request_id env r) r = Inr (scope, r1)" "tgPass scope \<or> idAdmin ident \<or> denial az ident scope = []"
    "HasPrefix (rqPath r) ''/v1/''" "cleanPath (rqPath r) = rqPath r"
  defines "cx \<equiv> (first_ctx env r)\<lparr>cxActor := idPrincipal ident, cxIdentity := Some ident\<rparr>"
  shows "fst (NewServer cfg env r sv) = fst (routeV1 cfg env cx r1 sv)"
    "rsStatus (snd (NewServer cfg env r sv)) = rsStatus (snd (routeV1 cfg env cx r1 sv))"
proof -
  have p: "rqPath r1 = rqPath r" using deriveScope_shape [OF assms(5)] by simp
  have "rqPath r \<noteq> ''/healthz''" "rqPath r \<noteq> ''/readyz''" "rqPath r \<noteq> ''/''" "rqPath r \<noteq> ''/v1''"
    using assms(7) by (auto simp: HasPrefix_iff)
  then have m: "mux cfg env cx r1 sv = routeV1 cfg env cx r1 sv" using p assms(7,8) by (simp add: mux_def Let_def)
  have "\<not> open_path (rqPath r)" using assms(7) by (intro v1_not_open) (auto simp: HasPrefix_iff)
  moreover have "cxRequestID (first_ctx env r) = request_id env r" by (simp add: first_ctx_def)
  ultimately have "AuthZMiddleware cfg env az (mux cfg env) (first_ctx env r) r sv = routeV1 cfg env cx r1 sv"
    using assms(3-6) m by (simp add: AuthZMiddleware_def Let_def cx_def)
  then show "fst (NewServer cfg env r sv) = fst (routeV1 cfg env cx r1 sv)"
    "rsStatus (snd (NewServer cfg env r sv)) = rsStatus (snd (routeV1 cfg env cx r1 sv))"
    using assms(1,2) by (simp_all add: NewServer_fst NewServer_status auth_middleware_def)
qed

lemma scope_routed:
  assumes "path_segments (rqPath r) = seg" "length seg = 5"
  shows "routeV1 cfg env cx r sv = by_method [(''GET'', handleScopeGet seg), (''PUT'', handleScopePut cfg env seg),
      (''DELETE'', handleScopeDelete cfg env seg)] cx r sv"
proof -
  have "TrimChar (CHR ''/'') (TrimPrefix (rqPath r) ''/v1'') \<noteq> []" using assms by (auto simp: path_segments_def)
  then show ?thesis using assms unfolding routeV1_def Let_def path_segments_def by simp
qed

lemma scope_delete:
  assumes "index_inv (sv_store sv)" "get_at seg (sv_store sv) = Inr x"
  shows "byID (handled (handleScopeDelete cfg env seg) cx r sv) = AList.delete (rID x) (byID (sv_store sv))"
proof -
  obtain i y where "map_of (byID (sv_store sv)) i = Some y" "x = DeepCopy y"
    using assms(2) by (auto simp: GetByLogicalKey_def split: option.splits)
  then have "map_of (byID (sv_store sv)) (rID x) = Some x"
    using stored_okD [OF assms(1)] stored_wf [OF assms(1)] by (auto simp: stored_ok_def simp del: map_of_eq_Some_iff)
  then show ?thesis using assms(2) by (simp add: handleScopeDelete_def delete_and_publish_store DeleteResource_def)
qed

section \<open>A server with one key\<close>

definition ex_info :: "string list \<Rightarrow> string list \<Rightarrow> key_info" where
  "ex_info roles scopes = \<lparr>iID = ''r-09'', iPrincipal = ''ci'', iRoles = roles, iScopes = scopes, iActive = True\<rparr>"

definition ex_cache :: "string list \<Rightarrow> string list \<Rightarrow> authorizer" where
  "ex_cache roles scopes =
     \<lparr>byHash = [\<lparr>hHash = HashToken ''ryk_ci'', hInfo = ex_info roles scopes\<rparr>], byPrincipal = [(''ci'', ex_info roles scopes)]\<rparr>"

definition ex_recon :: "store \<Rightarrow> unit recon" where
  "ex_recon s = \<lparr>xStore = s, xBus = NewBus, xQueue = [], xBook = [], xClaims = [], xWorld = (), xTick = 0\<rparr>"

definition ex_server :: "store \<Rightarrow> authorizer \<Rightarrow> unit server" where
  "ex_server s az = \<lparr>svRecon = ex_recon s, svAuth = Some az\<rparr>"

definition ex_config :: server_config where
  "ex_config = \<lparr>scAPIKeys = [], scSkipPrefixes = [], scDevAuth = False, scCORSOrigins = [], scVersion = [], scRefresher = 0\<rparr>"

definition ex_api :: api_env where
  "ex_api = \<lparr>nvEgress = ex_env, nvIO = ex_io 2, nvDenyIO = ex_io 3, nvNow = 7, nvRequestRand = ''abcdef'', nvTokenRand = Some ''0123456789abcdef''\<rparr>"

definition ex_request :: "string \<Rightarrow> string \<Rightarrow> string \<Rightarrow> http_request" where
  "ex_request meth path body =
     \<lparr>rqMethod = meth, rqPath = path, rqQuery = [], rqHeader = [(''Authorization'', ''Bearer ryk_ci'')], rqBody = body, rqBodyErr = False\<rparr>"

lemma ex_bearer: "bearerToken (ex_request m p b) = Some ''ryk_ci''"
proof -
  have "bearerToken (ex_request m p b) = bearerToken (ex_request [] [] [])" by (simp add: bearerToken_def ex_request_def)
  then show ?thesis by (simp add: \<open>bearerToken (ex_request m p b) = _\<close>) code_simp
qed

lemma ex_preflight: "\<not> preflight (ex_request m p b)"
  by (simp add: preflight_def ex_request_def get_or_empty_def)

lemma ex_authenticate: "Authenticate (ex_cache roles scopes) ''ryk_ci'' = Some ''ci''"
  by (simp add: Authenticate_def ex_cache_def ex_info_def)

lemma ex_cache_lookup: "Lookup (ex_cache roles scopes) p = (if p = ''ci'' then Some (ex_info roles scopes) else None)"
  by (simp add: Lookup_def ex_cache_def)

lemma ex_identity:
  "resolve_identity (ex_cache roles scopes) (scDevAuth ex_config) ''ryk_ci'' =
     Some \<lparr>idPrincipal = ''ci'', idRoles = roles, idAdmin = HasRole roles RoleAdmin\<rparr>"
  by (simp add: resolve_identity_def resolveToken_def ex_authenticate ex_cache_lookup ex_info_def)

lemma ex_cache_ok: "list_all (\<lambda>s. ValidScope s True) scopes \<Longrightarrow> cache_ok (ex_cache roles scopes)"
  by (simp add: cache_ok_def ex_cache_lookup ex_info_def list_all_iff)

lemma ex_store_fresh: "fresh ex_api (ex_server ex_store az)"
  by (simp add: fresh_def ex_server_def ex_recon_def ex_store_eq ex_api_def ex_ids)

section \<open>Properties\<close>

text \<open>The tokens the server's mode accepts.\<close>

definition accepted :: "server_config \<Rightarrow> 'w server \<Rightarrow> string \<Rightarrow> bool" where
  "accepted cfg sv tok \<longleftrightarrow>
     (case svAuth sv of
        Some az \<Rightarrow> resolve_identity az (scDevAuth cfg) tok \<noteq> None
      | None \<Rightarrow> authenticateToken tok (newStaticKeyIndex (scAPIKeys cfg)) (scDevAuth cfg) \<noteq> None)"



text \<open>C11: the system invariant. Whatever requests, reconciler runs and cache refreshes follow the boot, in any
  order, the store keeps its invariant and the key cache holds only valid scopes.\<close>

theorem reachable_system_inv:
  assumes "system_reach cfg rcfg sv"
  shows "server_inv sv"
  using assms by (rule system_inv)

text \<open>A small run: boot, then a DELETE of the one resource.\<close>

definition ex_delete :: http_request where
  "ex_delete = ex_request ''DELETE'' ''/v1/acme/core/prod/node/web'' []"

definition ex_rcfg :: "unit recon_config" where
  "ex_rcfg = fst (NewReconciler ex_io \<lparr>xInterval = 0, xConcurrency = 0, xDriftInterval = 0, xActuators = [], xRetryDefaults = None, xRetryPolicies = []\<rparr>
     ex_store NewBus ())"

lemma ex_delete_body: "body_ok ex_delete"
proof -
  have "rqBody ex_delete = []" by (simp add: ex_delete_def ex_request_def)
  moreover have "unmarshal_struct resource_fields [] zero_resource = None" by code_simp
  ultimately show ?thesis by (simp add: body_ok_def)
qed

theorem reachable_system_inv_witness:
  "server_inv (fst (NewServer ex_config ex_api ex_delete (refresh_keys (ex_server ex_store NewAuthorizer))))"
proof (rule reachable_system_inv)
  have b: "system_reach ex_config ex_rcfg (refresh_keys (ex_server ex_store NewAuthorizer))"
    using system_reach.boot [of ex_env "ex_recon ex_store"] ex_store_reachable by (simp add: ex_server_def ex_recon_def)
  have "fresh ex_api (refresh_keys (ex_server ex_store NewAuthorizer))"
    using ex_store_fresh by (simp add: fresh_def)
  then show "system_reach ex_config ex_rcfg (fst (NewServer ex_config ex_api ex_delete (refresh_keys (ex_server ex_store NewAuthorizer))))"
    by (rule system_reach.request [OF b _ ex_delete_body])
qed


lemma ex_deleted:
  assumes "az = ex_cache roles scopes" "seg = path_segments path" "length seg = 5" "seg ! 0 \<noteq> ''keys''"
    "HasRole roles RoleAdmin \<or> dAllowed (Authorize az ''ci'' (seg ! 0) (seg ! 1) True)"
    "cleanPath path = path" "HasPrefix path ''/v1/''" "index_inv s" "get_at seg s = Inr x"
  shows "touched s (sv_store (fst (NewServer ex_config ex_api (ex_request ''DELETE'' path []) (ex_server s az)))) x"
proof -
  let ?sv = "ex_server s az" let ?r = "ex_request ''DELETE'' path []"
  let ?id = "\<lparr>idPrincipal = ''ci'', idRoles = roles, idAdmin = HasRole roles RoleAdmin\<rparr>"
  let ?cx = "(first_ctx ex_api ?r)\<lparr>cxActor := idPrincipal ?id, cxIdentity := Some ?id\<rparr>"
  let ?scope = "zero_scope\<lparr>tgOrg := seg ! 0, tgProject := seg ! 1, tgWrite := True\<rparr>"
  have p: "rqPath ?r = path" "rqMethod ?r = ''DELETE''" by (simp_all add: ex_request_def)
  have "seg \<noteq> [[]]" using assms(3) by auto
  then have "\<not> (path = ''/'' \<or> path = ''/v1'' \<or> path = ''/v1/'')" using special_paths assms(2) by metis
  then have d: "deriveScope (request_id ex_api ?r) ?r = Inr (?scope, ?r)"
    unfolding deriveScope_def Let_def p using assms(3,4) by (simp add: assms(2) [symmetric])
  have ok: "tgPass ?scope \<or> idAdmin ?id \<or> denial az ?id ?scope = []"
    using assms(5) unfolding denial_empty by (simp add: zero_scope_def)
  have "fst (NewServer ex_config ex_api ?r ?sv) = fst (routeV1 ex_config ex_api ?cx ?r ?sv)"
    by (rule served_v1(1) [OF _ ex_preflight ex_bearer ex_identity d])
       (use ok assms p in \<open>simp_all add: ex_server_def\<close>)
  then have "sv_store (fst (NewServer ex_config ex_api ?r ?sv)) = handled (handleScopeDelete ex_config ex_api seg) ?cx ?r ?sv"
    by (simp add: scope_routed [OF _ assms(3)] p assms(2) by_method_def)
  then have "byID (sv_store (fst (NewServer ex_config ex_api ?r ?sv))) = AList.delete (rID x) (byID s)"
    using scope_delete [of ?sv seg x] assms(8,9) by (simp add: ex_server_def ex_recon_def)
  moreover have "map_of (byID s) (rID x) = Some x"
    using assms(8,9) stored_okD [OF assms(8)] stored_wf [OF assms(8)]
    by (auto simp: GetByLogicalKey_def stored_ok_def simp del: map_of_eq_Some_iff split: option.splits)
  ultimately show ?thesis unfolding touched_def by (intro exI [of _ "rID x"]) (simp add: delete_conv' del: map_of_eq_Some_iff)
qed


text \<open>C13: managed keys are out of reach. Whatever a request does to a resource of the reserved organisation,
  where all keys live, its caller holds the admin role: no other key can mint, alter or revoke a key.\<close>

theorem reserved_org_admin_only:
  assumes "svAuth sv = Some az" "\<not> scDevAuth cfg" "server_inv sv" "fresh env sv"
    "touched (sv_store sv) (sv_store (fst (NewServer cfg env r sv))) x" "rOrg x = ReservedOrg"
  shows "\<exists>tok p. bearerToken r = Some tok \<and> Authenticate az tok = Some p \<and> is_admin az p"
proof -
  have c: "cache_ok az" "index_inv (sv_store sv)" using assms(1,3) by (simp_all add: server_inv_def cache_valid_def store_inv_def)
  obtain tok p where t: "bearerToken r = Some tok" "Authenticate az tok = Some p"
    "is_admin az p \<or> dAllowed (Authorize az p (rOrg x) (rProject x) True) \<or> rOrg x = ''keys''"
    by (rule request_touched [OF assms(1,2) c assms(4,5)])
  have "rOrg x \<noteq> ''keys''" using assms(6) by (simp add: ReservedOrg_def)
  moreover have "dAllowed (Authorize az p (rOrg x) (rProject x) True) \<Longrightarrow> is_admin az p"
    using assms(6) by (auto simp: Authorize_iff may_access_def)
  ultimately show ?thesis using t by blast
qed

theorem reserved_org_admin_only_witness:
  "\<exists>tok p. bearerToken (ex_request ''DELETE'' ''/v1/ryvex/system/system/apikey/ci'' []) = Some tok \<and>
     Authenticate (ex_cache [RoleAdmin] []) tok = Some p \<and> is_admin (ex_cache [RoleAdmin] []) p"
proof -
  let ?az = "ex_cache [RoleAdmin] []" let ?p = "''/v1/ryvex/system/system/apikey/ci''" let ?sv = "ex_server ex_key_store ?az"
  let ?seg = "path_segments ?p"
  have i: "index_inv ex_key_store" using ex_key_store_keys(1) by (simp add: store_inv_def)
  obtain r where r: "GetResource (rID r) ex_key_store = Inr r" "key_of r = Some ex_key_info"
    using ex_key_store_keys(3) [of ex_key_info "HashToken ''ryk_ci''"] by (auto simp: stored_key_def)
  then have k: "rKind r = KindAPIKey" "rID r = ''r-03''"
    by (auto simp: key_of_def ex_key_info_def split: if_splits sum.splits)
  obtain spec where sp: "ParseAPIKeySpec (rSpec r) = Inr spec" "kPrincipal spec = rName r"
    "LogicalKey r = Join ''/'' [ReservedOrg, ReservedProject, ReservedEnv, KindAPIKey, rName r]" "rOrg r = ReservedOrg"
    by (rule stored_api_key [OF i r(1) k(1)])
  have n: "rName r = ''ci''" using r(2) k(1) sp(1,2) by (simp add: key_of_def ex_key_info_def)
  have m: "map_of (byID ex_key_store) (rID r) = Some r" using r(1) by (simp add: GetResource_iff [OF i] del: map_of_eq_Some_iff)
  have sg: "?seg = [''ryvex'', ''system'', ''system'', ''apikey'', ''ci'']" "matchKind ''apikey'' = KindAPIKey"
    "cleanPath ?p = ?p" "HasPrefix ?p ''/v1/''" by code_simp+
  have "logical ''ryvex'' ''system'' ''system'' KindAPIKey ''ci'' = LogicalKey r"
    unfolding sp(3) n logical_def by (simp add: reserved_defs)
  then have g: "get_at ?seg ex_key_store = Inr r"
    using index_to_logic [OF i m] m stored_wf [OF i m] by (simp add: sg GetByLogicalKey_def del: map_of_eq_Some_iff)
  have t: "touched (sv_store ?sv) (sv_store (fst (NewServer ex_config ex_api (ex_request ''DELETE'' ?p []) ?sv))) r"
    using ex_deleted [of ?az _ _ ?seg, OF HOL.refl HOL.refl _ _ _ sg(3,4) i g] by (simp add: sg ex_server_def ex_recon_def)
  have inv: "server_inv ?sv"
    using ex_key_store_keys(1) ex_cache_ok by (simp add: server_inv_def cache_valid_def ex_server_def ex_recon_def)
  have "newID [char_of (3 :: nat)] \<noteq> ''r-02''" by code_simp
  then have "map_of (byID ex_key_store) ''r-02'' = None"
    by (simp add: ex_key_store_def CreateResource_def NewStore_def ex_io_def Let_def update_conv' del: map_of_eq_None_iff split: option.split)
  then have f: "fresh ex_api ?sv" by (simp add: fresh_def ex_server_def ex_recon_def ex_api_def ex_ids del: map_of_eq_None_iff)
  show ?thesis using reserved_org_admin_only [OF _ _ inv f t sp(4)] by (simp add: ex_server_def ex_config_def)
qed

text \<open>C15: the organisation \<open>keys\<close> is not guarded. The middleware lets every request below \<^verbatim>\<open>/v1/keys\<close> pass, for the
  key handlers ask for the admin role themselves; but a PUT with five segments goes on to the resource
  handler of an organisation of that name. Any accepted key writes there, whatever its roles and scopes.\<close>

theorem keys_org_unguarded:
  assumes "svAuth sv = Some az" "bearerToken r = Some tok" "Authenticate az tok = Some p" "rqMethod r = ''PUT''"
    "path_segments (rqPath r) = [''keys'', project, env', kind, name]" "HasPrefix (rqPath r) ''/v1/''" "cleanPath (rqPath r) = rqPath r"
  shows "\<exists>cx. cxActor cx = p \<and>
     fst (NewServer cfg env r sv) = fst (handleScopePut cfg env [''keys'', project, env', kind, name] cx r sv) \<and>
     rsStatus (snd (NewServer cfg env r sv)) = rsStatus (snd (handleScopePut cfg env [''keys'', project, env', kind, name] cx r sv))"
proof -
  obtain ident where i: "resolve_identity az (scDevAuth cfg) tok = Some ident" "idPrincipal ident = p"
    using assms(3) by (auto simp: resolve_identity_def resolveToken_def)
  have d: "deriveScope (request_id env r) r = Inr (zero_scope\<lparr>tgPass := True\<rparr>, r)"
    using assms(5) by (simp add: deriveScope_def Let_def)
  have "\<not> preflight r" using assms(4) by (simp add: preflight_def)
  note s = served_v1 [OF assms(1) this assms(2) i(1) d _ assms(6,7)]
  let ?cx = "(first_ctx env r)\<lparr>cxActor := idPrincipal ident, cxIdentity := Some ident\<rparr>"
  have "routeV1 cfg env ?cx r sv = handleScopePut cfg env [''keys'', project, env', kind, name] ?cx r sv"
    using scope_routed [OF assms(5)] assms(4) by (simp add: by_method_def)
  then show ?thesis using s i(2) by (intro exI [of _ ?cx]) simp
qed

definition ex_body :: string where
  "ex_body = (let q = [CHR 0x22] in ''{'' @ q @ ''spec'' @ q @ '':{'' @ q @ ''cpus'' @ q @ '':2}}'')"

definition ex_put :: "string \<Rightarrow> http_request" where
  "ex_put path = ex_request ''PUT'' path ex_body"

lemma ex_put_created:
  "rsStatus (snd (handleScopePut ex_config ex_api [''keys'', ''core'', ''prod'', ''node'', ''web''] cx
     (ex_put ''/v1/keys/core/prod/node/web'') (ex_server ex_store az))) = 201"
proof -
  have d: "decodeBody resource_fields (ex_put ''/v1/keys/core/prod/node/web'') zero_resource =
      Inr (zero_resource\<lparr>rSpec := Some [(''cpus'', JNum False 2 0)]\<rparr>)" by code_simp
  have k: "matchKind ''node'' = ''Node''" by code_simp
  have g: "get_at [''keys'', ''core'', ''prod'', ''node'', ''web''] ex_store = Inl ErrNotFound"
    by (simp add: GetByLogicalKey_def ex_store_eq logical_def k)
  let ?r = "zero_resource\<lparr>rSpec := Some [(''cpus'', JNum False 2 0)], rOrg := ''keys'', rProject := ''core'', rEnv := ''prod'', rKind := ''Node'', rName := ''web'', rID := []\<rparr>"
  have v: "Validate ex_env ?r = None" "wf_resource ?r" "LogicalKey ?r = ''keys/core/prod/Node/web''" by code_simp+
  have "map_of (byLogic ex_store) (LogicalKey ?r) = None" unfolding v(3) by (simp add: ex_store_eq)
  then have "\<exists>s' st. CreateResource ex_env (ex_io 2) (Some ?r) (write_as (cxActor cx) ''api put'') ex_store = (s', Inr st)"
    using create_success [OF v(2,1), of ex_store "ex_io 2"] by blast
  then show ?thesis using d g
    by (auto simp: handleScopePut_def k ex_server_def ex_recon_def create_and_publish_def ex_api_def writeJSON_def)
qed

theorem keys_org_unguarded_witness:
  "\<not> dAllowed (Authorize (ex_cache [RoleViewer] [''org/acme'']) ''ci'' ''keys'' ''core'' True) \<and>
   rsStatus (snd (NewServer ex_config ex_api (ex_put ''/v1/keys/core/prod/node/web'')
     (ex_server ex_store (ex_cache [RoleViewer] [''org/acme''])))) = 201"
proof -
  let ?az = "ex_cache [RoleViewer] [''org/acme'']" let ?r = "ex_put ''/v1/keys/core/prod/node/web''"
  have "\<not> may_access (ex_info [RoleViewer] [''org/acme'']) ''keys'' ''core'' True" by code_simp
  then have "\<not> dAllowed (Authorize ?az ''ci'' ''keys'' ''core'' True)" by (simp add: Authorize_iff ex_cache_lookup)
  moreover have "path_segments (rqPath ?r) = [''keys'', ''core'', ''prod'', ''node'', ''web'']" "HasPrefix (rqPath ?r) ''/v1/''"
    "cleanPath (rqPath ?r) = rqPath ?r" "rqMethod ?r = ''PUT''" by code_simp+
  moreover have "bearerToken ?r = Some ''ryk_ci''" using ex_bearer by (simp add: ex_put_def)
  ultimately show ?thesis
    using keys_org_unguarded [of "ex_server ex_store ?az" ?az ?r "''ryk_ci''" "''ci''" "''core''" "''prod''" "''node''" "''web''" ex_config ex_api]
      ex_put_created [of _ ?az] by (auto simp: ex_authenticate ex_server_def)
qed

section \<open>Upserts\<close>

lemma stateStatus_not_ok: "rsStatus (stateStatus rid e) \<noteq> 200" "rsStatus (stateStatus rid e) \<noteq> 201"
  by (simp_all add: stateStatus_def writeError_def writeJSON_def)

lemma server_publish_bus: "xBus (svRecon (server_publish cfg env e sv)) = fst (Publish (nvNow env) e (xBus (svRecon sv)))"
  by (simp add: server_publish_def refresh_keys_def Let_def split: prod.split)

lemma set_store_bus [simp]: "xBus (svRecon (set_store s sv)) = xBus (svRecon sv)"
  by (simp add: set_store_def)

lemma get_at_stored:
  assumes "index_inv s" "get_at seg s = Inr cur"
  shows "map_of (byID s) (rID cur) = Some cur"
  using assms(2) stored_okD [OF assms(1)] stored_wf [OF assms(1)]
  by (auto simp: GetByLogicalKey_def stored_ok_def simp del: map_of_eq_Some_iff split: option.splits)

text \<open>C16: a PUT to an existing resource announces exactly what it changed. Unless it answers 200 nothing has
  changed. If it does, the resource carries the spec of the body, the generation the client echoed was
  the current one, and the generation was bumped and one \<open>updated\<close> event published exactly when spec or
  labels differ; an identical PUT leaves the bus as it was.\<close>

theorem put_announces_changes:
  assumes "store_inv (sv_store sv)" "decodeBody resource_fields r zero_resource = Inr inp" "wf_resource inp"
    "get_at seg (sv_store sv) = Inr cur" "handleScopePut cfg env seg cx r sv = (sv', resp)"
  shows "(rsStatus resp \<noteq> 200 \<and> sv' = sv) \<or>
    (rsStatus resp = 200 \<and> (\<exists>new. map_of (byID (sv_store sv')) (rID cur) = Some new \<and> rSpec new = rSpec inp \<and>
       (rGeneration inp \<noteq> 0 \<longrightarrow> rGeneration inp = rGeneration cur) \<and>
       (if specLabelsEqual cur (put_spec inp cur)
        then rGeneration new = rGeneration cur \<and> xBus (svRecon sv') = xBus (svRecon sv)
        else rGeneration new = wrap64 (rGeneration cur + 1) \<and>
             xBus (svRecon sv') = fst (Publish (nvNow env) (resource_event EventUpdated new (sPhase (rStatus new)) (cxActor cx))
               (xBus (svRecon sv))))))"
proof -
  let ?o = "put_options (cxActor cx) (rGeneration inp)" let ?fn = "\<lambda>c. Inr (put_spec inp c)"
  have i: "index_inv (sv_store sv)" using assms(1) by (simp add: store_inv_def)
  have m: "map_of (byID (sv_store sv)) (rID cur) = Some cur" by (rule get_at_stored [OF i assms(4)])
  have w: "DeepCopy cur = cur" using stored_wf [OF i m] by simp
  have p: "put_update cfg env cx inp cur sv = (sv', resp)" using assms(2,4,5) by (simp add: handleScopePut_def)
  obtain s res where u: "UpdateResource (nvEgress env) (nvIO env) (rID cur) ?fn ?o (sv_store sv) = (s, res)" by fastforce
  show ?thesis
  proof (cases res)
    case (Inl e)
    have "set_store (sv_store sv) sv = sv" by (simp add: set_store_def)
    then have "sv' = sv" "resp = stateStatus (cxRequestID cx) e"
      using p u Inl update_failure [OF u [unfolded Inl]] by (auto simp: put_update_def Let_def)
    then show ?thesis using stateStatus_not_ok by blast
  next
    case (Inr new)
    from u [unfolded Inr] obtain c work where c: "map_of (byID (sv_store sv)) (rID cur) = Some c" "?fn c = Inr work" "Validate (nvEgress env) work = None"
        "uExpectedGeneration ?o \<noteq> 0 \<longrightarrow> uExpectedGeneration ?o = rGeneration c"
        "new = (if specLabelsEqual c work then work else work\<lparr>rGeneration := wrap64 (rGeneration c + 1), rUpdatedAt := ioNow (nvIO env)\<rparr>)"
        "s = (let t = (sv_store sv)\<lparr>byID := AList.update (rID cur) new (byID (sv_store sv))\<rparr>
           in if specLabelsEqual c work then t else appendAuditLocked (nvIO env) (or_actor ''anonymous'' (uWrite ?o)) ''updated'' new t)"
      by (rule update_success [OF _ i put_spec_ok [OF assms(3)]]) blast
    have cc: "c = cur" "work = put_spec inp cur" using c(1,2) m by auto
    have g: "rGeneration inp \<noteq> 0 \<longrightarrow> rGeneration inp = rGeneration cur" using c(4) cc by (simp add: put_options_def)
    have ch: "left_by (\<lambda>c. \<not> specLabelsEqual (DeepCopy c) (put_spec inp c)) (rID cur) ?o False (sv_store sv) \<longleftrightarrow>
        \<not> specLabelsEqual cur (put_spec inp cur)"
      using m w g by (auto simp: left_by_def put_options_def)
    have "map_of (byID s) (rID cur) = Some new" using c(6) by (simp add: Let_def update_conv')
    moreover have "rSpec new = rSpec inp" "rGeneration new = (if specLabelsEqual cur (put_spec inp cur) then rGeneration cur else wrap64 (rGeneration cur + 1))"
      using c(5) cc by (simp_all add: put_spec_def)
    moreover have "resp = writeJSON 200 (resource_json new)" "sv' = (if specLabelsEqual cur (put_spec inp cur) then set_store s sv
        else server_publish cfg env (resource_event EventUpdated new (sPhase (rStatus new)) (cxActor cx)) (set_store s sv))"
      using p u Inr ch by (auto simp: put_update_def Let_def)
    ultimately show ?thesis using g by (simp add: writeJSON_def server_publish_bus)
  qed
qed

theorem put_announces_changes_witness:
  "\<exists>sv' resp new. handleScopePut ex_config ex_api [''acme'', ''core'', ''prod'', ''node'', ''web''] (first_ctx ex_api (ex_put []))
       (ex_put []) (ex_server ex_store NewAuthorizer) = (sv', resp) \<and> rsStatus resp = 200 \<and>
     map_of (byID (sv_store sv')) ''r-01'' = Some new \<and> rGeneration new = 2"
proof -
  let ?sv = "ex_server ex_store NewAuthorizer" let ?seg = "[''acme'', ''core'', ''prod'', ''node'', ''web'']"
  let ?inp = "zero_resource\<lparr>rSpec := Some [(''cpus'', JNum False 2 0)]\<rparr>" let ?cx = "first_ctx ex_api (ex_put [])"
  have d: "decodeBody resource_fields (ex_put []) zero_resource = Inr ?inp" by code_simp
  have w: "wf_resource ?inp" by code_simp
  have k: "matchKind ''node'' = ''Node''" by code_simp
  have g: "get_at ?seg (sv_store ?sv) = Inr ex_web"
    using k ex_wf(3) by (simp add: GetByLogicalKey_def ex_store_eq logical_def ex_server_def ex_recon_def)
  have v: "Validate ex_env (put_spec ?inp ex_web) = None" "rGeneration ?inp = 0" "rGeneration ex_web = 1" "rID ex_web = ''r-01''"
    "\<not> specLabelsEqual ex_web (put_spec ?inp ex_web)" "wrap64 2 = 2" by code_simp+
  obtain sv' resp where h: "handleScopePut ex_config ex_api ?seg ?cx (ex_put []) ?sv = (sv', resp)" by fastforce
  have "index_inv ex_store" using ex_store_inv by (simp add: store_inv_def)
  then obtain s' r' where u: "UpdateResource ex_env (ex_io 2) ''r-01'' (\<lambda>c. Inr (put_spec ?inp c)) (put_options [] 0) ex_store = (s', Inr r')"
    using update_accepted [OF _ put_spec_ok [OF w], of ex_store "''r-01''" ex_web "put_options [] 0" _ ex_env "ex_io 2"] v
    by (auto simp: put_options_def ex_store_eq)
  have "rsStatus resp = 200"
    using h d g u v(2,4) by (auto simp: handleScopePut_def put_update_def Let_def ex_server_def ex_recon_def ex_api_def first_ctx_def writeJSON_def)
  moreover have "store_inv (sv_store ?sv)" using ex_store_inv by (simp add: ex_server_def ex_recon_def)
  ultimately show ?thesis using put_announces_changes [OF _ d w g h] h v by auto
qed

section \<open>Feeds\<close>

lemma fold_snoc: "fold (\<lambda>e acc. acc @ [e]) xs acc = acc @ xs"
  by (induction xs arbitrary: acc) auto

text \<open>C17: the event feed is complete. On every bus that subscriptions, cancellations and publications can
  reach, a client that follows \<open>next_cursor\<close> to its end terminates and has read every retained event of
  its organisation exactly once, newest first (while publication numbers fit the cursor format).\<close>

theorem event_feed_complete:
  assumes "bus_reach b" "unat (next_id b) \<le> 2147483647" "0 < limit" "int limit \<le> maxFeedPage"
  shows "page_loop stop_on_last (event_feed (b, org, limit)) (\<lambda>e acc. acc @ [e]) [] [] =
     Some (Inr (filter (\<lambda>e. org = [] \<or> eOrg e = org) (rev (ring b))))"
proof -
  have "event_fits (b, org, limit)" using assms reach_numbered by (simp add: event_fits_def)
  from event_pages.walk_all [OF this good_stops(1), of "\<lambda>e acc. acc @ [e]" "[]"]
  show ?thesis by (simp add: events_of_def fold_snoc)
qed

definition ex_feed_bus :: "nat bus" where
  "ex_feed_bus = fst (Publish 2 (created_event ex_web ''ci'') (fst (Publish 1 (created_event ex_web ''ci'') NewBus)))"

theorem event_feed_complete_witness:
  "\<exists>es. page_loop stop_on_last (event_feed (ex_feed_bus, ''acme'', 1)) (\<lambda>e acc. acc @ [e]) [] [] = Some (Inr es) \<and>
     map eID es = [''evt-2'', ''evt-1'']"
proof -
  have "bus_reach ex_feed_bus" unfolding ex_feed_bus_def
    by (intro bus_reach.publish bus_reach.fresh) (simp_all add: NewBus_def Publish_def ring_append_def Let_def)
  moreover have "unat (next_id ex_feed_bus) \<le> 2147483647" "int 1 \<le> maxFeedPage"
    "map eID (filter (\<lambda>e. ''acme'' = [] \<or> eOrg e = ''acme'') (rev (ring ex_feed_bus))) = [''evt-2'', ''evt-1'']"
    by code_simp+
  ultimately show ?thesis using event_feed_complete [of ex_feed_bus 1 "''acme''"] by simp
qed



section \<open>The life of a key\<close>

lemma server_publish_auth [simp]: "svAuth (server_publish cfg env e sv) = None \<longleftrightarrow> svAuth sv = None"
  by (simp add: server_publish_def refresh_keys_def Let_def split: prod.split)

text \<open>C19: a minted token works at once. When an administrator's request to create a key answers 201, the
  key cache of the server accepts the minted token as the requested principal with
  the requested roles, from the next request on.\<close>

theorem minted_token_accepted:
  assumes "store_inv (sv_store sv)" "length (byID (sv_store sv)) < 2147483647" "fresh env sv" "svAuth sv = Some az"
    "cxIdentity cx = Some ident" "idAdmin ident" "decodeBody create_key_fields r zero_create_key = Inr req"
    "handleKeysCreate cfg env cx r sv = (sv', resp)" "rsStatus resp = 201"
  shows "\<exists>token az'. newToken (nvTokenRand env) = Some token \<and> svAuth sv' = Some az' \<and>
     resolve_identity az' False token =
       Some \<lparr>idPrincipal = ckPrincipal req, idRoles = ckRoles req, idAdmin = HasRole (ckRoles req) RoleAdmin\<rparr>"
proof -
  obtain s res where k: "keys_Create env (idPrincipal ident) req (sv_store sv) = (s, res)" by fastforce
  have few: "few_keys (sv_store sv)" using assms(2) by (simp add: few_keys_def)
  obtain token kv where res: "res = Inr (token, kv)"
  proof (cases res)
    case (Inl e)
    then have "resp = stateStatus (cxRequestID cx) e"
      using assms(5-8) k by (simp add: handleKeysCreate_def requireAdmin_def)
    then show ?thesis using assms(9) stateStatus_not_ok(2) by metis
  qed auto
  have fr: "map_of (byID (sv_store sv)) (newID (ioRand (nvIO env))) = None" using assms(3) unfolding fresh_def by blast
  have k': "keys_Create env (idPrincipal ident) req (sv_store sv) = (s, Inr (token, kv))" using k res by simp
  obtain scopes info where c: "newToken (nvTokenRand env) = Some token"
    "info = \<lparr>iID = newID (ioRand (nvIO env)), iPrincipal = ckPrincipal req, iRoles = ckRoles req, iScopes = scopes, iActive = True\<rparr>"
    "store_inv s" "length (byID s) = Suc (length (byID (sv_store sv)))" "stored_key s info (HashToken token)"
    "\<And>i. stored_key s i (HashToken token) \<Longrightarrow> i = info" using keys_Create_success [OF k' assms(1) few fr] that by metis
  let ?sv1 = "publishKeyEvent cfg env EventCreated kv (idPrincipal ident) (set_store s sv)"
  have "sv' = refresh_keys ?sv1"
    using assms(5-8) k res by (simp add: handleKeysCreate_def requireAdmin_def)
  moreover have "svAuth ?sv1 \<noteq> None" using assms(4) by (simp add: publishKeyEvent_def)
  then obtain a1 where "svAuth ?sv1 = Some a1" by blast
  ultimately have az': "svAuth sv' = Some (refresh_cache s a1)" by (simp add: refresh_keys_def)
  have f: "few_keys s" using c(4) assms(2) by (simp add: few_keys_def)
  have act: "iActive info" by (simp add: c(2))
  have "Authenticate (refresh_cache s a1) token = Some (iPrincipal info) \<and> Lookup (refresh_cache s a1) (iPrincipal info) = Some info"
    by (rule Authenticate_unique [OF c(3) f newToken_not_Nil [OF c(1)] c(5) act c(6)])
  then have "resolve_identity (refresh_cache s a1) False token =
      Some \<lparr>idPrincipal = ckPrincipal req, idRoles = ckRoles req, idAdmin = HasRole (ckRoles req) RoleAdmin\<rparr>"
    using c(2) by (simp add: resolve_identity_def resolveToken_def)
  then show ?thesis using c(1) az' by blast
qed

definition ex_key_body :: string where
  "ex_key_body = ''{'' @ [CHR 0x22] @ ''principal'' @ [CHR 0x22] @ '':'' @ [CHR 0x22] @ ''bob'' @ [CHR 0x22] @ '','' @
     [CHR 0x22] @ ''roles'' @ [CHR 0x22] @ '':['' @ [CHR 0x22] @ ''viewer'' @ [CHR 0x22] @ ''],'' @
     [CHR 0x22] @ ''org'' @ [CHR 0x22] @ '':'' @ [CHR 0x22] @ ''acme'' @ [CHR 0x22] @ ''}''"

definition ex_admin_ctx :: req_ctx where
  "ex_admin_ctx = (first_ctx ex_api (ex_request [] [] []))\<lparr>cxActor := ''root'',
     cxIdentity := Some \<lparr>idPrincipal = ''root'', idRoles = [RoleAdmin], idAdmin = True\<rparr>\<rparr>"

theorem minted_token_accepted_witness:
  "\<exists>sv' az' token. fst (handleKeysCreate ex_config ex_api ex_admin_ctx (ex_request ''POST'' ''/v1/keys'' ex_key_body)
       (ex_server (NewStore []) NewAuthorizer)) = sv' \<and> svAuth sv' = Some az' \<and> newToken (nvTokenRand ex_api) = Some token \<and>
     resolve_identity az' False token = Some \<lparr>idPrincipal = ''bob'', idRoles = [RoleViewer], idAdmin = False\<rparr>"
proof -
  let ?r = "ex_request ''POST'' ''/v1/keys'' ex_key_body" let ?sv = "ex_server (NewStore []) NewAuthorizer"
  let ?q = "\<lparr>ckPrincipal = ''bob'', ckRoles = [RoleViewer], ckScopes = [], ckOrg = ''acme'', ckProject = []\<rparr>"
  have d: "decodeBody create_key_fields ?r zero_create_key = Inr ?q" by code_simp
  have l: "listResources (NewStore []) = Inr []" and sc: "requested_scopes ?q = Inr [''org/acme'']" by code_simp+
  obtain token where t: "newToken (nvTokenRand ex_api) = Some token" by (simp add: ex_api_def newToken_def)
  have "scopeRe ''bob''" "RoleViewer \<in> set Roles" "length [''org/acme''] \<le> MaxAPIKeyScopes" "ValidScope ''org/acme'' False"
    and na: "RoleAdmin \<noteq> RoleViewer" by code_simp+
  then have "wf_key_spec \<lparr>kPrincipal = ''bob'', kRoles = [RoleViewer], kKeyHash = HashToken token, kScopes = [''org/acme''], kActive = True\<rparr>"
    by (simp add: wf_key_spec_def)
  then obtain s' kv where k: "keys_Create ex_api ''root'' ?q (NewStore []) = (s', Inr (token, kv))"
    using keys_Create_accepted [OF sc t l, of "''root''"] by (auto simp: NewStore_def Let_def)
  obtain sv' resp where h: "handleKeysCreate ex_config ex_api ex_admin_ctx ?r ?sv = (sv', resp)" by fastforce
  have "rsStatus resp = 201"
    using h d k by (auto simp: handleKeysCreate_def requireAdmin_def ex_admin_ctx_def ex_server_def ex_recon_def writeJSON_def)
  moreover have "store_inv (sv_store ?sv)" by (simp add: ex_server_def ex_recon_def)
  moreover have "length (byID (sv_store ?sv)) < 2147483647" "fresh ex_api ?sv"
    by (simp_all add: ex_server_def ex_recon_def fresh_def NewStore_def Let_def)
  ultimately show ?thesis
    using minted_token_accepted [OF _ _ _ _ _ _ d h, of NewAuthorizer "\<lparr>idPrincipal = ''root'', idRoles = [RoleAdmin], idAdmin = True\<rparr>"]
      t h na by (auto simp: ex_server_def ex_admin_ctx_def HasRole_def)
qed

text \<open>C20: a revoked key is dead. When an administrator's request to delete a key answers 204, no token whatever
  authenticates as the key's principal from the next request on.\<close>

theorem revoked_key_dead:
  assumes "store_inv (sv_store sv)" "length (byID (sv_store sv)) \<le> 2147483647" "svAuth sv = Some az"
    "cxIdentity cx = Some ident" "idAdmin ident" "stored_key (sv_store sv) info h"
    "handleKeysDelete env (iID info) cx r sv = (sv', resp)" "rsStatus resp = 204"
  shows "\<exists>az'. svAuth sv' = Some az' \<and> Lookup az' (iPrincipal info) = None \<and>
     (\<forall>token ident'. resolve_identity az' False token = Some ident' \<longrightarrow> idPrincipal ident' \<noteq> iPrincipal info)"
proof -
  obtain s res where k: "keys_Delete env (idPrincipal ident) (iID info) (sv_store sv) = (s, res)" by fastforce
  have "rsStatus (stateStatus rid e) \<noteq> 204" for rid e by (simp add: stateStatus_def writeError_def writeJSON_def)
  then have res: "res = None" and sv': "sv' = refresh_keys (set_store s sv)"
    using assms(4,5,7,8) k by (auto simp: handleKeysDelete_def requireAdmin_def split: option.splits)
  have d: "keys_Delete env (idPrincipal ident) (iID info) (sv_store sv) = (s, None)" using k res by simp
  note gone = keys_Delete_success [OF d assms(1,6)]
  have f: "few_keys s" using gone(2) assms(2) by (simp add: few_keys_def)
  have "svAuth sv' = Some (refresh_cache s az)" using assms(3) by (simp add: sv' refresh_keys_def)
  moreover have "Lookup (refresh_cache s az) (iPrincipal info) = None"
    using gone(3) refresh_cache_keys(2) [OF gone(1) f, of az "iPrincipal info"] by (metis not_Some_eq)
  moreover have "idPrincipal ident' \<noteq> iPrincipal info" if "resolve_identity (refresh_cache s az) False token = Some ident'" for token ident'
  proof -
    have "Authenticate (refresh_cache s az) token = Some (idPrincipal ident')"
      using that by (auto simp: resolve_identity_def resolveToken_def dev_token_def split: option.splits if_splits)
    then show ?thesis using Authenticate_stored [OF gone(1) f] gone(3) by metis
  qed
  ultimately show ?thesis by blast
qed

theorem revoked_key_dead_witness:
  "\<exists>az'. svAuth (fst (handleKeysDelete ex_api ''r-03'' ex_admin_ctx (ex_request ''DELETE'' ''/v1/keys/r-03'' [])
       (ex_server ex_key_store (ex_cache [RoleOperator] [''org/acme''])))) = Some az' \<and> Lookup az' ''ci'' = None"
proof -
  let ?r = "ex_request ''DELETE'' ''/v1/keys/r-03'' []" let ?sv = "ex_server ex_key_store (ex_cache [RoleOperator] [''org/acme''])"
  have s: "sv_store ?sv = ex_key_store" by (simp add: ex_server_def ex_recon_def)
  have k: "stored_key (sv_store ?sv) ex_key_info (HashToken ''ryk_ci'')" using ex_key_store_keys(3) s by simp
  obtain sv' resp where h: "handleKeysDelete ex_api (iID ex_key_info) ex_admin_ctx ?r ?sv = (sv', resp)" by fastforce
  have id: "iID ex_key_info = ''r-03''" "iPrincipal ex_key_info = ''ci''" by (simp_all add: ex_key_info_def)
  have i: "index_inv ex_key_store" using ex_key_store_keys(1) by (simp add: store_inv_def)
  obtain c where c: "map_of (byID ex_key_store) ''r-03'' = Some c" "rKind c = KindAPIKey" "GetResource ''r-03'' ex_key_store = Inr c"
    using k s by (auto simp: stored_key_def key_of_def ex_key_info_def GetResource_iff [OF i] split: if_splits sum.splits)
  have "rsStatus resp = 204"
    using h id c s by (auto simp: handleKeysDelete_def requireAdmin_def ex_admin_ctx_def keys_Delete_def DeleteResource_def no_content_def)
  moreover have "length (byID ex_key_store) \<le> 2147483647" using ex_key_store_keys(4) by simp
  ultimately show ?thesis
    using revoked_key_dead [OF _ _ _ _ _ k h, of _ "\<lparr>idPrincipal = ''root'', idRoles = [RoleAdmin], idAdmin = True\<rparr>"]
      ex_key_store_keys(1) h id s by (auto simp: ex_server_def ex_admin_ctx_def)
qed
end
