(* ===== verification/Docker.thy ===== *)
theory Docker
  imports Provider Http Go_Net
begin

text \<open>
  The Docker provider, \<^verbatim>\<open>internal/provider/docker\<close>: the field mapping and the plan computation of \<^verbatim>\<open>spec.go\<close>, the
  Engine client of \<^verbatim>\<open>client.go\<close> and the actuator of \<^verbatim>\<open>actuator.go\<close>. The Engine is the parameter \<open>'e engine\<close>, a
  function from a request and the Engine's state to its next state and its reply.
\<close>

section \<open>Fields of a spec\<close>

definition FieldImage :: string where "FieldImage = ''image''"
definition FieldEnv :: string where "FieldEnv = ''env''"
definition FieldEnvPrefix :: string where "FieldEnvPrefix = ''env.''"

definition ContainerName :: "ref \<Rightarrow> string" where
  "ContainerName f = ''ryvex-'' @ fOrg f @ ''-'' @ fProject f @ ''-'' @ fEnv f @ ''-'' @ fName f"

text \<open>The verb \<open>%T\<close> on a decoded value.\<close>

fun type_name :: "json \<Rightarrow> string" where
  "type_name JNull = ''<nil>''"
| "type_name (JBool b) = ''bool''"
| "type_name (JNum s m e) = ''float64''"
| "type_name (JInt i) = ''int''"
| "type_name (JStr s) = ''string''"
| "type_name (JArr vs) = ''[]interface {}''"
| "type_name (JStrs ss) = ''[]string''"
| "type_name (JObj m) = ''map[string]interface {}''"

text \<open>Go visits a map in an unspecified order; the model takes the order of the keys, which matters only for
  which of several errors is reported.\<close>

fun env_object :: "jobj \<Rightarrow> (string, string) gomap \<Rightarrow> act_error + (string, string) gomap" where
  "env_object [] m = Inr m"
| "env_object ((k, v) # kvs) m =
     (if k = [] then Inl (PlainError ''env keys must not be empty'')
      else case v of
        JStr s \<Rightarrow> env_object kvs (AList.update k s m)
      | _ \<Rightarrow> Inl (PlainError (''env '' @ go_quote k @ '' must be a string'')))"

definition env_entry :: "string \<Rightarrow> act_error + string \<times> string" where
  "env_entry s =
     (case Cut s ''='' of
        Some (k, v) \<Rightarrow>
          if k = [] then Inl (PlainError (''env entry '' @ go_quote s @ '' must be key=value'')) else Inr (k, v)
      | None \<Rightarrow> Inl (PlainError (''env entry '' @ go_quote s @ '' must be key=value'')))"

fun env_list :: "json list \<Rightarrow> (string, string) gomap \<Rightarrow> act_error + (string, string) gomap" where
  "env_list [] m = Inr m"
| "env_list (v # vs) m =
     (case v of
        JStr s \<Rightarrow> (case env_entry s of Inl e \<Rightarrow> Inl e | Inr (k, x) \<Rightarrow> env_list vs (AList.update k x m))
      | _ \<Rightarrow> Inl (PlainError (''env list entries must be '' @ go_quote ''key=value'' @ '' strings'')))"

fun env_packed :: "string list \<Rightarrow> (string, string) gomap \<Rightarrow> act_error + (string, string) gomap" where
  "env_packed [] m = Inr m"
| "env_packed (part # parts) m =
     (if part = [] then env_packed parts m
      else case env_entry part of Inl e \<Rightarrow> Inl e | Inr (k, x) \<Rightarrow> env_packed parts (AList.update k x m))"

definition envPairs :: "json \<Rightarrow> act_error + (string, string) gomap" where
  "envPairs raw =
     (case raw of
        JObj m \<Rightarrow> env_object m []
      | JArr vs \<Rightarrow> env_list vs []
      | JStr s \<Rightarrow> env_packed (Split (CHR '','') s) []
      | _ \<Rightarrow> Inl (PlainError (''env must be an object, a list of key=value strings, or a packed '' @ go_quote ''k=v,k=v'' @
                '' string (got '' @ type_name raw @ '')'')))"

fun flat_env :: "jobj \<Rightarrow> (string, string) gomap \<Rightarrow> act_error + (string, string) gomap" where
  "flat_env [] out = Inr out"
| "flat_env ((k, v) # kvs) out =
     (case CutPrefix k FieldEnvPrefix of
        None \<Rightarrow> flat_env kvs out
      | Some key \<Rightarrow>
          (case v of
             JStr s \<Rightarrow>
               if key = [] then Inl (PlainError (''spec key '' @ go_quote k @ '' needs a variable name after the prefix''))
               else flat_env kvs (AList.update k s out)
           | _ \<Rightarrow> Inl (PlainError (''spec '' @ go_quote k @ '' must be a string''))))"

definition spec_map :: "jobj option \<Rightarrow> jobj" where
  "spec_map spec = (case spec of None \<Rightarrow> [] | Some m \<Rightarrow> m)"

definition spec_image :: "jobj \<Rightarrow> string" where
  "spec_image m = TrimSpace (case map_of m ''image'' of Some (JStr s) \<Rightarrow> s | _ \<Rightarrow> [])"

definition env_block :: "jobj \<Rightarrow> (string, string) gomap \<Rightarrow> act_error + (string, string) gomap" where
  "env_block m out =
     (case map_of m FieldEnv of
        None \<Rightarrow> Inr out
      | Some JNull \<Rightarrow> Inr out
      | Some raw \<Rightarrow>
          (case envPairs raw of
             Inl e \<Rightarrow> Inl (WrappedError ''spec.env: '' e)
           | Inr pairs \<Rightarrow> Inr (fold (\<lambda>(k, v). AList.update (FieldEnvPrefix @ k) v) pairs out)))"

definition DesiredFields :: "jobj option \<Rightarrow> act_error + (string, string) gomap" where
  "DesiredFields spec =
     (let m = spec_map spec
      in if spec_image m = [] then Inl (PlainError ''spec.image is required for actuated Application resources'')
         else case env_block m [(FieldImage, spec_image m)] of
                Inl e \<Rightarrow> Inl e
              | Inr out \<Rightarrow> flat_env m out)"

definition EnvListToFields :: "string list \<Rightarrow> (string, string) gomap" where
  "EnvListToFields env =
     fold (\<lambda>kv out. case Cut kv ''='' of
        None \<Rightarrow> out
      | Some (k, v) \<Rightarrow> if k = [] then out else AList.update (FieldEnvPrefix @ k) v out) env []"

section \<open>Plans\<close>

definition sortedFieldKeys :: "(string, string) gomap \<Rightarrow> string list" where
  "sortedFieldKeys m = sort (map fst m)"

text \<open>\<open>m[k]\<close> on a map of strings.\<close>

abbreviation field_at :: "(string, string) gomap \<Rightarrow> string \<Rightarrow> string" where
  "field_at m k \<equiv> (case map_of m k of None \<Rightarrow> [] | Some v \<Rightarrow> v)"

definition PlanContainers :: "resource option \<Rightarrow> resource \<Rightarrow> act_error + plan" where
  "PlanContainers current desired =
     (case DesiredFields (rSpec desired) of
        Inl e \<Rightarrow> Inl (ProviderError Permanent ''plan'' e)
      | Inr want \<Rightarrow>
          let create = \<lparr>pKind = rKind desired, pAction = ActionCreate,
                pChanges = map (\<lambda>k. \<lparr>cField = k, cFrom = [], cTo = field_at want k\<rparr>) (sortedFieldKeys want),
                pDesired = desired\<rparr>
          in case current of
               None \<Rightarrow> Inr create
             | Some cur \<Rightarrow>
                 let have' = (case DesiredFields (rSpec cur) of Inl e \<Rightarrow> [] | Inr m \<Rightarrow> m);
                     drift = CompareFields want have'
                 in if drift = [] then Inr (create\<lparr>pAction := ActionNoop, pChanges := []\<rparr>)
                    else Inr (create\<lparr>pAction := ActionUpdate,
                           pChanges := map (\<lambda>k. \<lparr>cField = k, cFrom = field_at have' k, cTo = field_at want k\<rparr>) drift\<rparr>))"

definition ClassifyStatus :: "nat \<Rightarrow> err_class" where
  "ClassifyStatus code =
     (if code = 429 \<or> code = 409 then Transient
      else if code \<ge> 500 then Transient
      else if code \<ge> 400 then Permanent
      else Transient)"

section \<open>The Engine client\<close>

record engine_request =
  qMethod :: string
  qPath :: string
  qBody :: "string option"   \<comment> \<open>a JSON body and its content type\<close>

datatype engine_reply =
    NoReply string                   \<comment> \<open>dialling or the round trip failed\<close>
  | Reply nat string "string option" \<comment> \<open>status, body, and the error that ended the reading of the body\<close>

type_synonym 'e engine = "engine_request \<Rightarrow> 'e \<Rightarrow> 'e \<times> engine_reply"

record container_config =
  gImage :: string
  gEnv :: "string list"
  gLabels :: "(string, string) gomap"

record container_state =
  zStatus :: string
  zRunning :: bool
  zDead :: bool
  zOOMKilled :: bool

record container =
  nId :: string
  nName :: string
  nConfig :: "container_config option"
  nState :: "container_state option"

definition engine_conflict :: act_error where
  "engine_conflict = SentinelError ''docker: name already in use''"

subsection \<open>Escaping\<close>

definition upper_hex :: "nat \<Rightarrow> char" where
  "upper_hex n = (if n < 10 then char_of (48 + n) else char_of (55 + n))"

definition url_escape :: "(char \<Rightarrow> bool) \<Rightarrow> string \<Rightarrow> string" where
  "url_escape keep s =
     concat (map (\<lambda>c. if is_alpha c \<or> is_digit c \<or> c \<in> set ''-_.~'' \<or> keep c then [c]
                       else [CHR ''%'', upper_hex (byte c div 16), upper_hex (byte c mod 16)]) s)"

definition PathEscape :: "string \<Rightarrow> string" where
  "PathEscape s = url_escape (\<lambda>c. c \<in> set ''$&+=:@'') s"

definition QueryEscape :: "string \<Rightarrow> string" where
  "QueryEscape s = map (\<lambda>c. if c = CHR '' '' then CHR ''+'' else c) (url_escape (\<lambda>c. c = CHR '' '') s)"

subsection \<open>Bodies\<close>

definition config_json :: "container_config \<Rightarrow> json" where
  "config_json cfg =
     JObj ([(''Image'', JStr (gImage cfg))] @
           (if gEnv cfg = [] then [] else [(''Env'', JArr (map JStr (gEnv cfg)))]) @
           (if gLabels cfg = [] then [] else [(''Labels'', JObj (map (\<lambda>(k, v). (k, JStr v)) (sort_key fst (gLabels cfg))))]))"

definition bool_field :: "(bool \<Rightarrow> 'a \<Rightarrow> 'a) \<Rightarrow> 'a setter" where
  "bool_field upd raw v x = (case v of JBool b \<Rightarrow> Some (upd b x) | JNull \<Rightarrow> Some x | _ \<Rightarrow> None)"

definition ptr_field ::
    "(string \<times> 'b setter) list \<Rightarrow> 'b \<Rightarrow> ('a \<Rightarrow> 'b option) \<Rightarrow> ('b option \<Rightarrow> 'a \<Rightarrow> 'a) \<Rightarrow> 'a setter" where
  "ptr_field fs zero get upd raw v x =
     (case v of
        JNull \<Rightarrow> Some (upd None x)
      | _ \<Rightarrow> map_option (\<lambda>y. upd (Some y) x) (unmarshal_struct fs raw (case get x of None \<Rightarrow> zero | Some y \<Rightarrow> y)))"

definition config_fields :: "(string \<times> container_config setter) list" where
  "config_fields =
     [(''Image'', str_field (\<lambda>s c. c\<lparr>gImage := s\<rparr>)), (''Env'', strs_field (\<lambda>ss c. c\<lparr>gEnv := ss\<rparr>)),
      (''Labels'', (\<lambda>raw v c. case v of
          JObj kvs \<Rightarrow> map_option (\<lambda>ls. c\<lparr>gLabels := fold (\<lambda>(k, s). AList.update k s) ls (gLabels c)\<rparr>) (string_values kvs)
        | JNull \<Rightarrow> Some (c\<lparr>gLabels := []\<rparr>)
        | _ \<Rightarrow> None))]"

definition state_fields :: "(string \<times> container_state setter) list" where
  "state_fields =
     [(''Status'', str_field (\<lambda>s z. z\<lparr>zStatus := s\<rparr>)), (''Running'', bool_field (\<lambda>b z. z\<lparr>zRunning := b\<rparr>)),
      (''Dead'', bool_field (\<lambda>b z. z\<lparr>zDead := b\<rparr>)), (''OOMKilled'', bool_field (\<lambda>b z. z\<lparr>zOOMKilled := b\<rparr>))]"

definition container_fields :: "(string \<times> container setter) list" where
  "container_fields =
     [(''Id'', str_field (\<lambda>s n. n\<lparr>nId := s\<rparr>)), (''Name'', str_field (\<lambda>s n. n\<lparr>nName := s\<rparr>)),
      (''Config'', ptr_field config_fields \<lparr>gImage = [], gEnv = [], gLabels = []\<rparr> nConfig (\<lambda>c n. n\<lparr>nConfig := c\<rparr>)),
      (''State'', ptr_field state_fields \<lparr>zStatus = [], zRunning = False, zDead = False, zOOMKilled = False\<rparr> nState
         (\<lambda>z n. n\<lparr>nState := z\<rparr>))]"

definition decode_container :: "string \<Rightarrow> container option" where
  "decode_container raw = unmarshal_struct container_fields raw \<lparr>nId = [], nName = [], nConfig = None, nState = None\<rparr>"

text \<open>The reply to a creation: its \<open>Id\<close> and its warnings, which the client does not use.\<close>

definition create_fields :: "(string \<times> (string \<times> string list) setter) list" where
  "create_fields = [(''Id'', str_field (\<lambda>s c. (s, snd c))), (''Warnings'', strs_field (\<lambda>ws c. (fst c, ws)))]"

definition decode_create :: "string \<Rightarrow> string option" where
  "decode_create raw = map_option fst (unmarshal_struct create_fields raw ([], []))"

text \<open>The error envelope is read as far as it goes: a member of the wrong type is skipped.\<close>

definition api_message :: "string \<Rightarrow> string" where
  "api_message raw =
     (case unmarshal raw of
        Some (JObj m) \<Rightarrow>
          (case obj_members raw of
             None \<Rightarrow> []
           | Some ms \<Rightarrow> fold (\<lambda>(k, _, v) msg. case v of JStr s \<Rightarrow> if EqualFold ''message'' k then s else msg | _ \<Rightarrow> msg) ms [])
      | _ \<Rightarrow> [])"

subsection \<open>Calls\<close>

definition docker_do ::
    "'e engine \<Rightarrow> string \<Rightarrow> string \<Rightarrow> string \<Rightarrow> json option \<Rightarrow> 'e \<Rightarrow> 'e \<times> (act_error + nat \<times> string)" where
  "docker_do eng opn meth path body w =
     (if url_Parse (''http://docker'' @ path) = None then
        (w, Inl (ProviderError Permanent opn (PlainError (''parse '' @ go_quote (''http://docker'' @ path)))))
      else
        let (w1, reply) = eng \<lparr>qMethod = meth, qPath = path, qBody = map_option marshal body\<rparr> w
        in (w1,
            case reply of
              NoReply err \<Rightarrow> Inl (ProviderError Unavailable opn (PlainError err))
            | Reply code raw (Some err) \<Rightarrow> Inl (ProviderError Transient opn (WrappedError ''read response: '' (PlainError err)))
            | Reply code raw None \<Rightarrow> Inr (code, take 1048576 raw)))"

definition statusError :: "string \<Rightarrow> nat \<Rightarrow> string \<Rightarrow> act_error" where
  "statusError opn code raw =
     (let msg = api_message raw
      in if msg = [] then ProviderError (ClassifyStatus code) opn (PlainError (''engine returned http '' @ dec code))
         else ProviderError (ClassifyStatus code) opn (PlainError msg))"

definition docker_Ping :: "'e engine \<Rightarrow> 'e \<Rightarrow> 'e \<times> act_error option" where
  "docker_Ping eng w =
     (case docker_do eng ''ping'' ''GET'' ''/_ping'' None w of
        (w1, Inl e) \<Rightarrow> (w1, Some e)
      | (w1, Inr (code, raw)) \<Rightarrow> (w1, if code \<noteq> 200 then Some (statusError ''ping'' code raw) else None))"

definition inspect_path :: "string \<Rightarrow> string" where
  "inspect_path i = ''/containers/'' @ PathEscape i @ ''/json''"

definition InspectContainer :: "'e engine \<Rightarrow> string \<Rightarrow> 'e \<Rightarrow> 'e \<times> (act_error + container option)" where
  "InspectContainer eng nameOrID w =
     (case docker_do eng ''inspect'' ''GET'' (inspect_path nameOrID) None w of
        (w1, Inl e) \<Rightarrow> (w1, Inl e)
      | (w1, Inr (code, raw)) \<Rightarrow>
          (w1,
           if code = 404 then Inr None
           else if code div 100 = 2 then
             (case decode_container raw of
                None \<Rightarrow> Inl (ProviderError Permanent ''inspect'' (WrappedError ''decode inspect response: '' (PlainError ''json'')))
              | Some ctr \<Rightarrow> Inr (Some ctr))
           else Inl (statusError ''inspect'' code raw)))"

definition create_path :: "string \<Rightarrow> string" where
  "create_path name = ''/containers/create?name='' @ QueryEscape name"

definition CreateContainer :: "'e engine \<Rightarrow> string \<Rightarrow> container_config \<Rightarrow> 'e \<Rightarrow> 'e \<times> (act_error + string)" where
  "CreateContainer eng name cfg w =
     (case docker_do eng ''create'' ''POST'' (create_path name) (Some (config_json cfg)) w of
        (w1, Inl e) \<Rightarrow> (w1, Inl e)
      | (w1, Inr (code, raw)) \<Rightarrow>
          (w1,
           if code = 201 then
             (case decode_create raw of
                None \<Rightarrow> Inl (ProviderError Permanent ''create'' (WrappedError ''decode create response: '' (PlainError ''json'')))
              | Some i \<Rightarrow>
                  if i = [] then Inl (ProviderError Permanent ''create'' (PlainError ''engine returned an empty container id''))
                  else Inr i)
           else if code = 409 then
             Inl (ProviderError Transient ''create'' (SuffixedError engine_conflict ('': '' @ api_message raw)))
           else Inl (statusError ''create'' code raw)))"

definition start_path :: "string \<Rightarrow> string" where
  "start_path i = ''/containers/'' @ PathEscape i @ ''/start''"

definition StartContainer :: "'e engine \<Rightarrow> string \<Rightarrow> 'e \<Rightarrow> 'e \<times> act_error option" where
  "StartContainer eng nameOrID w =
     (case docker_do eng ''start'' ''POST'' (start_path nameOrID) None w of
        (w1, Inl e) \<Rightarrow> (w1, Some e)
      | (w1, Inr (code, raw)) \<Rightarrow> (w1, if code = 204 \<or> code = 304 then None else Some (statusError ''start'' code raw)))"

definition stop_path :: "string \<Rightarrow> int \<Rightarrow> string" where
  "stop_path i secs = ''/containers/'' @ PathEscape i @ ''/stop?t='' @ dec_int secs"

definition StopContainer :: "'e engine \<Rightarrow> string \<Rightarrow> int \<Rightarrow> 'e \<Rightarrow> 'e \<times> act_error option" where
  "StopContainer eng nameOrID timeoutSecs w =
     (case docker_do eng ''stop'' ''POST'' (stop_path nameOrID timeoutSecs) None w of
        (w1, Inl e) \<Rightarrow> (w1, Some e)
      | (w1, Inr (code, raw)) \<Rightarrow>
          (w1, if code = 204 \<or> code = 304 \<or> code = 404 then None else Some (statusError ''stop'' code raw)))"

definition remove_path :: "string \<Rightarrow> string" where
  "remove_path i = ''/containers/'' @ PathEscape i @ ''?force=true''"

definition RemoveContainer :: "'e engine \<Rightarrow> string \<Rightarrow> 'e \<Rightarrow> 'e \<times> act_error option" where
  "RemoveContainer eng nameOrID w =
     (case docker_do eng ''remove'' ''DELETE'' (remove_path nameOrID) None w of
        (w1, Inl e) \<Rightarrow> (w1, Some e)
      | (w1, Inr (code, raw)) \<Rightarrow> (w1, if code = 204 \<or> code = 404 then None else Some (statusError ''remove'' code raw)))"

section \<open>The actuator\<close>

definition observed_fields :: "container_config \<Rightarrow> (string, string) gomap" where
  "observed_fields cfg =
     (let img = TrimSpace (gImage cfg)
      in fold (\<lambda>(k, v). AList.update k v) (EnvListToFields (gEnv cfg)) (if img \<noteq> [] then [(FieldImage, img)] else []))"

definition docker_Inspect :: "'e engine \<Rightarrow> ref \<Rightarrow> 'e \<Rightarrow> 'e \<times> (act_error + observed)" where
  "docker_Inspect eng f w =
     (case InspectContainer eng (ContainerName f) w of
        (w1, Inl e) \<Rightarrow> (w1, Inl e)
      | (w1, Inr None) \<Rightarrow> (w1, Inr \<lparr>oExists = False, oExternalID = [], oState = [], oReady = False, oFields = []\<rparr>)
      | (w1, Inr (Some ctr)) \<Rightarrow>
          let flds = (case nConfig ctr of None \<Rightarrow> [] | Some cfg \<Rightarrow> observed_fields cfg);
              ready = (case nState ctr of None \<Rightarrow> False | Some z \<Rightarrow> zRunning z \<and> \<not> zDead z);
              st = (case nState ctr of None \<Rightarrow> [] | Some z \<Rightarrow> zStatus z)
          in (w1, Inr \<lparr>oExists = True, oExternalID = nId ctr, oState = st, oReady = ready, oFields = flds\<rparr>))"

definition managedLabels :: "resource \<Rightarrow> (string, string) gomap" where
  "managedLabels r = [(''ryvex.managed'', ''true''), (''ryvex.resource'', LogicalKey r), (''ryvex.resource.id'', rID r)]"

definition containerConfig :: "plan \<Rightarrow> act_error + container_config" where
  "containerConfig p =
     (case DesiredFields (rSpec (pDesired p)) of
        Inl e \<Rightarrow> Inl (ProviderError Permanent ''apply'' e)
      | Inr want \<Rightarrow>
          Inr \<lparr>gImage = field_at want FieldImage,
               gEnv = sort (List.map_filter
                        (\<lambda>(k, v). map_option (\<lambda>key. key @ ''='' @ v) (CutPrefix k FieldEnvPrefix)) want),
               gLabels = managedLabels (pDesired p)\<rparr>)"

text \<open>\<open>errors.Is(err, ErrConflict)\<close>: the sentinel is somewhere in the chain.\<close>

fun isConflict :: "act_error \<Rightarrow> bool" where
  "isConflict (ProviderError c opn e) = isConflict e"
| "isConflict (WrappedError s e) = isConflict e"
| "isConflict (SuffixedError e s) = isConflict e"
| "isConflict e = (e = engine_conflict)"

definition shortID :: "string \<Rightarrow> string" where
  "shortID i = (if length i \<le> 12 then i else take 12 i)"

definition stopTimeoutSecs :: int where "stopTimeoutSecs = 10"

definition start_created ::
    "'e engine \<Rightarrow> action \<Rightarrow> string \<Rightarrow> string \<Rightarrow> 'e \<Rightarrow> 'e \<times> (act_error + result)" where
  "start_created eng act i msg w =
     (case StartContainer eng i w of
        (w1, Some e) \<Rightarrow> (w1, Inl e)
      | (w1, None) \<Rightarrow> (w1, Inr \<lparr>tAction = act, tExternalID = i, tMessage = msg\<rparr>))"

definition ensure :: "'e engine \<Rightarrow> string \<Rightarrow> plan \<Rightarrow> 'e \<Rightarrow> 'e \<times> (act_error + result)" where
  "ensure eng name p w =
     (case containerConfig p of
        Inl e \<Rightarrow> (w, Inl e)
      | Inr cfg \<Rightarrow>
          (case CreateContainer eng name cfg w of
             (w1, Inr i) \<Rightarrow> start_created eng ActionCreate i (''container '' @ shortID i @ '' running'') w1
           | (w1, Inl err) \<Rightarrow>
               if \<not> isConflict err then (w1, Inl err)
               else case InspectContainer eng name w1 of
                      (w2, Inl ierr) \<Rightarrow> (w2, Inl ierr)
                    | (w2, Inr None) \<Rightarrow> (w2, Inl err)
                    | (w2, Inr (Some ctr)) \<Rightarrow>
                        start_created eng ActionCreate (nId ctr) (''container '' @ shortID (nId ctr) @ '' running'') w2))"

definition create_and_start :: "'e engine \<Rightarrow> string \<Rightarrow> container_config \<Rightarrow> 'e \<Rightarrow> 'e \<times> (act_error + result)" where
  "create_and_start eng name cfg w =
     (case CreateContainer eng name cfg w of
        (w1, Inl e) \<Rightarrow> (w1, Inl e)
      | (w1, Inr i) \<Rightarrow> start_created eng ActionUpdate i (''container recreated '' @ shortID i) w1)"

definition recreate :: "'e engine \<Rightarrow> string \<Rightarrow> plan \<Rightarrow> 'e \<Rightarrow> 'e \<times> (act_error + result)" where
  "recreate eng name p w =
     (case containerConfig p of
        Inl e \<Rightarrow> (w, Inl e)
      | Inr cfg \<Rightarrow>
          (case InspectContainer eng name w of
             (w1, Inl e) \<Rightarrow> (w1, Inl e)
           | (w1, Inr None) \<Rightarrow> create_and_start eng name cfg w1
           | (w1, Inr (Some ctr)) \<Rightarrow>
               (case StopContainer eng (nId ctr) stopTimeoutSecs w1 of
                  (w2, Some e) \<Rightarrow> (w2, Inl e)
                | (w2, None) \<Rightarrow>
                    (case RemoveContainer eng (nId ctr) w2 of
                       (w3, Some e) \<Rightarrow> (w3, Inl e)
                     | (w3, None) \<Rightarrow> create_and_start eng name cfg w3))))"

text \<open>The plans of the model always carry their desired resource and one of the three actions, so the two error
  branches of \<open>Apply\<close> for other plans do not arise.\<close>

definition docker_Apply :: "'e engine \<Rightarrow> plan \<Rightarrow> 'e \<Rightarrow> 'e \<times> (act_error + result)" where
  "docker_Apply eng p w =
     (let name = ContainerName (RefFor (pDesired p))
      in case pAction p of
           ActionCreate \<Rightarrow> ensure eng name p w
         | ActionUpdate \<Rightarrow> recreate eng name p w
         | ActionNoop \<Rightarrow> (w, Inr \<lparr>tAction = ActionNoop, tExternalID = [], tMessage = ''no changes''\<rparr>))"

text \<open>An inspection is a \<open>GET\<close>; the Engine's state after it is not part of what the interface reports.\<close>

definition KindApplication :: string where "KindApplication = ''Application''"

definition docker_NewActuator :: "'e engine \<Rightarrow> 'e actuator" where
  "docker_NewActuator eng =
     \<lparr>actKind = KindApplication, actPlan = PlanContainers, actApply = docker_Apply eng,
      actInspect = (\<lambda>f w. snd (docker_Inspect eng f w)), actCaps = \<lparr>cDriftDetection = True, cName = ''docker''\<rparr>,
      actDesiredFields = Some DesiredFields\<rparr>"

end
