(* ===== verification/Docker_Laws.thy ===== *)
theory Docker_Laws
  imports Docker Reconcile
begin

text \<open>
  Lemmas on the Docker provider: the normal form of field maps and the round trip through a spec, plans as the
  difference of two field maps, what a successful \<open>Apply\<close> leaves behind in an Engine, and the classification of
  its errors.
\<close>

section \<open>Normal fields\<close>

definition env_key :: "string \<Rightarrow> bool" where
  "env_key k \<longleftrightarrow> (\<exists>v. v \<noteq> [] \<and> k = FieldEnvPrefix @ v)"

definition normal_fields :: "(string, string) gomap \<Rightarrow> bool" where
  "normal_fields m \<longleftrightarrow> distinct (map fst m) \<and>
     (\<exists>img. map_of m FieldImage = Some img \<and> TrimSpace img = img \<and> img \<noteq> []) \<and>
     (\<forall>k \<in> fst ` set m. k = FieldImage \<or> env_key k)"

lemma dropWhile_idem: "dropWhile P (dropWhile P xs) = dropWhile P xs"
  by (induction xs) auto

lemma dropWhile_hd: "xs = [] \<or> \<not> P (hd xs) \<Longrightarrow> dropWhile P xs = xs"
  by (cases xs) auto

lemma TrimSpace_idem [simp]: "TrimSpace (TrimSpace s) = TrimSpace s"
proof -
  define a where "a = dropWhile is_space s"
  define b where "b = dropWhile is_space (rev a)"
  have "rev b = [] \<or> \<not> is_space (hd (rev b))"
  proof (cases b rule: rev_cases)
    case (snoc ys y)
    obtain zs where "rev a = zs @ b" unfolding b_def using takeWhile_dropWhile_id [of is_space "rev a"] by metis
    then have "a = rev b @ rev zs" by (metis rev_append rev_rev_ident)
    then have "hd a = y" "a \<noteq> []" using snoc by auto
    moreover have "\<not> is_space (hd a)" using \<open>a \<noteq> []\<close> unfolding a_def by (rule hd_dropWhile)
    ultimately show ?thesis using snoc by simp
  qed simp
  then have "dropWhile is_space (rev b) = rev b" by (rule dropWhile_hd)
  then show ?thesis by (simp add: TrimSpace_def a_def [symmetric] b_def [symmetric]) (simp add: b_def dropWhile_idem)
qed

lemma env_key_simps [simp]: "env_key (FieldEnvPrefix @ v) \<longleftrightarrow> v \<noteq> []" "FieldEnvPrefix @ v \<noteq> FieldImage"
  "\<not> env_key FieldImage" "\<not> env_key FieldEnv"
  by (auto simp: env_key_def FieldEnvPrefix_def FieldImage_def FieldEnv_def)

lemma CutPrefix_env: "CutPrefix k FieldEnvPrefix = Some v \<longleftrightarrow> k = FieldEnvPrefix @ v"
  by (auto simp: CutPrefix_Some)

lemma normal_update:
  assumes "normal_fields m" "env_key k"
  shows "normal_fields (AList.update k v m)"
proof -
  have "FieldImage \<noteq> k" using assms(2) by auto
  then show ?thesis using assms
    by (auto simp: normal_fields_def distinct_update update_conv' dom_update image_iff)
qed


lemma env_object_ok: "env_object kvs m = Inr m' \<Longrightarrow> [] \<notin> fst ` set m \<Longrightarrow> [] \<notin> fst ` set m'"
  by (induction kvs m rule: env_object.induct) (auto simp: dom_update split: if_splits json.splits)

lemma env_entry_ok: "env_entry s = Inr (k, v) \<Longrightarrow> [] \<noteq> k"
  by (auto simp: env_entry_def split: option.splits if_splits)

lemma env_list_ok: "env_list vs m = Inr m' \<Longrightarrow> [] \<notin> fst ` set m \<Longrightarrow> [] \<notin> fst ` set m'"
  by (induction vs m rule: env_list.induct)
    (auto 4 4 simp: dom_update split: sum.splits json.splits, metis env_entry_ok)

lemma env_packed_ok: "env_packed ps m = Inr m' \<Longrightarrow> [] \<notin> fst ` set m \<Longrightarrow> [] \<notin> fst ` set m'"
  by (induction ps m rule: env_packed.induct)
    (auto 4 4 simp: dom_update split: sum.splits if_splits, metis env_entry_ok)

lemma envPairs_ok: "envPairs raw = Inr m \<Longrightarrow> [] \<notin> fst ` set m"
  by (auto simp: envPairs_def dest: env_object_ok env_list_ok env_packed_ok split: json.splits)

lemma normal_fold:
  "[] \<notin> fst ` set ps \<Longrightarrow> normal_fields m \<Longrightarrow> normal_fields (fold (\<lambda>(k, v). AList.update (FieldEnvPrefix @ k) v) ps m)"
  by (induction ps arbitrary: m) (auto simp: normal_update)

lemma flat_env_normal: "flat_env kvs m = Inr m' \<Longrightarrow> normal_fields m \<Longrightarrow> normal_fields m'"
  by (induction kvs m rule: flat_env.induct)
    (auto simp: CutPrefix_env normal_update split: option.splits json.splits if_splits)

lemma DesiredFields_normal:
  assumes "DesiredFields spec = Inr want"
  shows "normal_fields want"
proof -
  let ?img = "spec_image (spec_map spec)"
  have i: "?img \<noteq> []" using assms by (auto simp: DesiredFields_def Let_def)
  then have "normal_fields [(FieldImage, ?img)]" by (simp add: normal_fields_def spec_image_def)
  moreover obtain out where out: "env_block (spec_map spec) [(FieldImage, ?img)] = Inr out" "flat_env (spec_map spec) out = Inr want"
    using assms i by (auto simp: DesiredFields_def Let_def split: sum.splits)
  ultimately have "normal_fields out"
    by (auto simp: env_block_def normal_fold envPairs_ok split: option.splits json.splits sum.splits)
  then show ?thesis using out(2) flat_env_normal by blast
qed

section \<open>The round trip through a spec\<close>

lemma flat_env_strings:
  assumes "distinct (map fst m)" "\<forall>k \<in> fst ` set m. k = FieldImage \<or> env_key k"
  shows "\<exists>m'. flat_env (map (\<lambda>(k, v). (k, JStr v)) m) out = Inr m' \<and>
     (\<forall>k. map_of m' k = (if env_key k \<and> map_of m k \<noteq> None then map_of m k else map_of out k)) \<and>
     (distinct (map fst out) \<longrightarrow> distinct (map fst m'))"
  using assms
proof (induction m arbitrary: out)
  case (Cons kv m)
  obtain k v where kv: "kv = (k, v)" by fastforce
  have k: "k \<notin> fst ` set m" using Cons.prems(1) kv by auto
  show ?case
  proof (cases "env_key k")
    case True
    then obtain x where x: "x \<noteq> []" "k = FieldEnvPrefix @ x" by (auto simp: env_key_def)
    have c: "CutPrefix k FieldEnvPrefix = Some x" using x by (simp add: CutPrefix_env)
    obtain m' where m': "flat_env (map (\<lambda>(k, v). (k, JStr v)) m) (AList.update k v out) = Inr m'"
      "\<forall>k'. map_of m' k' = (if env_key k' \<and> map_of m k' \<noteq> None then map_of m k' else map_of (AList.update k v out) k')"
      "distinct (map fst (AList.update k v out)) \<longrightarrow> distinct (map fst m')"
      using Cons.IH [of "AList.update k v out"] Cons.prems kv by auto
    have "map_of m k = None" using k by (simp add: map_of_eq_None_iff)
    then show ?thesis using m' True kv c x(1) by (auto simp: update_conv' distinct_update)
  next
    case False
    then have "k = FieldImage" using Cons.prems(2) kv by auto
    then have c: "CutPrefix k FieldEnvPrefix = None" by (simp add: FieldImage_def FieldEnvPrefix_def CutPrefix_def HasPrefix_def)
    obtain m' where "flat_env (map (\<lambda>(k, v). (k, JStr v)) m) out = Inr m'"
      "\<forall>k'. map_of m' k' = (if env_key k' \<and> map_of m k' \<noteq> None then map_of m k' else map_of out k')"
      "distinct (map fst out) \<longrightarrow> distinct (map fst m')"
      using Cons.IH [of out] Cons.prems kv by auto
    then show ?thesis using False kv c by auto
  qed
qed auto

lemma FieldsToSpec_lookup:
  assumes "distinct (map fst m)"
  shows "map_of (FieldsToSpec m) k = map_option JStr (map_of m k)"
proof -
  have "map_of (sort_key fst m) = map_of m"
    by (rule map_of_inject_set [THEN iffD2]) (use assms in \<open>auto simp: distinct_map\<close>)
  then show ?thesis by (simp add: FieldsToSpec_def map_of_map)
qed

lemma DesiredFields_FieldsToSpec:
  assumes "normal_fields m"
  shows "\<exists>m'. DesiredFields (Some (FieldsToSpec m)) = Inr m' \<and> map_of m' = map_of m \<and> distinct (map fst m')"
proof -
  obtain img where d: "distinct (map fst m)" and img: "map_of m FieldImage = Some img" "TrimSpace img = img" "img \<noteq> []"
    and ks: "\<forall>k \<in> fst ` set m. k = FieldImage \<or> env_key k" using assms by (auto simp: normal_fields_def)
  let ?s = "FieldsToSpec m"
  have i: "spec_image ?s = img" using img by (simp add: spec_image_def FieldsToSpec_lookup [OF d] FieldImage_def [symmetric])
  have "map_of m FieldEnv = None"
  proof (rule ccontr)
    assume "map_of m FieldEnv \<noteq> None"
    then have "FieldEnv \<in> fst ` set m" by (metis map_of_eq_None_iff)
    then show False using ks by (auto simp: FieldEnv_def FieldImage_def env_key_def FieldEnvPrefix_def)
  qed
  then have b: "env_block ?s out = Inr out" for out by (simp add: env_block_def FieldsToSpec_lookup [OF d])
  have d': "distinct (map fst (sort_key fst m))" using d by (simp add: distinct_map)
  have ks': "\<forall>k \<in> fst ` set (sort_key fst m). k = FieldImage \<or> env_key k" using ks by simp
  have mo: "map_of (sort_key fst m) = map_of m"
    by (rule map_of_inject_set [THEN iffD2]) (use d in \<open>auto simp: distinct_map\<close>)
  obtain m' where m': "flat_env ?s [(FieldImage, img)] = Inr m'"
    "\<forall>k. map_of m' k = (if env_key k \<and> map_of m k \<noteq> None then map_of m k else map_of [(FieldImage, img)] k)" "distinct (map fst m')"
    using flat_env_strings [OF d' ks', of "[(FieldImage, img)]"] by (auto simp: FieldsToSpec_def mo)
  have "map_of m' k = map_of m k" for k
  proof (cases "map_of m k")
    case None
    then show ?thesis using m'(2) img(1) by auto
  next
    case (Some v)
    then have "k \<in> fst ` set m" by (metis map_of_eq_None_iff option.distinct(1))
    then show ?thesis using m'(2) ks img(1) Some by auto
  qed
  then show ?thesis using m' i b img(3) by (auto simp: DesiredFields_def spec_map_def)
qed

section \<open>Plans\<close>

lemma CompareFields_cong: "map_of got = map_of got' \<Longrightarrow> CompareFields want got = CompareFields want got'"
  by (simp add: CompareFields_def)

text \<open>The contract of \<^verbatim>\<open>internal/provider/provider.go\<close> for an actuator that supports drift detection: its field mapping
  is idempotent over its own output, its plans are the difference of two field maps, and a spec it cannot map
  is a permanent error.\<close>

locale drift_actuator =
  fixes act :: "'w actuator" and mapper :: "jobj option \<Rightarrow> act_error + (string, string) gomap"
  assumes mapped: "actDesiredFields act = Some mapper"
    and mapper_idem: "mapper s = Inr m \<Longrightarrow> \<exists>m'. mapper (Some (FieldsToSpec m)) = Inr m' \<and> map_of m' = map_of m"
    and plan_rejects: "mapper (rSpec d) = Inl e \<Longrightarrow> \<exists>e'. actPlan act cur d = Inl e' \<and> ClassOf e' = Permanent"
    and plan_diff: "mapper (rSpec d) = Inr want \<Longrightarrow> mapper (rSpec c) = Inr got \<Longrightarrow>
      \<exists>p. actPlan act (Some c) d = Inr p \<and> pDesired p = d \<and> map cField (pChanges p) = CompareFields want got \<and>
        pAction p = (if CompareFields want got = [] then ActionNoop else ActionUpdate)"
begin

lemma plan_drift:
  assumes "mapper (rSpec res) = Inr want" "oExists obs"
    "mapper (Some (FieldsToSpec (oFields obs))) = Inr m'" "map_of m' = map_of (oFields obs)"
  shows "\<exists>p. planFor act res obs = Inr p \<and> pDesired p = res \<and> map cField (pChanges p) = CompareFields want (oFields obs) \<and>
     pAction p = (if CompareFields want (oFields obs) = [] then ActionNoop else ActionUpdate)"
  using assms plan_diff [OF assms(1), of "(DeepCopy res)\<lparr>rSpec := Some (FieldsToSpec (oFields obs))\<rparr>" m']
    CompareFields_cong [OF assms(4)] by (simp add: planFor_def mapped)

lemma plan_converged:
  assumes "mapper (rSpec res) = Inr want" "oExists obs" "oFields obs = want"
  shows "\<exists>p. planFor act res obs = Inr p \<and> pAction p = ActionNoop"
proof -
  obtain m' where m': "mapper (Some (FieldsToSpec want)) = Inr m'" "map_of m' = map_of want" using mapper_idem [OF assms(1)] by blast
  obtain p where p: "planFor act res obs = Inr p" "pAction p = (if CompareFields want want = [] then ActionNoop else ActionUpdate)"
    using plan_drift [OF assms(1,2), of m'] m' assms(3) by auto
  have "k \<notin> set (CompareFields want want)" for k
    by (auto simp: CompareFields_def map_of_eq_None_iff simp del: map_of_eq_Some_iff split: option.splits)
  then have "CompareFields want want = []" by (cases "CompareFields want want") auto
  then show ?thesis using p by auto
qed

end

interpretation docker: drift_actuator "docker_NewActuator eng" DesiredFields for eng
proof
  show "actDesiredFields (docker_NewActuator eng) = Some DesiredFields" by (simp add: docker_NewActuator_def)
  show "\<exists>m'. DesiredFields (Some (FieldsToSpec m)) = Inr m' \<and> map_of m' = map_of m" if "DesiredFields s = Inr m" for s m
    using DesiredFields_FieldsToSpec [OF DesiredFields_normal [OF that]] by blast
qed (auto simp: docker_NewActuator_def PlanContainers_def Let_def comp_def)

lemma plan_observed:
  assumes "DesiredFields (rSpec res) = Inr want" "normal_fields (oFields obs)" "oExists obs"
  shows "\<exists>p. planFor (docker_NewActuator eng) res obs = Inr p \<and> pDesired p = res \<and>
     map cField (pChanges p) = CompareFields want (oFields obs) \<and>
     pAction p = (if CompareFields want (oFields obs) = [] then ActionNoop else ActionUpdate)"
  using docker.plan_drift [OF assms(1,3)] DesiredFields_FieldsToSpec [OF assms(2)] by blast

section \<open>The Engine after a successful Apply\<close>

lemma docker_do_Inr:
  assumes "docker_do eng opn meth path body w = (w1, Inr (code, raw))"
  shows "\<exists>full. eng \<lparr>qMethod = meth, qPath = path, qBody = map_option marshal body\<rparr> w = (w1, Reply code full None) \<and> raw = take 1048576 full"
  using assms by (auto simp: docker_do_def split: prod.splits engine_reply.splits option.splits if_splits)

text \<open>What the Engine documents of the container with a given name, and of a creation with a given
  configuration: \<open>at w\<close> is the container an inspection by that name reports, the image's own variables are
  merged into the configured ones, a start keeps the configuration, and an inspection changes nothing.\<close>

definition config_served :: "container_config \<Rightarrow> container \<Rightarrow> bool" where
  "config_served cfg c \<longleftrightarrow> (case nConfig c of None \<Rightarrow> False | Some got \<Rightarrow> gImage got = gImage cfg \<and>
     (\<forall>k v. map_of (EnvListToFields (gEnv cfg)) k = Some v \<longrightarrow> map_of (EnvListToFields (gEnv got)) k = Some v))"

definition engine_documented :: "'e engine \<Rightarrow> ('e \<Rightarrow> container option) \<Rightarrow> string \<Rightarrow> container_config \<Rightarrow> bool" where
  "engine_documented eng at name cfg \<longleftrightarrow>
     (\<forall>w w' raw. eng \<lparr>qMethod = ''POST'', qPath = create_path name, qBody = Some (marshal (config_json cfg))\<rparr> w = (w', Reply 201 raw None) \<longrightarrow>
        (\<exists>c. at w' = Some c \<and> decode_create (take 1048576 raw) = Some (nId c) \<and> config_served cfg c)) \<and>
     (\<forall>w w' raw. eng \<lparr>qMethod = ''POST'', qPath = create_path name, qBody = Some (marshal (config_json cfg))\<rparr> w = (w', Reply 409 raw None) \<longrightarrow>
        at w \<noteq> None) \<and>
     (\<forall>w w' c code raw. at w = Some c \<longrightarrow>
        eng \<lparr>qMethod = ''POST'', qPath = start_path (nId c), qBody = None\<rparr> w = (w', Reply code raw None) \<longrightarrow> code = 204 \<or> code = 304 \<longrightarrow>
        (\<exists>c'. at w' = Some c' \<and> nId c' = nId c \<and> nConfig c' = nConfig c)) \<and>
     (\<forall>w w' code raw. eng \<lparr>qMethod = ''GET'', qPath = inspect_path name, qBody = None\<rparr> w = (w', Reply code raw None) \<longrightarrow>
        (code = 404 \<longrightarrow> at w = None) \<and> (code div 100 = 2 \<longrightarrow> decode_container (take 1048576 raw) = at w \<and> at w' = at w))"

lemma created:
  assumes "engine_documented eng at name cfg" "CreateContainer eng name cfg w = (w1, Inr i)"
  shows "\<exists>c. at w1 = Some c \<and> nId c = i \<and> config_served cfg c"
proof -
  obtain raw where r: "docker_do eng ''create'' ''POST'' (create_path name) (Some (config_json cfg)) w = (w1, Inr (201, raw))"
    "decode_create raw = Some i"
    using assms(2) by (auto simp: CreateContainer_def split: prod.splits sum.splits if_splits option.splits)
  obtain full where f: "eng \<lparr>qMethod = ''POST'', qPath = create_path name, qBody = Some (marshal (config_json cfg))\<rparr> w = (w1, Reply 201 full None)"
    "raw = take 1048576 full" using docker_do_Inr [OF r(1)] by auto
  then obtain c where "at w1 = Some c" "decode_create raw = Some (nId c)" "config_served cfg c"
    using assms(1) unfolding engine_documented_def by blast
  then show ?thesis using r(2) by auto
qed

lemma started:
  assumes "engine_documented eng at name cfg" "at w = Some c" "start_created eng act (nId c) msg w = (w1, Inr res)"
  shows "tExternalID res = nId c \<and> (\<exists>c'. at w1 = Some c' \<and> nId c' = nId c \<and> nConfig c' = nConfig c)"
proof -
  obtain code raw where s: "docker_do eng ''start'' ''POST'' (start_path (nId c)) None w = (w1, Inr (code, raw))" "code = 204 \<or> code = 304"
    and t: "tExternalID res = nId c"
    using assms(3) by (auto simp: start_created_def StartContainer_def split: prod.splits sum.splits option.splits if_splits)
  obtain full where "eng \<lparr>qMethod = ''POST'', qPath = start_path (nId c), qBody = None\<rparr> w = (w1, Reply code full None)"
    using docker_do_Inr [OF s(1)] by auto
  then show ?thesis using assms(1,2) s(2) t unfolding engine_documented_def by blast
qed

lemma no_conflict [simp]:
  "\<not> isConflict (statusError opn code raw)"
  "docker_do eng opn meth path body w = (w1, Inl e) \<Longrightarrow> \<not> isConflict e"
  by (auto simp: statusError_def docker_do_def engine_conflict_def Let_def split: prod.splits engine_reply.splits option.splits if_splits)

lemma conflict_409:
  assumes "CreateContainer eng name cfg w = (w1, Inl e)" "isConflict e"
  shows "\<exists>raw. eng \<lparr>qMethod = ''POST'', qPath = create_path name, qBody = Some (marshal (config_json cfg))\<rparr> w = (w1, Reply 409 raw None)"
proof -
  obtain raw where "docker_do eng ''create'' ''POST'' (create_path name) (Some (config_json cfg)) w = (w1, Inr (409, raw))"
    using assms by (auto simp: CreateContainer_def engine_conflict_def split: prod.splits sum.splits if_splits option.splits)
  from docker_do_Inr [OF this] show ?thesis by auto
qed

lemma apply_created:
  assumes e: "engine_documented eng at name cfg" and cfg: "containerConfig p = Inr cfg"
    and a: "docker_Apply eng p w = (w1, Inr res)" "pAction p \<noteq> ActionNoop" "name = ContainerName (RefFor (pDesired p))"
    and n: "pAction p = ActionCreate \<Longrightarrow> at w = None"
  shows "\<exists>c. at w1 = Some c \<and> nId c = tExternalID res \<and> config_served cfg c"
proof -
  obtain w0 w2 i act msg where c: "CreateContainer eng name cfg w0 = (w2, Inr i)" and s: "start_created eng act i msg w2 = (w1, Inr res)"
  proof (cases "pAction p")
    case ActionCreate
    then have "ensure eng name p w = (w1, Inr res)" using a by (simp add: docker_Apply_def)
    moreover obtain w2 r where cr: "CreateContainer eng name cfg w = (w2, r)" by fastforce
    moreover have "\<not> isConflict err" if "r = Inl err" for err
      using conflict_409 [of eng name cfg w w2 err] cr that e n [OF ActionCreate] unfolding engine_documented_def by blast
    ultimately show ?thesis using that [of w w2] cfg by (auto simp: ensure_def split: sum.splits if_splits)
  next
    case ActionUpdate
    then have "recreate eng name p w = (w1, Inr res)" using a by (simp add: docker_Apply_def)
    then obtain w0 where "create_and_start eng name cfg w0 = (w1, Inr res)"
      using cfg by (auto simp: recreate_def split: prod.splits sum.splits option.splits)
    then show ?thesis using that [of w0] by (auto simp: create_and_start_def split: prod.splits sum.splits)
  qed (use a(2) in simp)
  obtain c where c': "at w2 = Some c" "nId c = i" "config_served cfg c" using created [OF e c] by blast
  then show ?thesis using started [OF e, of w2 c act msg w1 res] s by (auto simp: config_served_def)
qed

section \<open>Environment variables\<close>

definition env_step :: "string \<Rightarrow> (string, string) gomap \<Rightarrow> (string, string) gomap" where
  "env_step kv out =
     (case Cut kv ''='' of
        None \<Rightarrow> out
      | Some (k, v) \<Rightarrow> if k = [] then out else AList.update (FieldEnvPrefix @ k) v out)"

lemma EnvListToFields_fold: "EnvListToFields es = fold env_step es []"
  by (simp add: EnvListToFields_def env_step_def [abs_def])

lemma Cut_entry: "CHR ''='' \<notin> set k \<Longrightarrow> Cut (k @ CHR ''='' # v) ''='' = Some (k, v)"
  by (induction k) (auto simp: HasPrefix_def)

definition env_fields :: "(string, string) gomap \<Rightarrow> bool" where
  "env_fields m \<longleftrightarrow> distinct (map fst m) \<and> fst ` set m \<subseteq> Collect env_key"

lemma env_step_normal: "env_fields m \<Longrightarrow> env_fields (env_step e m)"
  by (simp add: env_fields_def env_step_def distinct_update dom_update split: option.splits)

lemma env_steps_normal: "env_fields m \<Longrightarrow> env_fields (fold env_step es m)"
  by (induction es arbitrary: m) (simp_all add: env_step_normal)

lemma EnvListToFields_normal:
  fixes k :: string and es :: "string list"
  shows "distinct (map fst (EnvListToFields es))" "k \<in> fst ` set (EnvListToFields es) \<Longrightarrow> env_key k"
  unfolding EnvListToFields_fold using env_steps_normal [of "[]" es] by (auto simp: env_fields_def)

lemma env_lookup:
  assumes "k @ CHR ''='' # v \<in> set es" "k \<noteq> []" "CHR ''='' \<notin> set k"
    "\<And>x. x \<in> set es \<Longrightarrow> (\<exists>v'. Cut x ''='' = Some (k, v')) \<Longrightarrow> x = k @ CHR ''='' # v"
  shows "map_of (fold env_step es m) (FieldEnvPrefix @ k) = Some v"
  using assms
proof (induction es rule: rev_induct)
  case (snoc x xs)
  show ?case
  proof (cases "x = k @ CHR ''='' # v")
    case True
    then show ?thesis using snoc.prems(2,3) by (simp add: env_step_def Cut_entry update_conv')
  next
    case False
    then have "map_of (fold env_step xs m) (FieldEnvPrefix @ k) = Some v" using snoc by (intro snoc.IH) auto
    moreover have "Cut x ''='' \<noteq> Some (k, v')" for v' using False snoc.prems(4) [of x] by auto
    then have "map_of (env_step x mm) (FieldEnvPrefix @ k) = map_of mm (FieldEnvPrefix @ k)" for mm
      by (auto simp: env_step_def update_conv' split: option.splits)
    ultimately show ?thesis by simp
  qed
qed simp

definition plain_env :: "(string, string) gomap \<Rightarrow> bool" where
  "plain_env want \<longleftrightarrow> fst ` set want \<subseteq> {k. CHR ''='' \<notin> set k}"

lemma containerConfig_env:
  assumes "DesiredFields (rSpec (pDesired p)) = Inr want" "containerConfig p = Inr cfg" "plain_env want"
    "map_of want (FieldEnvPrefix @ k) = Some v"
  shows "map_of (EnvListToFields (gEnv cfg)) (FieldEnvPrefix @ k) = Some v"
proof -
  have n: "normal_fields want" by (rule DesiredFields_normal) (rule assms(1))
  then have d: "distinct (map fst want)" by (simp add: normal_fields_def)
  have m: "(FieldEnvPrefix @ k, v) \<in> set want" using assms(4) by (rule map_of_SomeD)
  have "FieldEnvPrefix @ k \<in> fst ` set want" using m by (force simp: image_iff)
  then have "env_key (FieldEnvPrefix @ k)" "CHR ''='' \<notin> set (FieldEnvPrefix @ k)"
    using n assms(3) unfolding normal_fields_def plain_env_def by (metis env_key_simps(2), blast)
  then have k: "k \<noteq> []" "CHR ''='' \<notin> set k" by simp_all
  have es: "x \<in> set (gEnv cfg) \<longleftrightarrow> (\<exists>k' v'. (FieldEnvPrefix @ k', v') \<in> set want \<and> x = k' @ CHR ''='' # v')" for x
    using assms(1,2) by (force simp: containerConfig_def map_filter_def CutPrefix_env image_iff split: prod.splits)
  show ?thesis unfolding EnvListToFields_fold
  proof (rule env_lookup)
    show "k @ CHR ''='' # v \<in> set (gEnv cfg)" using es m by blast
    fix x assume "x \<in> set (gEnv cfg)" "\<exists>v'. Cut x ''='' = Some (k, v')"
    then obtain k' v' v'' where x: "(FieldEnvPrefix @ k', v') \<in> set want" "x = k' @ CHR ''='' # v'" "Cut x ''='' = Some (k, v'')"
      using es by blast
    then have "FieldEnvPrefix @ k' \<in> fst ` set want" by (force simp: image_iff)
    then have "CHR ''='' \<notin> set (FieldEnvPrefix @ k')" using assms(3) unfolding plain_env_def by blast
    then have "CHR ''='' \<notin> set k'" by simp
    then have "k' = k" using x by (simp add: Cut_entry)
    then have "v' = v" using x(1) m d by (meson eq_key_imp_eq_value)
    then show "x = k @ CHR ''='' # v" using x(2) \<open>k' = k\<close> by simp
  qed (rule k)+
qed

section \<open>Observations\<close>

lemma fold_update_keys:
  assumes "distinct (map fst m)"
  shows "distinct (map fst (fold (\<lambda>(k, v). AList.update k v) es m)) \<and>
    fst ` set (fold (\<lambda>(k, v). AList.update k v) es m) = fst ` set m \<union> fst ` set es"
  using assms
proof (induction es arbitrary: m)
  case (Cons e es)
  obtain a b where e: "e = (a, b)" by fastforce
  show ?case using Cons.IH [of "AList.update a b m"] Cons.prems unfolding e by (simp add: distinct_update dom_update)
qed simp

lemma fold_update_lookup:
  assumes "distinct (map fst es)"
  shows "map_of (fold (\<lambda>(k, v). AList.update k v) es m) k = (case map_of es k of None \<Rightarrow> map_of m k | Some v \<Rightarrow> Some v)"
  using assms
proof (induction es arbitrary: m)
  case (Cons e es)
  obtain a b where e: "e = (a, b)" by fastforce
  have "map_of es a = None" using Cons.prems e by (auto simp: map_of_eq_None_iff)
  then show ?case using Cons e by (auto simp: update_conv' simp del: map_of_eq_Some_iff split: option.splits)
qed simp

lemma inspect_fields:
  assumes "docker_Inspect eng f w = (w1, Inr obs)" "engine_documented eng at (ContainerName f) cfg" "at w = Some c"
    "nConfig c = Some got" "TrimSpace (gImage got) \<noteq> []"
  shows "oExists obs" "oExternalID obs = nId c" "normal_fields (oFields obs)"
    "map_of (oFields obs) FieldImage = Some (TrimSpace (gImage got))"
    "map_of (EnvListToFields (gEnv got)) (FieldEnvPrefix @ k) = Some v \<Longrightarrow> map_of (oFields obs) (FieldEnvPrefix @ k) = Some v"
proof -
  let ?q = "\<lparr>qMethod = ''GET'', qPath = inspect_path (ContainerName f), qBody = None\<rparr>"
  obtain code raw where d: "docker_do eng ''inspect'' ''GET'' (inspect_path (ContainerName f)) None w = (w1, Inr (code, raw))"
    "code = 404 \<or> code div 100 = 2 \<and> decode_container raw \<noteq> None"
    using assms(1) by (auto simp: docker_Inspect_def InspectContainer_def split: prod.splits sum.splits option.splits if_splits)
  obtain full where full: "eng ?q w = (w1, Reply code full None)" "raw = take 1048576 full" using docker_do_Inr [OF d(1)] by auto
  then have "code \<noteq> 404" using assms(2,3) unfolding engine_documented_def by fastforce
  moreover then have "decode_container raw = Some c" using d(2) full assms(2,3) unfolding engine_documented_def by metis
  ultimately have i: "InspectContainer eng (ContainerName f) w = (w1, Inr (Some c))"
    using d by (auto simp: InspectContainer_def)
  let ?m = "[(FieldImage, TrimSpace (gImage got))]"
  have o: "oExists obs" "oExternalID obs = nId c" "oFields obs = fold (\<lambda>(k, v). AList.update k v) (EnvListToFields (gEnv got)) ?m"
    using assms(1,4,5) i by (auto simp: docker_Inspect_def observed_fields_def Let_def)
  note e = EnvListToFields_normal(1) [of "gEnv got"]
  have "map_of (EnvListToFields (gEnv got)) FieldImage = None"
    using EnvListToFields_normal(2) [of FieldImage "gEnv got"] by (auto simp: map_of_eq_None_iff)
  then show img: "map_of (oFields obs) FieldImage = Some (TrimSpace (gImage got))"
    unfolding o(3) by (simp add: fold_update_lookup [OF e] del: map_of_eq_Some_iff)
  show "oExists obs" "oExternalID obs = nId c" using o by simp_all
  show "normal_fields (oFields obs)"
    using img assms(5) fold_update_keys [of ?m "EnvListToFields (gEnv got)"] EnvListToFields_normal(2) [of _ "gEnv got"]
    unfolding normal_fields_def o(3) by auto
  assume "map_of (EnvListToFields (gEnv got)) (FieldEnvPrefix @ k) = Some v"
  then show "map_of (oFields obs) (FieldEnvPrefix @ k) = Some v" unfolding o(3) by (simp add: fold_update_lookup [OF e] del: map_of_eq_Some_iff)
qed

lemma served_fields:
  assumes "docker_Inspect eng f w = (w1, Inr obs)" "engine_documented eng at (ContainerName f) cfg" "at w = Some c" "config_served cfg c"
    "DesiredFields (rSpec (pDesired p)) = Inr want" "containerConfig p = Inr cfg" "plain_env want"
  shows "oExists obs \<and> oExternalID obs = nId c \<and> normal_fields (oFields obs) \<and> CompareFields want (oFields obs) = []"
proof -
  obtain got where got: "nConfig c = Some got" "gImage got = gImage cfg"
    "\<And>k v. map_of (EnvListToFields (gEnv cfg)) k = Some v \<Longrightarrow> map_of (EnvListToFields (gEnv got)) k = Some v"
    using assms(4) by (auto simp: config_served_def split: option.splits)
  have n: "normal_fields want" by (rule DesiredFields_normal) (rule assms(5))
  then obtain img where img: "map_of want FieldImage = Some img" "TrimSpace img = img" "img \<noteq> []" and d: "distinct (map fst want)"
    by (auto simp: normal_fields_def)
  have gi: "gImage got = img" using assms(5,6) img(1) got(2) by (auto simp: containerConfig_def)
  have t: "TrimSpace (gImage got) \<noteq> []" using gi img by simp
  note f = inspect_fields [OF assms(1-3) got(1) t]
  have "map_of (oFields obs) k = Some v" if "(k, v) \<in> set want" for k v
  proof -
    have m: "map_of want k = Some v" using d that by simp
    have "k = FieldImage \<or> env_key k" using n that by (force simp: normal_fields_def)
    then show ?thesis
    proof
      assume "k = FieldImage"
      then show ?thesis using f(4) m img gi by simp
    next
      assume "env_key k"
      then obtain x where "k = FieldEnvPrefix @ x" by (auto simp: env_key_def)
      then show ?thesis using f(5) got(3) containerConfig_env [OF assms(5-7)] m by blast
    qed
  qed
  then have "CompareFields want (oFields obs) = []" unfolding CompareFields_empty [OF d] by blast
  then show ?thesis using f(1-3) by simp
qed

section \<open>Variable names that do not survive\<close>

lemma Cut_left: "Cut s ''='' = Some (k, v) \<Longrightarrow> CHR ''='' \<notin> set k"
  by (induction s arbitrary: k) (auto simp: HasPrefix_def split: if_splits)

lemma env_steps_plain: "plain_env m \<Longrightarrow> plain_env (fold env_step es m)"
proof (induction es arbitrary: m)
  case (Cons e es)
  have "plain_env (env_step e m)"
    using Cons.prems by (simp add: plain_env_def env_step_def dom_update FieldEnvPrefix_def Cut_left split: option.splits)
  then show ?case using Cons.IH by simp
qed simp

lemma inspect_plain:
  assumes "docker_Inspect eng f w = (w1, Inr obs)"
  shows "plain_env (oFields obs)"
proof -
  have [simp]: "plain_env []" "plain_env [(FieldImage, img)]" for img by (simp_all add: plain_env_def FieldImage_def)
  have e: "plain_env (EnvListToFields es)" for es
    unfolding EnvListToFields_fold by (rule env_steps_plain) simp
  have "plain_env (fold (\<lambda>(k, v). AList.update k v) (EnvListToFields es) m)" if "distinct (map fst m)" "plain_env m" for es m
    using fold_update_keys [OF that(1), of "EnvListToFields es"] e [of es] that(2) by (simp add: plain_env_def)
  then have "plain_env (observed_fields cfg)" for cfg by (simp add: observed_fields_def Let_def)
  then show ?thesis using assms
    by (auto simp: docker_Inspect_def Let_def split: prod.splits sum.splits option.splits)
qed

lemma inspect_imageless:
  assumes "docker_Inspect eng f w = (w1, Inr obs)" "\<not> normal_fields (oFields obs)"
  shows "\<exists>e. DesiredFields (Some (FieldsToSpec (oFields obs))) = Inl e"
proof -
  obtain es img where o: "oFields obs = fold (\<lambda>(k, v). AList.update k v) (EnvListToFields es) (if img \<noteq> [] then [(FieldImage, img)] else [])"
    and t: "TrimSpace img = img"
  proof -
    have "oFields obs = [] \<or> (\<exists>cfg. oFields obs = observed_fields cfg)"
      using assms(1) by (auto simp: docker_Inspect_def Let_def split: prod.splits sum.splits option.splits)
    moreover have "EnvListToFields [] = []" "TrimSpace [] = []" by (simp_all add: EnvListToFields_def TrimSpace_def)
    ultimately show ?thesis using that [of "[]" "[]"] that TrimSpace_idem by (auto simp: observed_fields_def Let_def)
  qed
  note e = EnvListToFields_normal(1) [of es] EnvListToFields_normal(2) [of _ es]
  have "map_of (EnvListToFields es) FieldImage = None" using e(2) [of FieldImage] by (auto simp: map_of_eq_None_iff)
  then have i: "map_of (oFields obs) FieldImage = (if img \<noteq> [] then Some img else None)"
    unfolding o by (simp add: fold_update_lookup [OF e(1)] del: map_of_eq_Some_iff)
  let ?m = "if img \<noteq> [] then [(FieldImage, img)] else []"
  have m: "distinct (map fst ?m)" "fst ` set ?m \<subseteq> {FieldImage}" by auto
  have k: "distinct (map fst (oFields obs))" "fst ` set (oFields obs) \<subseteq> insert FieldImage (Collect env_key)"
    using fold_update_keys [OF m(1), of "EnvListToFields es"] e(2) m(2) unfolding o by blast+
  have "\<forall>x \<in> fst ` set (oFields obs). x = FieldImage \<or> env_key x" using k(2) by blast
  then have "img \<noteq> [] \<Longrightarrow> normal_fields (oFields obs)" unfolding normal_fields_def using k(1) i t by metis
  then have "img = []" using assms(2) by blast
  then have "spec_image (FieldsToSpec (oFields obs)) = []"
    using i by (simp add: spec_image_def FieldsToSpec_lookup [OF k(1)] FieldImage_def [symmetric] TrimSpace_def)
  then show ?thesis by (simp add: DesiredFields_def spec_map_def)
qed

end
