(* ===== verification/Docker_Props.thy ===== *)
theory Docker_Props
  imports Docker_Laws Samples
begin

text \<open>Properties of the Docker provider, with a small Engine for their witnesses.\<close>

section \<open>An Engine with one container\<close>

definition ex_app :: "string \<Rightarrow> string \<Rightarrow> string \<Rightarrow> resource" where
  "ex_app org project img =
     \<lparr>rID = ''r-21'', rKind = KindApplication, rOrg = org, rProject = project, rEnv = ''prod'', rName = ''web'',
      rGeneration = 1, rLabels = None,
      rSpec = Some [(''env'', JObj [(''MODE'', JStr ''web'')]), (''image'', JStr img)],
      rStatus = ex_status, rCreatedAt = 0, rUpdatedAt = 0\<rparr>"

definition ex_shop :: resource where "ex_shop = ex_app ''acme-core'' ''shop'' ''nginx:1.25''"

definition ex_want :: "(string, string) gomap" where
  "ex_want = [(''image'', ''nginx:1.25''), (''env.MODE'', ''web'')]"

definition ex_container :: "bool \<Rightarrow> container" where
  "ex_container run =
     \<lparr>nId = ''4f1c2d3e4a5b6c7d8e'', nName = ''/ryvex-acme-core-shop-prod-web'',
      nConfig = Some \<lparr>gImage = ''nginx:1.25'', gEnv = [''PATH=/bin'', ''MODE=web''], gLabels = []\<rparr>,
      nState = Some \<lparr>zStatus = (if run then ''running'' else ''created''), zRunning = run, zDead = False, zOOMKilled = False\<rparr>\<rparr>"

definition ex_inspect_body :: "bool \<Rightarrow> string" where
  "ex_inspect_body run =
     marshal (JObj [(''Id'', JStr ''4f1c2d3e4a5b6c7d8e''), (''Name'', JStr ''/ryvex-acme-core-shop-prod-web''),
       (''Config'', JObj [(''Image'', JStr ''nginx:1.25''), (''Env'', JArr [JStr ''PATH=/bin'', JStr ''MODE=web''])]),
       (''State'', JObj [(''Status'', JStr (if run then ''running'' else ''created'')), (''Running'', JBool run), (''Dead'', JBool False)])])"

definition ex_config_body :: container_config where
  "ex_config_body = \<lparr>gImage = ''nginx:1.25'', gEnv = [''MODE=web''], gLabels = managedLabels ex_shop\<rparr>"

definition ex_name :: string where "ex_name = ''ryvex-acme-core-shop-prod-web''"

text \<open>The Engine's state: no container, a created one, a running one.\<close>

definition ex_at :: "nat \<Rightarrow> container option" where
  "ex_at w = (if w = 0 then None else Some (ex_container (1 < w)))"

definition ex_engine :: "nat engine" where
  "ex_engine q w =
     (if qMethod q = ''POST'' \<and> qPath q = create_path ex_name then
        (if w \<noteq> 0 then (w, Reply 409 [] None)
         else if qBody q = Some (marshal (config_json ex_config_body)) then
           (1, Reply 201 (marshal (JObj [(''Id'', JStr ''4f1c2d3e4a5b6c7d8e'')])) None)
         else (w, Reply 400 [] None))
      else if w = 0 then (w, Reply 404 [] None)
      else if qMethod q = ''GET'' \<and> qPath q = inspect_path ex_name then (w, Reply 200 (ex_inspect_body (1 < w)) None)
      else if qMethod q = ''POST'' \<and> qPath q = start_path ''4f1c2d3e4a5b6c7d8e'' then (2, Reply (if w = 1 then 204 else 304) [] None)
      else if qMethod q = ''POST'' \<and> qPath q = stop_path ''4f1c2d3e4a5b6c7d8e'' 10 then (1, Reply (if w = 1 then 304 else 204) [] None)
      else if qMethod q = ''DELETE'' \<and> qPath q = remove_path ''4f1c2d3e4a5b6c7d8e'' then (0, Reply 204 [] None)
      else (w, Reply 400 [] None))"

lemma ex_bodies:
  "decode_container (take 1048576 (ex_inspect_body False)) = Some (ex_container False)"
  "decode_container (take 1048576 (ex_inspect_body True)) = Some (ex_container True)"
  "decode_create (take 1048576 (marshal (JObj [(''Id'', JStr ''4f1c2d3e4a5b6c7d8e'')]))) = Some ''4f1c2d3e4a5b6c7d8e''"
  by code_simp+

lemma ex_paths:
  "create_path ex_name \<noteq> start_path ''4f1c2d3e4a5b6c7d8e''" "create_path ex_name \<noteq> inspect_path ex_name"
  "inspect_path ex_name \<noteq> create_path ex_name"
  by code_simp+

lemma ex_served: "config_served ex_config_body (ex_container run)"
proof -
  have "EnvListToFields (gEnv ex_config_body) = [(''env.MODE'', ''web'')]"
    "EnvListToFields [''PATH=/bin'', ''MODE=web''] = [(''env.PATH'', ''/bin''), (''env.MODE'', ''web'')]" by code_simp+
  then show ?thesis by (simp add: config_served_def ex_container_def ex_config_body_def)
qed

lemma ex_engine_documented: "engine_documented ex_engine ex_at ex_name ex_config_body"
  unfolding engine_documented_def
proof (intro conjI allI impI)
  fix w w' raw
  assume "ex_engine \<lparr>qMethod = ''POST'', qPath = create_path ex_name, qBody = Some (marshal (config_json ex_config_body))\<rparr> w = (w', Reply 201 raw None)"
  then show "\<exists>c. ex_at w' = Some c \<and> decode_create (take 1048576 raw) = Some (nId c) \<and> config_served ex_config_body c"
    using ex_bodies(3) ex_served by (auto simp: ex_engine_def ex_at_def ex_container_def split: if_splits)
next
  fix w w' raw
  assume "ex_engine \<lparr>qMethod = ''POST'', qPath = create_path ex_name, qBody = Some (marshal (config_json ex_config_body))\<rparr> w = (w', Reply 409 raw None)"
  then show "ex_at w \<noteq> None" by (auto simp: ex_engine_def ex_at_def split: if_splits)
next
  fix w w' c code raw
  assume "ex_at w = Some c" "ex_engine \<lparr>qMethod = ''POST'', qPath = start_path (nId c), qBody = None\<rparr> w = (w', Reply code raw None)" "code = 204 \<or> code = 304"
  then show "\<exists>c'. ex_at w' = Some c' \<and> nId c' = nId c \<and> nConfig c' = nConfig c"
    using ex_paths by (auto simp: ex_engine_def ex_at_def ex_container_def split: if_splits)
next
  fix w w' code raw
  assume "ex_engine \<lparr>qMethod = ''GET'', qPath = inspect_path ex_name, qBody = None\<rparr> w = (w', Reply code raw None)"
  then have r: "w' = w" "if w = 0 then code = 404 else code = 200 \<and> raw = ex_inspect_body (1 < w)" 
    using ex_paths by (auto simp: ex_engine_def split: if_splits)
  then show "code = 404 \<Longrightarrow> ex_at w = None" by (auto simp: ex_at_def split: if_splits)
  assume "code div 100 = 2"
  then have "w \<noteq> 0" "raw = ex_inspect_body (1 < w)" using r by (auto split: if_splits)
  then show "decode_container (take 1048576 raw) = ex_at w" using ex_bodies(1,2) by (cases "1 < w") (simp_all add: ex_at_def)
  show "ex_at w' = ex_at w" using r by simp
qed

section \<open>Properties\<close>

text \<open>C33: the field mapping is idempotent. The fields of a spec, written back as a spec, map to the same fields, so a
  container observed as desired plans no change.\<close>

theorem docker_fields_roundtrip:
  assumes "DesiredFields (rSpec res) = Inr want" "oExists obs" "oFields obs = want"
  shows "(\<exists>m'. DesiredFields (Some (FieldsToSpec want)) = Inr m' \<and> map_of m' = map_of want) \<and>
    (\<exists>p. planFor (docker_NewActuator eng) res obs = Inr p \<and> pAction p = ActionNoop)"
  using docker.mapper_idem [OF assms(1)] docker.plan_converged [OF assms, of eng] by simp

lemma ex_want_desired: "DesiredFields (rSpec ex_shop) = Inr ex_want"
  by code_simp

theorem docker_fields_roundtrip_witness:
  "\<exists>p. planFor (docker_NewActuator ex_engine) ex_shop \<lparr>oExists = True, oExternalID = ''4f'', oState = ''running'', oReady = True, oFields = ex_want\<rparr> =
     Inr p \<and> pAction p = ActionNoop"
  using docker_fields_roundtrip [OF ex_want_desired, of "\<lparr>oExists = True, oExternalID = ''4f'', oState = ''running'', oReady = True, oFields = ex_want\<rparr>" ex_engine]
  by simp


definition ex_plan :: plan where
  "ex_plan = \<lparr>pKind = KindApplication, pAction = ActionCreate, pChanges = [], pDesired = ex_shop\<rparr>"

lemma ex_applied:
  "docker_Apply ex_engine ex_plan 0 =
     (2, Inr \<lparr>tAction = ActionCreate, tExternalID = ''4f1c2d3e4a5b6c7d8e'', tMessage = ''container 4f1c2d3e4a5b running''\<rparr>)"
  "docker_Inspect ex_engine (RefFor ex_shop) 2 =
     (2, Inr \<lparr>oExists = True, oExternalID = ''4f1c2d3e4a5b6c7d8e'', oState = ''running'', oReady = True,
        oFields = [(''image'', ''nginx:1.25''), (''env.PATH'', ''/bin''), (''env.MODE'', ''web'')]\<rparr>)"
  "containerConfig ex_plan = Inr ex_config_body" "ContainerName (RefFor ex_shop) = ex_name"
  by code_simp+


text \<open>A spec the provider cannot map is refused for good and without a request. The plan and every Apply fail
  with a permanent error and the Engine is not called.\<close>

theorem docker_bad_spec_permanent:
  assumes "DesiredFields (rSpec res) = Inl e"
  shows "(\<exists>e'. PlanContainers cur res = Inl e' \<and> ClassOf e' = Permanent) \<and>
    (pDesired p = res \<and> pAction p \<noteq> ActionNoop \<longrightarrow>
      (\<exists>e'. docker_Apply eng p w = (w, Inl e') \<and> ClassOf e' = Permanent))"
  using assms by (cases "pAction p") (auto simp: PlanContainers_def docker_Apply_def Let_def ensure_def recreate_def containerConfig_def)

theorem docker_bad_spec_permanent_witness:
  "\<exists>e'. docker_Apply ex_engine (ex_plan\<lparr>pDesired := ex_app ''acme'' ''core'' []\<rparr>) 0 = (0, Inl e') \<and> ClassOf e' = Permanent"
proof -
  obtain e where "DesiredFields (rSpec (ex_app ''acme'' ''core'' [])) = Inl e"
    by (auto simp: DesiredFields_def spec_map_def spec_image_def ex_app_def TrimSpace_def)
  then show ?thesis
    using docker_bad_spec_permanent [of "ex_app ''acme'' ''core'' []" e None "ex_plan\<lparr>pDesired := ex_app ''acme'' ''core'' []\<rparr>" ex_engine 0]
    by (simp add: ex_plan_def)
qed

definition ex_other :: resource where "ex_other = ex_app ''acme'' ''core-shop'' ''redis:7''"


text \<open>C35: an equals sign in a variable name is accepted and never converges. The spec maps to a field that no
  inspection of any Engine can report, so every plan for the existing container recreates it.\<close>

theorem docker_equals_never_converges:
  assumes "DesiredFields (rSpec res) = Inr want" "k \<in> fst ` set want" "CHR ''='' \<in> set k"
    "docker_Inspect eng (RefFor res) w = (w1, Inr obs)" "oExists obs"
  shows "\<exists>p. planFor (docker_NewActuator eng) res obs = Inr p \<and> pAction p = ActionUpdate"
proof -
  have n: "map_of (oFields obs) k = None"
    using inspect_plain [OF assms(4)] assms(3) by (auto simp: plain_env_def map_of_eq_None_iff)
  have d: "distinct (map fst want)" using DesiredFields_normal [OF assms(1)] by (simp add: normal_fields_def)
  have drift: "CompareFields want got \<noteq> []" if "map_of got k = None" for got
    using CompareFields_mem [OF d, of k got] assms(2) that by (metis empty_iff empty_set map_of_eq_None_iff)
  show ?thesis
  proof (cases "normal_fields (oFields obs)")
    case True
    then show ?thesis using plan_observed [OF assms(1) True assms(5), of eng] drift [OF n] by auto
  next
    case False
    then obtain e where "DesiredFields (Some (FieldsToSpec (oFields obs))) = Inl e"
      using inspect_imageless [OF assms(4)] by blast
    then show ?thesis using assms(1,5) drift [of "[]"]
      by (simp add: planFor_def docker_NewActuator_def PlanContainers_def Let_def)
  qed
qed

definition ex_equals :: resource where
  "ex_equals = ex_shop\<lparr>rSpec := Some [(''env'', JObj [(''A=B'', JStr ''c'')]), (''image'', JStr ''nginx:1.25'')]\<rparr>"

theorem docker_equals_never_converges_witness:
  "Validate ex_env ex_equals = None \<and>
   (\<exists>obs p. docker_Inspect ex_engine (RefFor ex_equals) 2 = (2, Inr obs) \<and>
     planFor (docker_NewActuator ex_engine) ex_equals obs = Inr p \<and> pAction p = ActionUpdate)"
proof -
  have r: "RefFor ex_equals = RefFor ex_shop" by (simp add: ex_equals_def RefFor_def)
  have "Validate ex_env ex_equals = None"
    "DesiredFields (rSpec ex_equals) = Inr [(''image'', ''nginx:1.25''), (''env.A=B'', ''c'')]" by code_simp+
  then show ?thesis
    using docker_equals_never_converges [of ex_equals _ "''env.A=B''", OF _ _ _ ex_applied(2) [folded r]] ex_applied(2) r by auto
qed

end
