(* ===== verification/PgStore.thy ===== *)
theory PgStore
  imports Store Http
begin

text \<open>
  The PostgreSQL store, \<^verbatim>\<open>internal/state/pgstore\<close>. The database is a value: the rows of the two tables of
  \<^verbatim>\<open>migrations/0001_init.sql\<close> with their keys and column types, and the statements of the code are functions on it.
  Each method is one transaction on it. Whether a round trip to the server is served is a parameter (\<open>net\<close>), one
  outcome per statement of a method in the order the code issues them: a statement can fail, or be executed
  and its answer lost, which matters for a commit.
\<close>

section \<open>The database\<close>

record pg_row =
  kId :: string
  kOrg :: string
  kProject :: string
  kEnv :: string
  kKind :: string
  kName :: string
  kGeneration :: int
  kLabels :: json
  kSpec :: json
  kPhase :: string
  kMessage :: string
  kObservedGen :: int
  kStatusUpdatedAt :: "go_time option"
  kCreatedAt :: go_time
  kUpdatedAt :: go_time

record pg_db =
  pgResources :: "pg_row list"
  pgAudit :: "(int \<times> audit_entry) list"   \<comment> \<open>with the value of the column \<open>seq\<close>\<close>
  pgNextSeq :: int
  pgVersions :: "(int \<times> string) list"     \<comment> \<open>\<open>schema_migrations\<close>\<close>

datatype sql_error = UniqueViolation | SqlError string

datatype step = Served | Failed string | Lost string

fun sql_text :: "sql_error \<Rightarrow> string" where
  "sql_text UniqueViolation = ''pq: duplicate key value violates unique constraint''"
| "sql_text (SqlError e) = e"

definition isUniqueViolation :: "sql_error \<Rightarrow> bool" where
  "isUniqueViolation e \<longleftrightarrow> e = UniqueViolation"

subsection \<open>Column types\<close>

text \<open>A \<open>text\<close> value of a UTF-8 database: valid UTF-8 without the zero byte.\<close>

definition text_ok :: "string \<Rightarrow> bool" where
  "text_ok s \<longleftrightarrow> valid_utf8 s \<and> CHR 0x00 \<notin> set s"

fun has_nul :: "json \<Rightarrow> bool" where
  "has_nul (JStr s) \<longleftrightarrow> CHR 0x00 \<in> set s"
| "has_nul (JArr vs) \<longleftrightarrow> list_ex has_nul vs"
| "has_nul (JStrs ss) \<longleftrightarrow> list_ex (\<lambda>s. CHR 0x00 \<in> set s) ss"
| "has_nul (JObj m) \<longleftrightarrow> list_ex (\<lambda>kv. CHR 0x00 \<in> set (fst kv) \<or> has_nul (snd kv)) m"
| "has_nul v \<longleftrightarrow> False"

text \<open>A \<open>jsonb\<close> value is the value its text denotes; a string with \<open>\u0000\<close> has none.\<close>

definition jsonb_in :: "string \<Rightarrow> json option" where
  "jsonb_in s = (case unmarshal s of None \<Rightarrow> None | Some v \<Rightarrow> if has_nul v then None else Some v)"

text \<open>A \<open>timestamptz\<close> counts microseconds.\<close>

definition pg_ts :: "go_time \<Rightarrow> go_time" where
  "pg_ts t = (t + 500) div 1000 * 1000"

definition nowMicro :: "go_time \<Rightarrow> go_time" where
  "nowMicro t = t - t mod 1000"

definition nullTime :: "go_time \<Rightarrow> go_time option" where
  "nullTime t = (if t = 0 then None else Some t)"

subsection \<open>Statements\<close>

text \<open>A statement with its text parameters: refused when the round trip fails or a parameter is no text.\<close>

definition query :: "step \<Rightarrow> string list \<Rightarrow> (sql_error + 'a) \<Rightarrow> sql_error + 'a" where
  "query st args res =
     (case st of
        Served \<Rightarrow> if list_all text_ok args then res else Inl (SqlError ''pq: invalid byte sequence for encoding UTF8'')
      | Failed e \<Rightarrow> Inl (SqlError e)
      | Lost e \<Rightarrow> Inl (SqlError e))"

text \<open>\<open>Commit\<close> of a transaction on \<open>db\<close> that has reached \<open>tx\<close>; every other exit of a method rolls back to \<open>db\<close>.\<close>

definition commit :: "step \<Rightarrow> pg_db \<Rightarrow> pg_db \<Rightarrow> string \<Rightarrow> 'a \<Rightarrow> pg_db \<times> (go_error + 'a)" where
  "commit st db tx site x =
     (case st of
        Served \<Rightarrow> (tx, Inr x)
      | Failed e \<Rightarrow> (db, Inl (ErrOther (site @ e)))
      | Lost e \<Rightarrow> (tx, Inl (ErrOther (site @ e))))"

definition marshal_labels :: "(string \<times> string) list option \<Rightarrow> string" where
  "marshal_labels ls = (case ls of None \<Rightarrow> ''null'' | Some m \<Rightarrow> marshal (JObj (map (\<lambda>(k, v). (k, JStr v)) m)))"

text \<open>The column values of a resource; \<open>None\<close> when a JSON column refuses its text.\<close>

definition resource_row :: "resource \<Rightarrow> pg_row option" where
  "resource_row r =
     (case (jsonb_in (marshal_labels (rLabels r)), jsonb_in (marshal_spec (rSpec r))) of
        (Some ls, Some sp) \<Rightarrow>
          Some \<lparr>kId = rID r, kOrg = rOrg r, kProject = rProject r, kEnv = rEnv r, kKind = rKind r, kName = rName r,
                kGeneration = rGeneration r, kLabels = ls, kSpec = sp, kPhase = sPhase (rStatus r),
                kMessage = sMessage (rStatus r), kObservedGen = sObservedGen (rStatus r),
                kStatusUpdatedAt = map_option pg_ts (nullTime (sUpdatedAt (rStatus r))),
                kCreatedAt = pg_ts (rCreatedAt r), kUpdatedAt = pg_ts (rUpdatedAt r)\<rparr>
      | _ \<Rightarrow> None)"

definition row_texts :: "resource \<Rightarrow> string list" where
  "row_texts r = [rID r, rOrg r, rProject r, rEnv r, rKind r, rName r, sPhase (rStatus r), sMessage (rStatus r)]"

definition same_address :: "pg_row \<Rightarrow> pg_row \<Rightarrow> bool" where
  "same_address a b \<longleftrightarrow>
     kOrg a = kOrg b \<and> kProject a = kProject b \<and> kEnv a = kEnv b \<and> kKind a = kKind b \<and> kName a = kName b"

definition insert_resource :: "resource \<Rightarrow> pg_db \<Rightarrow> sql_error + pg_db" where
  "insert_resource r db =
     (case resource_row r of
        None \<Rightarrow> Inl (SqlError ''pq: unsupported Unicode escape sequence'')
      | Some row \<Rightarrow>
          if list_ex (\<lambda>x. kId x = kId row \<or> same_address x row) (pgResources db) then Inl UniqueViolation
          else Inr (db\<lparr>pgResources := pgResources db @ [row]\<rparr>))"

text \<open>\<open>UPDATE resources SET ... WHERE id=$1 AND generation=$16\<close>, with the number of rows it hit.\<close>

definition update_resource :: "string \<Rightarrow> int \<Rightarrow> resource \<Rightarrow> pg_db \<Rightarrow> sql_error + (nat \<times> pg_db)" where
  "update_resource i g r db =
     (case resource_row r of
        None \<Rightarrow> Inl (SqlError ''pq: unsupported Unicode escape sequence'')
      | Some row \<Rightarrow>
          let hit = (\<lambda>x. kId x = i \<and> kGeneration x = g); new = row\<lparr>kId := i\<rparr>
          in if list_ex hit (pgResources db) \<and> list_ex (\<lambda>x. kId x \<noteq> i \<and> same_address x new) (pgResources db)
             then Inl UniqueViolation
             else Inr (length (filter hit (pgResources db)),
                       db\<lparr>pgResources := map (\<lambda>x. if hit x then new else x) (pgResources db)\<rparr>))"

definition update_status :: "string \<Rightarrow> string \<Rightarrow> string \<Rightarrow> go_time \<Rightarrow> go_time \<Rightarrow> pg_db \<Rightarrow> pg_db" where
  "update_status i phase message stUp upAt db =
     db\<lparr>pgResources := map (\<lambda>x.
        if kId x = i
        then x\<lparr>kPhase := phase, kMessage := message, kObservedGen := kGeneration x,
               kStatusUpdatedAt := map_option pg_ts (nullTime stUp), kUpdatedAt := pg_ts upAt\<rparr>
        else x) (pgResources db)\<rparr>"

definition delete_resource :: "string \<Rightarrow> pg_db \<Rightarrow> pg_db" where
  "delete_resource i db = db\<lparr>pgResources := filter (\<lambda>x. kId x \<noteq> i) (pgResources db)\<rparr>"

definition audit_texts :: "audit_entry \<Rightarrow> string list" where
  "audit_texts e = [aID e, aActor e, aAction e, aResourceID e, aKind e, aLogicalKey e, aReason e]"

definition insert_audit_row :: "audit_entry \<Rightarrow> pg_db \<Rightarrow> sql_error + pg_db" where
  "insert_audit_row e db =
     (if list_ex (\<lambda>(n, x). aID x = aID e) (pgAudit db) then Inl UniqueViolation
      else Inr (db\<lparr>pgAudit := pgAudit db @ [(pgNextSeq db, e\<lparr>aTime := pg_ts (aTime e)\<rparr>)], pgNextSeq := pgNextSeq db + 1\<rparr>))"

section \<open>Helpers of the package\<close>

definition scan_labels :: "json \<Rightarrow> go_error + (string \<times> string) list option" where
  "scan_labels v =
     (case unmarshal (marshal v) of
        Some JNull \<Rightarrow> Inr None
      | Some (JObj m) \<Rightarrow>
          (case string_values m of
             None \<Rightarrow> Inl (ErrOther ''pgstore: decode labels: json'')
           | Some ls \<Rightarrow> Inr (Some ls))
      | _ \<Rightarrow> Inl (ErrOther ''pgstore: decode labels: json''))"

definition scan_spec :: "json \<Rightarrow> go_error + jobj option" where
  "scan_spec v =
     (case unmarshal (marshal v) of
        Some JNull \<Rightarrow> Inr None
      | Some (JObj m) \<Rightarrow> Inr (Some m)
      | _ \<Rightarrow> Inl (ErrOther ''pgstore: decode spec: json''))"

definition scanResource :: "pg_row \<Rightarrow> go_error + resource" where
  "scanResource row =
     (case scan_labels (kLabels row) of
        Inl e \<Rightarrow> Inl e
      | Inr ls \<Rightarrow>
          (case scan_spec (kSpec row) of
             Inl e \<Rightarrow> Inl e
           | Inr sp \<Rightarrow>
               Inr \<lparr>rID = kId row, rKind = kKind row, rOrg = kOrg row, rProject = kProject row, rEnv = kEnv row,
                    rName = kName row, rGeneration = kGeneration row, rLabels = ls, rSpec = sp,
                    rStatus = \<lparr>sPhase = kPhase row, sMessage = kMessage row, sObservedGen = kObservedGen row,
                      sUpdatedAt = (case kStatusUpdatedAt row of None \<Rightarrow> 0 | Some t \<Rightarrow> t)\<rparr>,
                    rCreatedAt = kCreatedAt row, rUpdatedAt = kUpdatedAt row\<rparr>))"

definition insertAudit :: "step \<Rightarrow> audit_entry \<Rightarrow> pg_db \<Rightarrow> sql_error + pg_db" where
  "insertAudit st e db = query st (audit_texts e) (insert_audit_row e db)"

definition auditFor :: "io \<Rightarrow> string \<Rightarrow> string \<Rightarrow> resource \<Rightarrow> go_time \<Rightarrow> audit_entry" where
  "auditFor io actor action r ts =
     \<lparr>aID = newAuditID (ioAuditRand io), aTime = ts, aActor = actor, aAction = action, aResourceID = rID r,
      aKind = rKind r, aLogicalKey = LogicalKey r, aGeneration = rGeneration r, aReason = []\<rparr>"

text \<open>The one row of a query by a unique key: \<open>None\<close> is \<open>sql.ErrNoRows\<close>.\<close>

definition query_row :: "step \<Rightarrow> string list \<Rightarrow> string \<Rightarrow> (pg_row \<Rightarrow> bool) \<Rightarrow> pg_db \<Rightarrow> go_error + resource" where
  "query_row st args site P db =
     (case query st args (Inr (find P (pgResources db))) of
        Inl e \<Rightarrow> Inl (ErrOther (site @ sql_text e))
      | Inr None \<Rightarrow> Inl ErrNotFound
      | Inr (Some row) \<Rightarrow>
          (case scanResource row of
             Inl (ErrOther e) \<Rightarrow> Inl (ErrOther (site @ e))
           | Inl e \<Rightarrow> Inl e
           | Inr r \<Rightarrow> Inr r))"

section \<open>Methods\<close>

type_synonym net = "nat \<Rightarrow> step"

definition pg_stored :: "io \<Rightarrow> resource \<Rightarrow> resource" where
  "pg_stored io r =
     (let now = nowMicro (ioNow io); copy = DeepCopy r; st = rStatus copy
      in copy\<lparr>rID := newID (ioRand io), rGeneration := 1, rCreatedAt := now, rUpdatedAt := now,
              rStatus := st\<lparr>sPhase := (if sPhase st = [] then PhasePending else sPhase st), sObservedGen := 0, sUpdatedAt := now\<rparr>\<rparr>)"

definition pg_CreateResource ::
    "egress_env \<Rightarrow> io \<Rightarrow> net \<Rightarrow> resource option \<Rightarrow> write_options \<Rightarrow> pg_db \<Rightarrow> pg_db \<times> (go_error + resource)" where
  "pg_CreateResource env io net ro opts db =
     (case ro of
        None \<Rightarrow> (db, Inl ErrValidation)
      | Some r \<Rightarrow>
          (case Validate env r of
             Some e \<Rightarrow> (db, Inl e)
           | None \<Rightarrow>
               let stored = pg_stored io r
               in case query (net 0) [] (Inr db) of
                    Inl e \<Rightarrow> (db, Inl (ErrOther (''pgstore: create begin: '' @ sql_text e)))
                  | Inr tx \<Rightarrow>
                      (case query (net 1) (row_texts stored) (insert_resource stored tx) of
                         Inl e \<Rightarrow> (db, Inl (if isUniqueViolation e then ErrAlreadyExists
                                           else ErrOther (''pgstore: create insert: '' @ sql_text e)))
                       | Inr tx1 \<Rightarrow>
                           (case insertAudit (net 2) (auditFor io (or_actor ''anonymous'' opts) ''created'' stored
                                   (nowMicro (ioNow io))) tx1 of
                              Inl e \<Rightarrow> (db, Inl (ErrOther (''pgstore: create audit: '' @ sql_text e)))
                            | Inr tx2 \<Rightarrow> commit (net 3) db tx2 ''pgstore: create commit: '' (DeepCopy stored)))))"

definition pg_GetResource :: "net \<Rightarrow> string \<Rightarrow> pg_db \<Rightarrow> go_error + resource" where
  "pg_GetResource net i db = query_row (net 0) [i] (''pgstore: get '' @ i @ '': '') (\<lambda>x. kId x = i) db"

definition pg_GetByLogicalKey ::
    "net \<Rightarrow> string \<Rightarrow> string \<Rightarrow> string \<Rightarrow> string \<Rightarrow> string \<Rightarrow> pg_db \<Rightarrow> go_error + resource" where
  "pg_GetByLogicalKey net org project env kind name db =
     query_row (net 0) [org, project, env, kind, name]
       (''pgstore: get '' @ Join ''/'' [org, project, env, kind, name] @ '': '')
       (\<lambda>x. kOrg x = org \<and> kProject x = project \<and> kEnv x = env \<and> kKind x = kind \<and> kName x = name) db"

definition row_match :: "list_options \<Rightarrow> pg_row \<Rightarrow> bool" where
  "row_match o' x \<longleftrightarrow>
     (oOrg o' = [] \<or> kOrg x = oOrg o') \<and> (oProject o' = [] \<or> kProject x = oProject o') \<and>
     (oEnv o' = [] \<or> kEnv x = oEnv o') \<and> (oKind o' = [] \<or> kKind x = oKind o')"

fun scan_rows :: "string \<Rightarrow> pg_row list \<Rightarrow> go_error + resource list" where
  "scan_rows site [] = Inr []"
| "scan_rows site (x # xs) =
     (case scanResource x of
        Inl (ErrOther e) \<Rightarrow> Inl (ErrOther (site @ e))
      | Inl e \<Rightarrow> Inl e
      | Inr r \<Rightarrow> (case scan_rows site xs of Inl e \<Rightarrow> Inl e | Inr rs \<Rightarrow> Inr (r # rs)))"

text \<open>\<open>SELECT ... ORDER BY created_at, id LIMIT limit+1 OFFSET offset\<close>\<close>

definition pg_ListResources :: "net \<Rightarrow> list_options \<Rightarrow> pg_db \<Rightarrow> go_error + (resource list \<times> string)" where
  "pg_ListResources net o' db =
     (case (if oCursor o' = [] then Inr 0 else decodeCursor (oCursor o')) of
        Inl e \<Rightarrow> Inl e
      | Inr n \<Rightarrow>
          let offset = unat n; limit = list_limit (oLimit o');
              rows = take (limit + 1) (drop offset
                       (sort_key (\<lambda>x. (kCreatedAt x, kId x)) (filter (row_match o') (pgResources db))))
          in case query (net 0) [oOrg o', oProject o', oEnv o', oKind o'] (Inr rows) of
               Inl e \<Rightarrow> Inl (ErrOther (''pgstore: list: '' @ sql_text e))
             | Inr rs \<Rightarrow>
                 (case scan_rows ''pgstore: list scan: '' rs of
                    Inl e \<Rightarrow> Inl e
                  | Inr page \<Rightarrow>
                      if length page > limit then Inr (take limit page, encodeCursor (word_of_nat (offset + limit)))
                      else Inr (page, [])))"

text \<open>The part of an update after validation: the guarded \<open>UPDATE\<close>, the probe for the reason when it hits no
  row, and the audit entry of an actual change.\<close>

definition pg_write_update ::
    "io \<Rightarrow> net \<Rightarrow> string \<Rightarrow> resource \<Rightarrow> resource \<Rightarrow> update_options \<Rightarrow> pg_db \<Rightarrow> pg_db \<Rightarrow> pg_db \<times> (go_error + resource)" where
  "pg_write_update io net i cur w o' db tx =
     (let changed = \<not> specLabelsEqual cur w;
          now = nowMicro (ioNow io);
          work = w\<lparr>rGeneration := (if changed then wrap64 (rGeneration cur + 1) else rGeneration cur),
                   rUpdatedAt := (if changed then now else rUpdatedAt w)\<rparr>
      in case query (net 2) (i # tl (row_texts work)) (update_resource i (rGeneration cur) work tx) of
           Inl e \<Rightarrow> (db, Inl (if isUniqueViolation e then ErrAlreadyExists
                             else ErrOther (''pgstore: update '' @ i @ '': '' @ sql_text e)))
         | Inr (0, tx1) \<Rightarrow>
             (case query (net 3) [i] (Inr (list_ex (\<lambda>x. kId x = i) (pgResources tx1))) of
                Inl e \<Rightarrow> (db, Inl (ErrOther (''pgstore: update probe '' @ i @ '': '' @ sql_text e)))
              | Inr exists \<Rightarrow> (db, Inl (if \<not> exists then ErrNotFound else ErrConflict)))
         | Inr (Suc n, tx1) \<Rightarrow>
             (case (if changed
                    then insertAudit (net 4) (auditFor io (or_actor ''anonymous'' (uWrite o')) ''updated'' work now) tx1
                    else Inr tx1) of
                Inl e \<Rightarrow> (db, Inl (ErrOther (''pgstore: update audit: '' @ sql_text e)))
              | Inr tx2 \<Rightarrow> commit (net 5) db tx2 ''pgstore: update commit: '' (DeepCopy work)))"

definition pg_UpdateResource ::
    "egress_env \<Rightarrow> io \<Rightarrow> net \<Rightarrow> string \<Rightarrow> (resource \<Rightarrow> go_error + resource) \<Rightarrow> update_options \<Rightarrow> pg_db
     \<Rightarrow> pg_db \<times> (go_error + resource)" where
  "pg_UpdateResource env io net i fn o' db =
     (case query (net 0) [] (Inr db) of
        Inl e \<Rightarrow> (db, Inl (ErrOther (''pgstore: update begin: '' @ sql_text e)))
      | Inr tx \<Rightarrow>
          (case query_row (net 1) [i] (''pgstore: update select '' @ i @ '': '') (\<lambda>x. kId x = i) tx of
             Inl e \<Rightarrow> (db, Inl e)
           | Inr cur \<Rightarrow>
               if uExpectedGeneration o' \<noteq> 0 \<and> uExpectedGeneration o' \<noteq> rGeneration cur then (db, Inl ErrConflict)
               else case fn (DeepCopy cur) of
                 Inl e \<Rightarrow> (db, Inl e)
               | Inr w \<Rightarrow>
                   (case Validate env w of
                      Some e \<Rightarrow> (db, Inl e)
                    | None \<Rightarrow> pg_write_update io net i cur w o' db tx)))"

text \<open>A method that returns an error only: \<open>None\<close> is nil.\<close>

definition only_error :: "pg_db \<times> (go_error + unit) \<Rightarrow> pg_db \<times> go_error option" where
  "only_error res = (fst res, case snd res of Inl e \<Rightarrow> Some e | Inr u \<Rightarrow> None)"

definition pg_UpdateStatus ::
    "io \<Rightarrow> net \<Rightarrow> string \<Rightarrow> string \<Rightarrow> string \<Rightarrow> write_options \<Rightarrow> pg_db \<Rightarrow> pg_db \<times> go_error option" where
  "pg_UpdateStatus io net i phase message actor db =
     only_error
       (case query (net 0) [] (Inr db) of
          Inl e \<Rightarrow> (db, Inl (ErrOther (''pgstore: status begin: '' @ sql_text e)))
        | Inr tx \<Rightarrow>
            (case query_row (net 1) [i] (''pgstore: status select '' @ i @ '': '') (\<lambda>x. kId x = i) tx of
               Inl e \<Rightarrow> (db, Inl e)
             | Inr cur \<Rightarrow>
                 let now = nowMicro (ioNow io);
                     changed = (sPhase (rStatus cur) \<noteq> phase \<or> sMessage (rStatus cur) \<noteq> message);
                     stUp = (if changed then now else sUpdatedAt (rStatus cur));
                     upAt = (if changed then now else rUpdatedAt cur)
                 in case query (net 2) [phase, message, i] (Inr (update_status i phase message stUp upAt tx)) of
                      Inl e \<Rightarrow> (db, Inl (ErrOther (''pgstore: status update '' @ i @ '': '' @ sql_text e)))
                    | Inr tx1 \<Rightarrow>
                        (case insertAudit (net 3) (auditFor io (or_actor ''reconciler'' actor) ''status_changed'' cur now) tx1 of
                           Inl e \<Rightarrow> (db, Inl (ErrOther (''pgstore: status audit: '' @ sql_text e)))
                         | Inr tx2 \<Rightarrow> commit (net 4) db tx2 ''pgstore: status commit: '' ())))"

definition pg_DeleteResource :: "io \<Rightarrow> net \<Rightarrow> string \<Rightarrow> write_options \<Rightarrow> pg_db \<Rightarrow> pg_db \<times> go_error option" where
  "pg_DeleteResource io net i opts db =
     only_error
       (case query (net 0) [] (Inr db) of
          Inl e \<Rightarrow> (db, Inl (ErrOther (''pgstore: delete begin: '' @ sql_text e)))
        | Inr tx \<Rightarrow>
            (case query_row (net 1) [i] (''pgstore: delete select '' @ i @ '': '') (\<lambda>x. kId x = i) tx of
               Inl e \<Rightarrow> (db, Inl e)
             | Inr cur \<Rightarrow>
                 (case query (net 2) [i] (Inr (delete_resource i tx)) of
                    Inl e \<Rightarrow> (db, Inl (ErrOther (''pgstore: delete '' @ i @ '': '' @ sql_text e)))
                  | Inr tx1 \<Rightarrow>
                      (case insertAudit (net 3) (auditFor io (or_actor ''anonymous'' opts) ''deleted'' cur (nowMicro (ioNow io))) tx1 of
                         Inl e \<Rightarrow> (db, Inl (ErrOther (''pgstore: delete audit: '' @ sql_text e)))
                       | Inr tx2 \<Rightarrow> commit (net 4) db tx2 ''pgstore: delete commit: '' ()))))"

definition pg_Ping :: "net \<Rightarrow> pg_db \<Rightarrow> go_error option" where
  "pg_Ping net db = (case query (net 0) [] (Inr ()) of Inl e \<Rightarrow> Some (ErrOther (sql_text e)) | Inr u \<Rightarrow> None)"

definition pg_Count :: "net \<Rightarrow> pg_db \<Rightarrow> go_error + nat" where
  "pg_Count net db =
     (case query (net 0) [] (Inr (length (pgResources db))) of
        Inl e \<Rightarrow> Inl (ErrOther (''pgstore: count: '' @ sql_text e)) | Inr n \<Rightarrow> Inr n)"

text \<open>\<open>SELECT kind, phase, COUNT(*) FROM resources GROUP BY kind, phase\<close>, in the order of first appearance.\<close>

definition group_counts :: "pg_row list \<Rightarrow> (string \<times> string \<times> int) list" where
  "group_counts rows =
     map (\<lambda>(k, p). (k, p, int (length (filter (\<lambda>x. kKind x = k \<and> kPhase x = p) rows))))
       (remdups (map (\<lambda>x. (kKind x, kPhase x)) rows))"

definition add_group :: "string \<times> string \<times> int \<Rightarrow> (string, (string, int) gomap) gomap \<Rightarrow> (string, (string, int) gomap) gomap" where
  "add_group g out =
     (case g of (k, p, n) \<Rightarrow>
        let ph = (case map_of out k of None \<Rightarrow> [] | Some m \<Rightarrow> m)
        in AList.update k (AList.update p ((case map_of ph p of None \<Rightarrow> 0 | Some c \<Rightarrow> c) + n) ph) out)"

definition pg_CountByKindPhase :: "net \<Rightarrow> pg_db \<Rightarrow> go_error + (string, (string, int) gomap) gomap" where
  "pg_CountByKindPhase net db =
     (case query (net 0) [] (Inr (group_counts (pgResources db))) of
        Inl e \<Rightarrow> Inl (ErrOther (''pgstore: count by kind/phase: '' @ sql_text e))
      | Inr gs \<Rightarrow> Inr (fold add_group gs []))"

section \<open>The audit log\<close>

definition auditQueryLimit :: int where "auditQueryLimit = 1000"

text \<open>\<open>s LIKE p ESCAPE '\'\<close>; a pattern that ends in its escape character is an error, here no match.\<close>

function sql_like :: "string \<Rightarrow> string \<Rightarrow> bool" where
  "sql_like [] s \<longleftrightarrow> s = []"
| "sql_like (p # ps) s \<longleftrightarrow>
     (if p = CHR ''%'' then sql_like ps s \<or> (case s of [] \<Rightarrow> False | c # cs \<Rightarrow> sql_like (p # ps) cs)
      else if p = CHR ''_'' then (case s of [] \<Rightarrow> False | c # cs \<Rightarrow> sql_like ps (drop (case utf8_next s of None \<Rightarrow> 1 | Some n \<Rightarrow> n) s))
      else if p = CHR 0x5C then (case ps of [] \<Rightarrow> False | q # qs \<Rightarrow> (case s of [] \<Rightarrow> False | c # cs \<Rightarrow> c = q \<and> sql_like qs cs))
      else (case s of [] \<Rightarrow> False | c # cs \<Rightarrow> c = p \<and> sql_like ps cs))"
  by pat_completeness auto
termination by (relation "measures [\<lambda>(p, s). length p + length s]") auto

definition ReplaceChar :: "char \<Rightarrow> string \<Rightarrow> string \<Rightarrow> string" where
  "ReplaceChar c by s = concat (map (\<lambda>d. if d = c then by else [d]) s)"

definition escapeLike :: "string \<Rightarrow> string" where
  "escapeLike s =
     ReplaceChar (CHR ''_'') [CHR 0x5C, CHR ''_'']
       (ReplaceChar (CHR ''%'') [CHR 0x5C, CHR ''%''] (ReplaceChar (CHR 0x5C) [CHR 0x5C, CHR 0x5C] s))"

definition audit_row_match :: "audit_options \<Rightarrow> audit_entry \<Rightarrow> bool" where
  "audit_row_match o' e \<longleftrightarrow>
     (qOrg o' = [] \<or> sql_like (escapeLike (qOrg o') @ ''/%'') (aLogicalKey e)) \<and> (qKind o' = [] \<or> aKind e = qKind o')"

definition pg_audit_limit :: "int \<Rightarrow> nat" where
  "pg_audit_limit l = (if l \<le> 0 \<or> l > auditQueryLimit then 100 else nat l)"

definition pg_ListAudit :: "net \<Rightarrow> audit_options \<Rightarrow> pg_db \<Rightarrow> go_error + audit_entry list" where
  "pg_ListAudit net o' db =
     (case (if qCursor o' = [] then Inr 0 else decodeCursor (qCursor o')) of
        Inl e \<Rightarrow> Inl ErrBadRequest
      | Inr n \<Rightarrow>
          let rows = filter (audit_row_match o') (map snd (rev (sort_key fst (pgAudit db))))
          in case query (net 0) [qOrg o', qKind o'] (Inr (take (pg_audit_limit (qLimit o')) (drop (unat n) rows))) of
               Inl e \<Rightarrow> Inl (ErrOther (''pgstore: list audit: '' @ sql_text e))
             | Inr es \<Rightarrow> Inr es)"

definition pg_AppendAudit :: "io \<Rightarrow> net \<Rightarrow> audit_entry \<Rightarrow> pg_db \<Rightarrow> pg_db \<times> (go_error + audit_entry)" where
  "pg_AppendAudit io net e db =
     (let e1 = e\<lparr>aID := (if aID e = [] then newAuditID (ioAuditRand io) else aID e),
                 aTime := (if aTime e = 0 then nowMicro (ioNow io) else aTime e)\<rparr>;
          site = ''pgstore: append audit entry '' @ aID e1 @ '' ('' @ aAction e1 @ '' by '' @ aActor e1 @ ''): ''
      in case insertAudit (case net 0 of Lost x \<Rightarrow> Served | st \<Rightarrow> st) e1 db of
           Inl err \<Rightarrow> (db, Inl (ErrOther (site @ sql_text err)))
         | Inr db1 \<Rightarrow> (db1, case net 0 of Lost x \<Rightarrow> Inl (ErrOther (site @ x)) | _ \<Rightarrow> Inr e1))"

section \<open>Construction\<close>

definition defaultMaxOpenConns :: int where "defaultMaxOpenConns = 25"
definition defaultMaxIdleConns :: int where "defaultMaxIdleConns = 10"

definition envPositiveInt :: "string \<Rightarrow> int \<Rightarrow> int" where
  "envPositiveInt v def =
     (let v1 = TrimSpace v
      in if v1 = [] then def else case Atoi v1 of None \<Rightarrow> def | Some n \<Rightarrow> if n \<le> 0 then def else n)"

definition poolLimitsFromEnv :: "(string \<Rightarrow> string) \<Rightarrow> int \<times> int" where
  "poolLimitsFromEnv getenv =
     (let maxOpen = envPositiveInt (getenv ''RYVEX_PG_MAX_OPEN_CONNS'') defaultMaxOpenConns;
          maxIdle = envPositiveInt (getenv ''RYVEX_PG_MAX_IDLE_CONNS'') defaultMaxIdleConns
      in (maxOpen, if maxIdle > maxOpen then maxOpen else maxIdle))"

text \<open>\<open>Migrate\<close>: the statements of a migration are idempotent (\<open>IF NOT EXISTS\<close>); what it changes of the modelled
  state is the record of applied versions.\<close>

definition migrations :: "(int \<times> string) list" where
  "migrations = [(1, ''init'')]"

fun migrate_all :: "net \<Rightarrow> nat \<Rightarrow> (int \<times> string) list \<Rightarrow> pg_db \<Rightarrow> pg_db \<times> go_error option" where
  "migrate_all net k [] db = (db, None)"
| "migrate_all net k ((v, name) # ms) db =
     (case query (net k) [] (Inr (v \<in> fst ` set (pgVersions db))) of
        Inl e \<Rightarrow> (db, Some (ErrOther (''pgstore: check migration '' @ dec_int v @ '': '' @ sql_text e)))
      | Inr True \<Rightarrow> migrate_all net (k + 1) ms db
      | Inr False \<Rightarrow>
          (case query (net (k + 1)) [] (Inr db) of
             Inl e \<Rightarrow> (db, Some (ErrOther (''pgstore: begin migration '' @ dec_int v @ '': '' @ sql_text e)))
           | Inr tx \<Rightarrow>
               (case query (net (k + 2)) [] (Inr tx) of
                  Inl e \<Rightarrow> (db, Some (ErrOther (''pgstore: apply migration '' @ dec_int v @ '' ('' @ name @ ''): '' @ sql_text e)))
                | Inr tx1 \<Rightarrow>
                    (case query (net (k + 3)) [name] (Inr (tx1\<lparr>pgVersions := pgVersions tx1 @ [(v, name)]\<rparr>)) of
                       Inl e \<Rightarrow> (db, Some (ErrOther (''pgstore: record migration '' @ dec_int v @ '': '' @ sql_text e)))
                     | Inr tx2 \<Rightarrow>
                         (case commit (net (k + 4)) db tx2 (''pgstore: commit migration '' @ dec_int v @ '': '') () of
                            (db1, Inl e) \<Rightarrow> (db1, Some e)
                          | (db1, Inr u) \<Rightarrow> migrate_all net (k + 5) ms db1)))))"

definition Migrate :: "net \<Rightarrow> pg_db \<Rightarrow> pg_db \<times> go_error option" where
  "Migrate net db =
     (case query (net 0) [] (Inr db) of
        Inl e \<Rightarrow> (db, Some (ErrOther (''pgstore: ensure schema_migrations: '' @ sql_text e)))
      | Inr db1 \<Rightarrow> migrate_all net 1 migrations db1)"

definition SchemaVersion :: "net \<Rightarrow> pg_db \<Rightarrow> go_error + int" where
  "SchemaVersion net db =
     (case query (net 0) [] (Inr (fold max (map fst (pgVersions db)) 0)) of
        Inl e \<Rightarrow> Inl (ErrOther (sql_text e)) | Inr v \<Rightarrow> Inr v)"

definition pg_empty :: pg_db where
  "pg_empty = \<lparr>pgResources = [], pgAudit = [], pgNextSeq = 1, pgVersions = []\<rparr>"

definition all_served :: net where "all_served k = Served"

end
