(* ===== verification/PgStore_Laws.thy ===== *)
theory PgStore_Laws
  imports PgStore Store_Laws
begin

text \<open>
  The PostgreSQL store implements the in-memory store: a simulation between the two states under which every
  method gives the same results, and the atomicity of its methods when the server fails.
\<close>

section \<open>Rows and resources\<close>

abbreviation labels_json :: "(string \<times> string) list option \<Rightarrow> json" where
  "labels_json ls \<equiv> (case ls of None \<Rightarrow> JNull | Some m \<Rightarrow> JObj (map (\<lambda>(k, v). (k, JStr v)) m))"

abbreviation spec_json :: "jobj option \<Rightarrow> json" where
  "spec_json sp \<equiv> (case sp of None \<Rightarrow> JNull | Some m \<Rightarrow> JObj m)"

definition micro :: "go_time \<Rightarrow> bool" where
  "micro t \<longleftrightarrow> t mod 1000 = 0"

text \<open>A resource whose fields the columns hold exactly: text without zero bytes, decoded JSON, whole
  microseconds.\<close>

definition storable :: "resource \<Rightarrow> bool" where
  "storable r \<longleftrightarrow> list_all text_ok (row_texts r) \<and>
     wf_json (labels_json (rLabels r)) \<and> \<not> has_nul (labels_json (rLabels r)) \<and>
     wf_json (spec_json (rSpec r)) \<and> \<not> has_nul (spec_json (rSpec r)) \<and>
     micro (rCreatedAt r) \<and> micro (rUpdatedAt r) \<and> micro (sUpdatedAt (rStatus r))"

definition row_of :: "resource \<Rightarrow> pg_row" where
  "row_of r =
     \<lparr>kId = rID r, kOrg = rOrg r, kProject = rProject r, kEnv = rEnv r, kKind = rKind r, kName = rName r,
      kGeneration = rGeneration r, kLabels = labels_json (rLabels r), kSpec = spec_json (rSpec r),
      kPhase = sPhase (rStatus r), kMessage = sMessage (rStatus r), kObservedGen = sObservedGen (rStatus r),
      kStatusUpdatedAt = nullTime (sUpdatedAt (rStatus r)), kCreatedAt = rCreatedAt r, kUpdatedAt = rUpdatedAt r\<rparr>"

lemma row_of_simps [simp]:
  "kId (row_of r) = rID r" "kGeneration (row_of r) = rGeneration r" "kKind (row_of r) = rKind r"
  "kPhase (row_of r) = sPhase (rStatus r)" "kCreatedAt (row_of r) = rCreatedAt r"
  "same_address (row_of a) (row_of b) \<longleftrightarrow>
     rOrg a = rOrg b \<and> rProject a = rProject b \<and> rEnv a = rEnv b \<and> rKind a = rKind b \<and> rName a = rName b"
  by (simp_all add: row_of_def same_address_def)

lemma pg_ts_micro [simp]: "micro t \<Longrightarrow> pg_ts t = t"
proof -
  assume "micro t"
  then have "t = t div 1000 * 1000" unfolding micro_def by (metis add.right_neutral div_mult_mod_eq)
  moreover from this have "(t + 500) div 1000 = t div 1000" by linarith
  ultimately show ?thesis by (simp add: pg_ts_def)
qed

lemma micro_now [simp]: "micro (nowMicro t)"
  by (simp add: micro_def nowMicro_def mod_diff_eq)

lemma nowMicro_id [simp]: "micro t \<Longrightarrow> nowMicro t = t"
  by (simp add: micro_def nowMicro_def)

lemma jsonb_in_json: "wf_json v \<Longrightarrow> \<not> has_nul v \<Longrightarrow> jsonb_in (marshal v) = Some v"
  by (simp add: jsonb_in_def unmarshal_marshal)

lemma marshal_labels_json: "marshal_labels ls = marshal (labels_json ls)"
  by (simp add: marshal_labels_def split: option.split)

lemma marshal_spec_json: "marshal_spec sp = marshal (spec_json sp)"
  by (simp add: marshal_spec_def split: option.split)

lemma resource_row_storable: "storable r \<Longrightarrow> resource_row r = Some (row_of r)"
  unfolding resource_row_def marshal_labels_json marshal_spec_json
  by (auto simp: storable_def jsonb_in_json row_of_def nullTime_def simp del: wf_json.simps has_nul.simps marshal.simps)

lemma string_values_map: "string_values (map (\<lambda>(k, v). (k, JStr v)) m) = Some m"
  by (induction m) auto

lemma scan_row_of [simp]: "storable r \<Longrightarrow> scanResource (row_of r) = Inr r"
proof -
  assume s: "storable r"
  have l: "scan_labels (labels_json (rLabels r)) = Inr (rLabels r)"
    using s unmarshal_marshal [of "labels_json (rLabels r)"]
    by (auto simp: scan_labels_def storable_def string_values_map simp del: wf_json.simps marshal.simps split: option.splits)
  have "scan_spec (spec_json (rSpec r)) = Inr (rSpec r)"
    using s unmarshal_marshal [of "spec_json (rSpec r)"]
    by (auto simp: scan_spec_def storable_def simp del: wf_json.simps marshal.simps split: option.splits)
  then show ?thesis using l
    by (cases r; cases "rStatus r") (auto simp: scanResource_def row_of_def nullTime_def split: option.splits)
qed

lemma storable_wf: "storable r \<Longrightarrow> wf_spec (rSpec r)"
  by (auto simp: storable_def wf_spec_def split: option.splits)

section \<open>The simulation\<close>

definition mirrors :: "pg_db \<Rightarrow> store \<Rightarrow> bool" where
  "mirrors db s \<longleftrightarrow>
     pgResources db = map (\<lambda>(i, r). row_of r) (byID s) \<and> (\<forall>(i, r) \<in> set (byID s). storable r) \<and>
     map snd (pgAudit db) = audit_log s \<and> sorted_wrt (<) (map fst (pgAudit db)) \<and>
     (\<forall>n \<in> fst ` set (pgAudit db). n < pgNextSeq db)"

lemma served_query [simp]:
  "query (all_served k) args res = (if list_all text_ok args then res else Inl (SqlError ''pq: invalid byte sequence for encoding UTF8''))"
  "commit (all_served k) db tx site x = (tx, Inr x)"
  by (simp_all add: query_def commit_def all_served_def)

lemma find_row:
  assumes "\<forall>(k, r) \<in> set m. rID r = k"
  shows "find (\<lambda>x. kId x = i) (map (\<lambda>(k, r). row_of r) m) = map_option row_of (map_of m i)"
  using assms by (induction m) auto

lemma keyed: "index_inv s \<Longrightarrow> \<forall>(k, r) \<in> set (byID s). rID r = k"
  by (auto simp: index_inv_def stored_ok_def)

lemma same_resource:
  assumes "index_inv s" "(j, q) \<in> set (byID s)" "map_of (byID s) i = Some cur" "rID q = i"
  shows "q = cur"
proof -
  have "map_of (byID s) j = Some q" using assms(1,2) by (simp add: index_inv_def)
  moreover have "j = i" using keyed [OF assms(1)] assms(2,4) by auto
  ultimately show ?thesis using assms(3) by (metis option.inject)
qed

lemma row_of_id [simp]: "(row_of w)\<lparr>kId := rID w\<rparr> = row_of w"
  by (simp add: row_of_def)

lemma mirrors_find:
  assumes "mirrors db s" "index_inv s"
  shows "find (\<lambda>x. kId x = i) (pgResources db) = map_option row_of (map_of (byID s) i)"
  using assms find_row [OF keyed [OF assms(2)]] by (simp add: mirrors_def)

lemma mirrors_storable: "mirrors db s \<Longrightarrow> map_of (byID s) i = Some r \<Longrightarrow> storable r"
  unfolding mirrors_def by (metis (mono_tags, lifting) case_prodD map_of_SomeD)

lemma query_row_mirror:
  assumes "mirrors db s" "index_inv s" "text_ok i"
  shows "query_row (all_served k) [i] site (\<lambda>x. kId x = i) db = (case map_of (byID s) i of None \<Rightarrow> Inl ErrNotFound | Some r \<Rightarrow> Inr r)"
  using assms mirrors_storable [OF assms(1)]
  by (auto simp: query_row_def mirrors_find split: option.splits)

subsection \<open>The audit log\<close>

definition micro_io :: "io \<Rightarrow> io" where
  "micro_io io = io\<lparr>ioNow := nowMicro (ioNow io), ioAuditNow := nowMicro (ioNow io)\<rparr>"

lemma micro_io_simps [simp]:
  "ioNow (micro_io io) = nowMicro (ioNow io)" "ioAuditNow (micro_io io) = nowMicro (ioNow io)"
  "ioRand (micro_io io) = ioRand io" "ioAuditRand (micro_io io) = ioAuditRand io"
  by (simp_all add: micro_io_def)

text \<open>The memory store has room for one more entry, and the entry's ID is new.\<close>

definition audit_room :: "string \<Rightarrow> store \<Rightarrow> bool" where
  "audit_room i s \<longleftrightarrow> int (length (audit s)) < auditCap s \<and> i \<notin> aID ` set (audit_log s)"

lemma insert_audit_mirror:
  assumes "map snd (pgAudit db) = audit_log s" "aID e \<notin> aID ` set (audit_log s)"
  shows "insert_audit_row e db =
     Inr (db\<lparr>pgAudit := pgAudit db @ [(pgNextSeq db, e\<lparr>aTime := pg_ts (aTime e)\<rparr>)], pgNextSeq := pgNextSeq db + 1\<rparr>)"
proof -
  have "\<not> list_ex (\<lambda>(n, x). aID x = aID e) (pgAudit db)"
    using assms by (auto simp: list_ex_iff image_iff simp flip: assms(1))
  then show ?thesis by (simp add: insert_audit_row_def)
qed

lemma audit_log_room:
  assumes "ring_inv s" "int (length (audit s)) < auditCap s"
  shows "audit_log (appendAuditRingLocked e s) = audit_log s @ [e]"
proof -
  have "length (audit_log s) = length (audit s)" by (simp add: audit_log_def)
  then have "length (audit_log s @ [e]) \<le> nat (auditCap s)" using assms by simp
  then show ?thesis using assms by (simp add: audit_log_append)
qed

lemma mirrors_audit:
  assumes m: "mirrors db s0" and r: "pgResources tx = map (\<lambda>(i, r). row_of r) (byID s1)" "\<forall>(i, r) \<in> set (byID s1). storable r"
    and a: "pgAudit tx = pgAudit db" "pgNextSeq tx = pgNextSeq db" "audit_log s1 = audit_log s0" "ring_inv s1" "audit_room (aID e) s1"
    and t: "list_all text_ok (audit_texts e)" "micro (aTime e)"
  shows "\<exists>tx'. insertAudit (all_served k) e tx = Inr tx' \<and> mirrors tx' (appendAuditRingLocked e s1)"
proof -
  let ?tx = "tx\<lparr>pgAudit := pgAudit tx @ [(pgNextSeq tx, e)], pgNextSeq := pgNextSeq tx + 1\<rparr>"
  have "insertAudit (all_served k) e tx = Inr ?tx"
    using insert_audit_mirror [of tx s0 e] m a t by (simp add: insertAudit_def mirrors_def audit_room_def)
  moreover have "audit_log (appendAuditRingLocked e s1) = audit_log s0 @ [e]"
    using audit_log_room [OF a(4), of e] a(3,5) by (simp add: audit_room_def)
  then have "mirrors ?tx (appendAuditRingLocked e s1)"
    using m r a unfolding mirrors_def by (auto simp: sorted_wrt_append)
  ultimately show ?thesis by blast
qed

text \<open>The entry both stores append.\<close>

lemma appendAuditLocked_for:
  "appendAuditLocked (micro_io io) actor action r s = appendAuditRingLocked (auditFor io actor action r (nowMicro (ioNow io))) s"
  by (simp add: appendAuditLocked_def auditFor_def)

definition plain :: "string \<Rightarrow> bool" where
  "plain s \<longleftrightarrow> list_all (\<lambda>c. 0 < byte c \<and> byte c < 128) s"

lemma plain_simps [simp]:
  "plain []" "plain (c # s) \<longleftrightarrow> 0 < byte c \<and> byte c < 128 \<and> plain s" "plain (s @ t) \<longleftrightarrow> plain s \<and> plain t"
  by (simp_all add: plain_def)

lemma plain_text: "plain s \<Longrightarrow> text_ok s"
proof (induction s)
  case (Cons c s)
  moreover have "byte (CHR 0x00) = 0" by (simp add: byte_def)
  ultimately show ?case by (auto simp: text_ok_def utf8_next.simps)
qed (simp add: text_ok_def)

lemma plain_scope: "scopeRe s \<Longrightarrow> plain s"
proof -
  assume "scopeRe s"
  then have "\<forall>c \<in> set s. scope_edge c \<or> c = CHR ''-''" unfolding scopeRe_def by (blast dest: bounded_token_set)
  moreover have "0 < byte c \<and> byte c < 128" if "scope_edge c \<or> c = CHR ''-''" for c
    using that by (auto simp: scope_edge_def is_lower_def is_digit_def byte_def)
  ultimately show ?thesis unfolding plain_def list_all_iff by blast
qed

lemma plain_kind: "k \<in> set Kinds \<Longrightarrow> plain k"
  by (auto simp: Kinds_def kind_defs byte_def)

lemma plain_hex: "plain (EncodeToHex b)"
proof -
  have "0 < byte (hex_digit n) \<and> byte (hex_digit n) < 128" if "n < 16" for n using that by (simp add: hex_digit_def)
  moreover have "byte c div 16 < 16" for c using byte_less [of c] by linarith
  ultimately show ?thesis by (induction b) (simp_all add: EncodeToHex_def)
qed

lemma text_ok_address:
  assumes "addr_ok r"
  shows "text_ok (rKind r)" "text_ok (LogicalKey r)"
proof -
  have p: "plain (rOrg r)" "plain (rProject r)" "plain (rEnv r)" "plain (rKind r)" "plain (rName r)" "plain ''/''"
    using assms by (auto simp: addr_ok_def byte_def intro: plain_scope plain_kind)
  have "plain (LogicalKey r)" unfolding LogicalKey_def Join.simps plain_simps(3) using p by blast
  then show "text_ok (rKind r)" "text_ok (LogicalKey r)" using p plain_text by blast+
qed

lemma text_ok_ids [simp]: "text_ok (newAuditID b)" "text_ok (newID b)"
proof -
  have "plain ''a-''" "plain ''r-''" by (simp_all add: byte_def)
  then show "text_ok (newAuditID b)" "text_ok (newID b)"
    unfolding newAuditID_def newID_def by (metis plain_hex plain_simps(3) plain_text)+
qed

lemma actions_plain:
  "plain ''created''" "plain ''updated''" "plain ''status_changed''" "plain ''deleted''" "text_ok ''anonymous''" "text_ok ''reconciler''"
  by (simp_all add: byte_def plain_text)

lemma auditFor_texts:
  assumes "addr_ok r" "text_ok (rID r)" "text_ok actor" "plain action"
  shows "list_all text_ok (audit_texts (auditFor io actor action r t))"
  using assms text_ok_address [OF assms(1)] plain_text [OF assms(4)] plain_text [of "[]"]
  by (simp add: audit_texts_def auditFor_def del: plain_simps) (simp add: text_ok_def)

lemma entry_ok:
  assumes "addr_ok r" "text_ok (rID r)" "text_ok (wActor o')" "plain action" "text_ok dflt"
  shows "list_all text_ok (audit_texts (auditFor io (or_actor dflt o') action r (nowMicro t)))"
    "micro (aTime (auditFor io (or_actor dflt o') action r (nowMicro t)))"
proof -
  have "text_ok (or_actor dflt o')" using assms(3,5) by (simp add: or_actor_def)
  then show "list_all text_ok (audit_texts (auditFor io (or_actor dflt o') action r (nowMicro t)))"
    by (intro auditFor_texts assms)
qed (simp add: auditFor_def)

subsection \<open>Creation\<close>

lemma unique_mirror:
  assumes "mirrors db s" "index_inv s" "addr_ok r"
  shows "list_ex (\<lambda>x. kId x = rID r \<or> same_address x (row_of r)) (pgResources db) \<longleftrightarrow>
    map_of (byID s) (rID r) \<noteq> None \<or> map_of (byLogic s) (LogicalKey r) \<noteq> None"
proof -
  have k: "rID (snd p) = fst p \<and> addr_ok (snd p) \<and> map_of (byLogic s) (LogicalKey (snd p)) = Some (fst p)" if "p \<in> set (byID s)" for p
    using assms(2) that by (cases p) (auto simp: index_inv_def stored_ok_def)
  have a: "kId (row_of (snd p)) = rID r \<or> same_address (row_of (snd p)) (row_of r) \<longleftrightarrow> fst p = rID r \<or> LogicalKey (snd p) = LogicalKey r"
    if "p \<in> set (byID s)" for p
    using k [OF that] LogicalKey_inject [OF _ assms(3), of "snd p"] by (auto simp: LogicalKey_def)
  have "list_ex (\<lambda>x. kId x = rID r \<or> same_address x (row_of r)) (pgResources db) \<longleftrightarrow>
      (\<exists>p \<in> set (byID s). fst p = rID r \<or> LogicalKey (snd p) = LogicalKey r)"
    using assms(1) a unfolding mirrors_def list_ex_iff by (auto simp: split_beta simp del: row_of_simps)
  moreover have "(\<exists>p \<in> set (byID s). fst p = rID r) \<longleftrightarrow> map_of (byID s) (rID r) \<noteq> None"
    by (force simp: map_of_eq_None_iff)
  moreover have "(\<exists>p \<in> set (byID s). LogicalKey (snd p) = LogicalKey r) \<longleftrightarrow> map_of (byLogic s) (LogicalKey r) \<noteq> None"
  proof
    assume "\<exists>p \<in> set (byID s). LogicalKey (snd p) = LogicalKey r"
    then show "map_of (byLogic s) (LogicalKey r) \<noteq> None" using k by (metis option.distinct(1))
  next
    assume "map_of (byLogic s) (LogicalKey r) \<noteq> None"
    then obtain i q where "map_of (byID s) i = Some q" "LogicalKey q = LogicalKey r"
      using assms(2) unfolding index_inv_def by (metis not_None_eq)
    then show "\<exists>p \<in> set (byID s). LogicalKey (snd p) = LogicalKey r" by (metis map_of_SomeD snd_conv)
  qed
  ultimately show ?thesis by blast
qed

lemma pg_stored_memory:
  "pg_stored io r = (DeepCopy r)\<lparr>rID := newID (ioRand io), rGeneration := 1, rCreatedAt := nowMicro (ioNow io), rUpdatedAt := nowMicro (ioNow io),
     rStatus := (rStatus r)\<lparr>sPhase := (if sPhase (rStatus r) = [] then PhasePending else sPhase (rStatus r)),
        sObservedGen := 0, sUpdatedAt := nowMicro (ioNow io)\<rparr>\<rparr>"
  by (simp add: pg_stored_def Let_def)

lemma update_new: "map_of m k = None \<Longrightarrow> AList.update k v m = m @ [(k, v)]"
  by (induction m) (auto split: if_splits)

lemma create_mirror:
  assumes m: "mirrors db s" and inv: "store_inv s"
    and ok: "\<forall>r. ro = Some r \<and> Validate env r = None \<longrightarrow> wf_resource r \<and> storable (pg_stored io r)"
    and f: "map_of (byID s) (newID (ioRand io)) = None" "audit_room (newAuditID (ioAuditRand io)) s" "text_ok (wActor opts)"
  shows "\<exists>db' s' res. pg_CreateResource env io all_served ro opts db = (db', res) \<and>
    CreateResource env (micro_io io) ro opts s = (s', res) \<and> mirrors db' s'"
proof (cases "\<exists>r. ro = Some r \<and> Validate env r = None")
  case False
  then show ?thesis using m by (auto simp: pg_CreateResource_def CreateResource_def Let_def split: option.splits)
next
  case True
  then obtain r where r: "ro = Some r" "Validate env r = None" by blast
  let ?st = "pg_stored io r" let ?e = "auditFor io (or_actor ''anonymous'' opts) ''created'' ?st (nowMicro (ioNow io))"
  have i: "index_inv s" "ring_inv s" using inv by (simp_all add: store_inv_def)
  have sto: "storable ?st" "wf_resource r" using ok r by auto
  have a: "addr_ok r" using Validate_addr_ok [OF r(2)] .
  have fs: "rID ?st = newID (ioRand io)" "LogicalKey ?st = LogicalKey r" "addr_ok ?st" "DeepCopy ?st = ?st"
    using a sto(2) by (simp_all add: pg_stored_memory addr_ok_def)
  have u: "list_ex (\<lambda>x. kId x = kId (row_of ?st) \<or> same_address x (row_of ?st)) (pgResources db) \<longleftrightarrow> map_of (byLogic s) (LogicalKey r) \<noteq> None"
    using unique_mirror [OF m i(1) fs(3)] f(1) fs(1,2) by simp
  have texts: "list_all text_ok (row_texts ?st)" using sto(1) by (simp add: storable_def)
  show ?thesis
  proof (cases "map_of (byLogic s) (LogicalKey r)")
    case (Some j)
    then have "insert_resource ?st db = Inl UniqueViolation"
      using u by (simp add: insert_resource_def resource_row_storable [OF sto(1)])
    then show ?thesis using r m Some texts
      by (simp add: pg_CreateResource_def CreateResource_def Let_def isUniqueViolation_def)
  next
    case None
    let ?tx = "db\<lparr>pgResources := pgResources db @ [row_of ?st]\<rparr>"
    let ?s1 = "s\<lparr>byID := AList.update (rID ?st) ?st (byID s), byLogic := AList.update (LogicalKey r) (rID ?st) (byLogic s)\<rparr>"
    have ins: "insert_resource ?st db = Inr ?tx"
      using u None by (simp add: insert_resource_def resource_row_storable [OF sto(1)])
    have b: "byID ?s1 = byID s @ [(rID ?st, ?st)]" using f(1) fs(1) by (simp add: update_new)
    have al: "audit_log ?s1 = audit_log s" "ring_inv ?s1" "audit_room (aID ?e) ?s1"
      using i(2) f(2) by (simp_all add: audit_log_def audit_room_def auditFor_def)
    have "text_ok (rID ?st)" using fs(1) by simp
    note t = entry_ok [OF fs(3) this f(3) actions_plain(1,5), of io "ioNow io"]
    obtain tx2 where tx2: "insertAudit (all_served 2) ?e ?tx = Inr tx2" "mirrors tx2 (appendAuditRingLocked ?e ?s1)"
      using mirrors_audit [OF m, of ?tx ?s1 ?e 2] m b sto(1) al t by (auto simp: mirrors_def)
    have "CreateResource env (micro_io io) ro opts s = (appendAuditRingLocked ?e ?s1, Inr ?st)"
      using r None sto(2) fs by (simp add: CreateResource_def Let_def appendAuditLocked_for [symmetric] pg_stored_memory)
    moreover have "pg_CreateResource env io all_served ro opts db = (tx2, Inr ?st)"
      using r ins texts tx2(1) fs(4) by (simp add: pg_CreateResource_def Let_def)
    ultimately show ?thesis using tx2(2) by blast
  qed
qed

subsection \<open>Updates\<close>

lemma update_in_place:
  assumes "distinct (map fst m)" "map_of m i = Some v0"
  shows "AList.update i v m = map (\<lambda>(k, x). (k, if k = i then v else x)) m"
  using assms
proof (induction m)
  case (Cons p m)
  obtain k x where p: "p = (k, x)" by fastforce
  show ?case
  proof (cases "k = i")
    case True
    then have "i \<notin> fst ` set m" using Cons.prems(1) p by simp
    then have "map (\<lambda>(k, x). (k, if k = i then v else x)) m = m" by (intro map_idI) (auto simp: image_iff)
    then show ?thesis using True p by simp
  qed (use Cons p in auto)
qed simp

text \<open>One row replaced on both sides.\<close>

lemma mirrors_replace:
  assumes "mirrors db s" "index_inv s" "map_of (byID s) i = Some cur" "storable w"
  shows "map (\<lambda>(k, r). row_of r) (AList.update i w (byID s)) = map (\<lambda>x. if kId x = i then row_of w else x) (pgResources db)"
    "\<forall>(k, r) \<in> set (AList.update i w (byID s)). storable r"
proof -
  have d: "distinct (map fst (byID s))" using assms(2) by (simp add: index_inv_def)
  note u = update_in_place [OF d assms(3), of w]
  show "map (\<lambda>(k, r). row_of r) (AList.update i w (byID s)) = map (\<lambda>x. if kId x = i then row_of w else x) (pgResources db)"
    using assms(1) keyed [OF assms(2)] unfolding u mirrors_def by (auto simp: split_beta)
  show "\<forall>(k, r) \<in> set (AList.update i w (byID s)). storable r"
    using assms(1,4) unfolding u mirrors_def by auto
qed

lemma address_free:
  assumes "mirrors db s" "index_inv s" "map_of (byID s) i = Some cur" "LogicalKey w = LogicalKey cur" "addr_ok w" "rID w = i"
  shows "\<not> list_ex (\<lambda>x. kId x \<noteq> i \<and> same_address x (row_of w)) (pgResources db)"
proof
  assume "list_ex (\<lambda>x. kId x \<noteq> i \<and> same_address x (row_of w)) (pgResources db)"
  then obtain j q where q: "(j, q) \<in> set (byID s)" "rID q \<noteq> i" "same_address (row_of q) (row_of w)"
    using assms(1) unfolding mirrors_def list_ex_iff by (auto simp del: row_of_simps(6))
  have m: "map_of (byID s) j = Some q" using assms(2) q(1) by (simp add: index_inv_def)
  then have j: "rID q = j" "map_of (byLogic s) (LogicalKey q) = Some j" using assms(2) by (auto simp: index_inv_def stored_ok_def)
  have "LogicalKey q = LogicalKey cur" using q(3) assms(4) by (simp add: LogicalKey_def)
  moreover have "map_of (byLogic s) (LogicalKey cur) = Some i" using assms(2,3) by (auto simp: index_inv_def)
  ultimately show False using j q(2) by simp
qed

lemma storable_touch:
  "storable r \<Longrightarrow> micro t \<Longrightarrow> storable (r\<lparr>rGeneration := g, rUpdatedAt := t\<rparr>)"
  "storable r \<Longrightarrow> storable (r\<lparr>rGeneration := g\<rparr>)"
  by (simp_all add: storable_def row_texts_def)

lemma update_resource_mirror:
  assumes m: "mirrors db s" and i: "index_inv s" and cur: "map_of (byID s) i = Some cur"
    and w: "storable w" "rID w = i" "LogicalKey w = LogicalKey cur" "addr_ok w"
  shows "\<exists>n. update_resource i (rGeneration cur) w db =
    Inr (Suc n, db\<lparr>pgResources := map (\<lambda>x. if kId x = i then row_of w else x) (pgResources db)\<rparr>)"
proof -
  have hit: "(kId x = i \<and> kGeneration x = rGeneration cur) = (kId x = i)" if x: "x \<in> set (pgResources db)" for x
  proof -
    obtain j q where q: "(j, q) \<in> set (byID s)" "x = row_of q" using x m by (auto simp: mirrors_def)
    then show ?thesis using same_resource [OF i q(1) cur] by auto
  qed
  have row: "row_of cur \<in> set (pgResources db)" using m map_of_SomeD [OF cur] by (force simp: mirrors_def image_iff)
  have "rID cur = i" using stored_okD [OF i cur] by (simp add: stored_ok_def)
  then have "length (filter (\<lambda>x. kId x = i \<and> kGeneration x = rGeneration cur) (pgResources db)) \<noteq> 0"
    using row by (force simp: filter_empty_conv)
  then obtain n where n: "length (filter (\<lambda>x. kId x = i \<and> kGeneration x = rGeneration cur) (pgResources db)) = Suc n"
    by (metis not0_implies_Suc)
  have id: "(row_of w)\<lparr>kId := i\<rparr> = row_of w" using row_of_id [of w] w(2) by simp
  have "map (\<lambda>x. if kId x = i \<and> kGeneration x = rGeneration cur then row_of w else x) (pgResources db) =
      map (\<lambda>x. if kId x = i then row_of w else x) (pgResources db)"
    using hit by (intro map_cong) auto
  then show ?thesis
    using address_free [OF m i cur w(3,4,2)] resource_row_storable [OF w(1)] n
    unfolding update_resource_def Let_def by (simp only: id option.case) simp
qed

definition fn_storable :: "(resource \<Rightarrow> go_error + resource) \<Rightarrow> bool" where
  "fn_storable fn \<longleftrightarrow> (\<forall>r w. storable r \<and> fn r = Inr w \<longrightarrow> storable w)"

lemma update_mirror:
  assumes m: "mirrors db s" and inv: "store_inv s" and fn: "fn_ok fn" "fn_storable fn"
    and t: "text_ok i" "text_ok (wActor (uWrite o'))" "audit_room (newAuditID (ioAuditRand io)) s"
  shows "\<exists>db' s' res. pg_UpdateResource env io all_served i fn o' db = (db', res) \<and>
    UpdateResource env (micro_io io) i fn o' s = (s', res) \<and> mirrors db' s'"
proof (cases "map_of (byID s) i")
  case None
  have i: "index_inv s" using inv by (simp add: store_inv_def)
  show ?thesis using m None query_row_mirror [OF m i t(1)] by (simp add: pg_UpdateResource_def UpdateResource_def)
next
  case (Some cur)
  have i: "index_inv s" "ring_inv s" using inv by (simp_all add: store_inv_def)
  note qr = query_row_mirror [OF m i(1) t(1)]
  have cur: "storable cur" "wf_resource cur" "rID cur = i" "addr_ok cur" "DeepCopy cur = cur"
    using mirrors_storable [OF m Some] stored_okD [OF i(1) Some] by (auto simp: stored_ok_def)
  show ?thesis
  proof (cases "(uExpectedGeneration o' = 0 \<or> uExpectedGeneration o' = rGeneration cur) \<and> (\<exists>w. fn cur = Inr w \<and> Validate env w = None)")
    case False
    then show ?thesis using m Some qr cur
      by (auto simp: pg_UpdateResource_def UpdateResource_def split: sum.splits option.splits)
  next
    case True
    then obtain w where w: "fn cur = Inr w" "Validate env w = None" by blast
    note ff = fn_ok_fields [OF fn(1) w(1)] fn_okD(2) [OF fn(1) w(1) cur(2)]
    let ?now = "nowMicro (ioNow io)" let ?ch = "\<not> specLabelsEqual cur w"
    let ?w = "if ?ch then w\<lparr>rGeneration := wrap64 (rGeneration cur + 1), rUpdatedAt := ?now\<rparr> else w"
    let ?s1 = "s\<lparr>byID := AList.update i ?w (byID s)\<rparr>"
    let ?tx = "db\<lparr>pgResources := map (\<lambda>x. if kId x = i then row_of ?w else x) (pgResources db)\<rparr>"
    let ?e = "auditFor io (or_actor ''anonymous'' (uWrite o')) ''updated'' ?w ?now"
    have weq: "w\<lparr>rGeneration := (if ?ch then wrap64 (rGeneration cur + 1) else rGeneration cur), rUpdatedAt := (if ?ch then ?now else rUpdatedAt w)\<rparr> = ?w"
      using ff(3) by (cases w) simp
    have sw: "storable ?w" "rID ?w = i" "LogicalKey ?w = LogicalKey cur" "addr_ok ?w" "DeepCopy ?w = ?w"
      using fn(2) w cur ff Validate_addr_ok [OF w(2)] storable_touch(1) [of w ?now]
      by (auto simp: fn_storable_def addr_ok_def)
    note rep = mirrors_replace [OF m i(1) Some sw(1)]
    note upd = update_resource_mirror [OF m i(1) Some sw(1,2,3,4)]
    have texts: "list_all text_ok (i # tl (row_texts ?w))" using sw(1) t(1) by (simp add: storable_def row_texts_def)
    show ?thesis
    proof (cases ?ch)
      case False
      have "mirrors ?tx ?s1" using m rep unfolding mirrors_def by (simp add: audit_log_def)
      moreover have "UpdateResource env (micro_io io) i fn o' s = (?s1, Inr ?w)"
        using Some True w False cur sw(5) by (simp add: UpdateResource_def)
      moreover obtain n where "update_resource i (rGeneration cur) w db = Inr (Suc n, ?tx)" using upd False by auto
      then have "pg_UpdateResource env io all_served i fn o' db = (?tx, Inr ?w)"
        using Some True w False cur sw(5) texts qr weq by (simp add: pg_UpdateResource_def pg_write_update_def Let_def)
      ultimately show ?thesis by blast
    next
      case ch: True
      have al: "audit_log ?s1 = audit_log s" "ring_inv ?s1" "audit_room (aID ?e) ?s1"
        using i(2) t(3) by (simp_all add: audit_log_def audit_room_def auditFor_def)
      have "text_ok (rID ?w)" using sw(2) t(1) by simp
      note te = entry_ok [OF sw(4) this t(2) actions_plain(2,5), of io "ioNow io"]
      obtain tx2 where tx2: "insertAudit (all_served 4) ?e ?tx = Inr tx2" "mirrors tx2 (appendAuditRingLocked ?e ?s1)"
        using mirrors_audit [OF m, of ?tx ?s1 ?e 4] rep al te by auto
      have "UpdateResource env (micro_io io) i fn o' s = (appendAuditRingLocked ?e ?s1, Inr ?w)"
        using Some True w ch cur sw(5) by (simp add: UpdateResource_def appendAuditLocked_for Let_def)
      moreover obtain n where "update_resource i (rGeneration cur) ?w db = Inr (Suc n, ?tx)" using upd by blast
      then have "pg_UpdateResource env io all_served i fn o' db = (tx2, Inr ?w)"
        using Some True w ch cur sw(5) texts qr tx2(1) by (simp add: pg_UpdateResource_def pg_write_update_def Let_def)
      ultimately show ?thesis using tx2(2) by blast
    qed
  qed
qed

subsection \<open>Status, deletion, audit\<close>

lemma status_mirror:
  assumes m: "mirrors db s" and inv: "store_inv s"
    and t: "text_ok i" "text_ok phase" "text_ok msg" "text_ok (wActor o')" "audit_room (newAuditID (ioAuditRand io)) s"
  shows "\<exists>db' s' res. pg_UpdateStatus io all_served i phase msg o' db = (db', res) \<and>
    UpdateStatus (micro_io io) i phase msg o' s = (s', res) \<and> mirrors db' s'"
proof (cases "map_of (byID s) i")
  case None
  have i: "index_inv s" using inv by (simp add: store_inv_def)
  show ?thesis using m None query_row_mirror [OF m i t(1)] by (simp add: pg_UpdateStatus_def UpdateStatus_def only_error_def)
next
  case (Some cur)
  have i: "index_inv s" "ring_inv s" using inv by (simp_all add: store_inv_def)
  note qr = query_row_mirror [OF m i(1) t(1)]
  have cur: "storable cur" "rID cur = i" "addr_ok cur"
    using mirrors_storable [OF m Some] stored_okD [OF i(1) Some] by (auto simp: stored_ok_def)
  let ?now = "nowMicro (ioNow io)" let ?st = "rStatus cur"
  let ?ch = "sPhase ?st \<noteq> phase \<or> sMessage ?st \<noteq> msg"
  let ?r1 = "if ?ch then cur\<lparr>rStatus := ?st\<lparr>sPhase := phase, sMessage := msg, sUpdatedAt := ?now\<rparr>, rUpdatedAt := ?now\<rparr> else cur"
  let ?r2 = "?r1\<lparr>rStatus := (rStatus ?r1)\<lparr>sObservedGen := rGeneration ?r1\<rparr>\<rparr>"
  let ?stUp = "if ?ch then ?now else sUpdatedAt ?st" let ?upAt = "if ?ch then ?now else rUpdatedAt cur"
  let ?s1 = "s\<lparr>byID := AList.update i ?r2 (byID s)\<rparr>"
  let ?tx = "update_status i phase msg ?stUp ?upAt db"
  let ?e = "auditFor io (or_actor ''reconciler'' o') ''status_changed'' cur ?now"
  have st: "storable ?r2" using cur(1) t(2,3) by (auto simp: storable_def row_texts_def)
  note rep = mirrors_replace [OF m i(1) Some st]
  have "row_of q = row_of cur" if "(j, q) \<in> set (byID s)" "rID q = i" for j q
    using same_resource [OF i(1) that(1) Some that(2)] by simp
  then have rows: "pgResources ?tx = map (\<lambda>x. if kId x = i then row_of ?r2 else x) (pgResources db)"
    using m cur(1) unfolding update_status_def mirrors_def storable_def by (auto simp: row_of_def nullTime_def)
  have al: "audit_log ?s1 = audit_log s" "ring_inv ?s1" "audit_room (aID ?e) ?s1"
    using i(2) t(5) by (simp_all add: audit_log_def audit_room_def auditFor_def)
  have "text_ok (rID cur)" using cur(2) t(1) by simp
  note te = entry_ok [OF cur(3) this t(4) actions_plain(3,6), of io "ioNow io"]
  have tx: "pgAudit ?tx = pgAudit db" "pgNextSeq ?tx = pgNextSeq db" by (simp_all add: update_status_def)
  obtain tx2 where tx2: "insertAudit (all_served 3) ?e ?tx = Inr tx2" "mirrors tx2 (appendAuditRingLocked ?e ?s1)"
    using mirrors_audit [OF m, of ?tx ?s1 ?e 3] rep rows al te tx by auto
  have "auditFor io (or_actor ''reconciler'' o') ''status_changed'' ?r2 ?now = ?e" by (simp add: auditFor_def)
  then have "UpdateStatus (micro_io io) i phase msg o' s = (appendAuditRingLocked ?e ?s1, None)"
    using Some by (simp add: UpdateStatus_def Let_def appendAuditLocked_for)
  moreover have "pg_UpdateStatus io all_served i phase msg o' db = (tx2, None)"
    using Some qr t(1-3) tx2(1) by (simp add: pg_UpdateStatus_def Let_def only_error_def)
  ultimately show ?thesis using tx2(2) by blast
qed

lemma delete_mirror:
  assumes m: "mirrors db s" and inv: "store_inv s"
    and t: "text_ok i" "text_ok (wActor o')" "audit_room (newAuditID (ioAuditRand io)) s"
  shows "\<exists>db' s' res. pg_DeleteResource io all_served i o' db = (db', res) \<and>
    DeleteResource (micro_io io) i o' s = (s', res) \<and> mirrors db' s'"
proof (cases "map_of (byID s) i")
  case None
  have i: "index_inv s" using inv by (simp add: store_inv_def)
  show ?thesis using m None query_row_mirror [OF m i t(1)] by (simp add: pg_DeleteResource_def DeleteResource_def only_error_def)
next
  case (Some cur)
  have i: "index_inv s" "ring_inv s" using inv by (simp_all add: store_inv_def)
  note qr = query_row_mirror [OF m i(1) t(1)]
  have cur: "rID cur = i" "addr_ok cur" using stored_okD [OF i(1) Some] by (auto simp: stored_ok_def)
  let ?s1 = "s\<lparr>byID := AList.delete i (byID s), byLogic := AList.delete (LogicalKey cur) (byLogic s)\<rparr>"
  let ?e = "auditFor io (or_actor ''anonymous'' o') ''deleted'' cur (nowMicro (ioNow io))"
  have "filter (\<lambda>x. kId x \<noteq> i) (map (\<lambda>(k, r). row_of r) xs) = map (\<lambda>(k, r). row_of r) (AList.delete i xs)"
    if "\<forall>(k, r) \<in> set xs. rID r = k" for xs
    using that by (induction xs) auto
  then have rows: "pgResources (delete_resource i db) = map (\<lambda>(k, r). row_of r) (byID ?s1)"
    using m keyed [OF i(1)] by (simp add: delete_resource_def mirrors_def)
  have st: "\<forall>(k, r) \<in> set (byID ?s1). storable r"
    using m by (auto simp: mirrors_def AList.delete_eq)
  have al: "audit_log ?s1 = audit_log s" "ring_inv ?s1" "audit_room (aID ?e) ?s1"
    using i(2) t(3) by (simp_all add: audit_log_def audit_room_def auditFor_def)
  have "text_ok (rID cur)" using cur(1) t(1) by simp
  note te = entry_ok [OF cur(2) this t(2) actions_plain(4,5), of io "ioNow io"]
  have tx: "pgAudit (delete_resource i db) = pgAudit db" "pgNextSeq (delete_resource i db) = pgNextSeq db" by (simp_all add: delete_resource_def)
  obtain tx2 where tx2: "insertAudit (all_served 3) ?e (delete_resource i db) = Inr tx2" "mirrors tx2 (appendAuditRingLocked ?e ?s1)"
    using mirrors_audit [OF m rows st tx al te, of 3] by auto
  have "DeleteResource (micro_io io) i o' s = (appendAuditRingLocked ?e ?s1, None)"
    using Some by (simp add: DeleteResource_def appendAuditLocked_for)
  moreover have "pg_DeleteResource io all_served i o' db = (tx2, None)"
    using Some qr t(1) tx2(1) by (simp add: pg_DeleteResource_def Let_def only_error_def)
  ultimately show ?thesis using tx2(2) by blast
qed

lemma audit_mirror:
  assumes m: "mirrors db s" and inv: "store_inv s"
    and t: "list_all text_ok (audit_texts e)" "micro (aTime e)" "audit_room (if aID e = [] then newAuditID (ioAuditRand io) else aID e) s"
  shows "\<exists>db' s' e'. pg_AppendAudit io all_served e db = (db', Inr e') \<and> AppendAudit (micro_io io) e s = (s', e') \<and> mirrors db' s'"
proof -
  let ?e = "e\<lparr>aID := (if aID e = [] then newAuditID (ioAuditRand io) else aID e), aTime := (if aTime e = 0 then nowMicro (ioNow io) else aTime e)\<rparr>"
  have "list_all text_ok (audit_texts ?e)" "micro (aTime ?e)" using t(1,2) by (auto simp: audit_texts_def)
  then obtain tx2 where "insertAudit (all_served 0) ?e db = Inr tx2" "mirrors tx2 (appendAuditRingLocked ?e s)"
    using mirrors_audit [OF m, of db s ?e 0] m inv t(3) by (auto simp: mirrors_def store_inv_def)
  moreover have "AppendAudit (micro_io io) e s = (appendAuditRingLocked ?e s, ?e)" by (simp add: AppendAudit_def Let_def)
  ultimately show ?thesis by (simp add: pg_AppendAudit_def all_served_def Let_def del: if_split)
qed

section \<open>Reads\<close>

lemma get_mirror:
  assumes "mirrors db s" "index_inv s" "text_ok i"
  shows "pg_GetResource all_served i db = GetResource i s"
proof -
  have "DeepCopy r = r" if "map_of (byID s) i = Some r" for r using stored_wf [OF assms(2) that] by simp
  then show ?thesis using query_row_mirror [OF assms] by (auto simp: pg_GetResource_def GetResource_def split: option.splits)
qed

lemma address_find:
  assumes "\<forall>p \<in> set m. P (row_of (snd p)) = Q p"
  shows "find P (map (\<lambda>(k, r). row_of r) m) = map_option (\<lambda>p. row_of (snd p)) (find Q m)"
  using assms by (induction m) auto

lemma find_unique:
  assumes "x \<in> set m" "Q x" "\<And>y. y \<in> set m \<Longrightarrow> Q y \<Longrightarrow> y = x"
  shows "find Q m = Some x"
proof (cases "find Q m")
  case None
  then show ?thesis using assms(1,2) by (auto simp: find_None_iff)
next
  case (Some y)
  then have "y \<in> set m" "Q y" by (auto simp: find_Some_iff)
  then show ?thesis using assms(3) Some by blast
qed

lemma find_none: "(\<And>y. y \<in> set m \<Longrightarrow> \<not> Q y) \<Longrightarrow> find Q m = None"
  by (auto simp: find_None_iff)

lemma get_address_mirror:
  assumes m: "mirrors db s" and i: "index_inv s" and t: "list_all text_ok [org, project, env, kind, name]"
    and a: "list_all (\<lambda>p. CHR ''/'' \<notin> set p) [org, project, env, kind, name]"
  shows "pg_GetByLogicalKey all_served org project env kind name db = GetByLogicalKey org project env kind name s"
proof -
  let ?key = "logical org project env kind name"
  let ?P = "\<lambda>x. kOrg x = org \<and> kProject x = project \<and> kEnv x = env \<and> kKind x = kind \<and> kName x = name"
  have "?P (row_of (snd p)) = (LogicalKey (snd p) = ?key)" if "p \<in> set (byID s)" for p
  proof -
    have "addr_ok (snd p)" using i that by (cases p) (auto simp: index_inv_def stored_ok_def)
    then have "list_all (\<lambda>w. CHR ''/'' \<notin> set w) [rOrg (snd p), rProject (snd p), rEnv (snd p), rKind (snd p), rName (snd p)]"
      by (auto simp: addr_ok_def dest: scopeRe_no_slash Kinds_no_slash)
    then show ?thesis
      using a Join_inject [of "CHR ''/''" "[rOrg (snd p), rProject (snd p), rEnv (snd p), rKind (snd p), rName (snd p)]" "[org, project, env, kind, name]"]
      by (auto simp: LogicalKey_def logical_def row_of_def)
  qed
  then have f: "find ?P (pgResources db) = map_option (\<lambda>p. row_of (snd p)) (find (\<lambda>p. LogicalKey (snd p) = ?key) (byID s))"
    using m address_find [of "byID s" ?P "\<lambda>p. LogicalKey (snd p) = ?key"] by (simp add: mirrors_def)
  have k: "map_of (byLogic s) (LogicalKey (snd p)) = Some (fst p)" if "p \<in> set (byID s)" for p
    using i that by (cases p) (auto simp: index_inv_def)
  show ?thesis
  proof (cases "map_of (byLogic s) ?key")
    case None
    then have "find (\<lambda>p. LogicalKey (snd p) = ?key) (byID s) = None" using k by (intro find_none) (metis option.distinct(1))
    then show ?thesis using f t None by (simp add: pg_GetByLogicalKey_def query_row_def GetByLogicalKey_def)
  next
    case (Some j)
    then obtain r where r: "map_of (byID s) j = Some r" "LogicalKey r = ?key" using i unfolding index_inv_def by blast
    have u: "y = (j, r)" if "y \<in> set (byID s)" "LogicalKey (snd y) = ?key" for y
    proof -
      have "fst y = j" using k [OF that(1)] that(2) Some by simp
      moreover have "map_of (byID s) (fst y) = Some (snd y)" using i that(1) by (simp add: index_inv_def)
      ultimately show ?thesis using r(1) by (cases y) simp
    qed
    have "LogicalKey (snd (j, r)) = ?key" using r(2) by simp
    then have "find (\<lambda>p. LogicalKey (snd p) = ?key) (byID s) = Some (j, r)"
      by (rule find_unique [where Q = "\<lambda>p. LogicalKey (snd p) = ?key", OF map_of_SomeD [OF r(1)] _ u])
    then show ?thesis
      using f t Some r(1) mirrors_storable [OF m r(1)] stored_wf [OF i r(1)] by (simp add: pg_GetByLogicalKey_def query_row_def GetByLogicalKey_def)
  qed
qed

lemma scan_rows_map: "list_all storable rs \<Longrightarrow> scan_rows site (map row_of rs) = Inr rs"
  by (induction rs) auto

lemma decode_error: "decodeCursor c = Inl e \<Longrightarrow> e = ErrBadRequest"
  by (auto simp: decodeCursor_def Let_def split: option.splits if_splits)

lemma insort_key_map: "insort_key f (g x) (map g xs) = map g (insort_key (\<lambda>y. f (g y)) x xs)"
  by (induction xs) auto

lemma sort_key_map: "sort_key f (map g xs) = map g (sort_key (\<lambda>y. f (g y)) xs)"
  by (induction xs) (simp_all add: insort_key_map)

lemma sorted_rows:
  assumes "mirrors db s"
  shows "sort_key (\<lambda>x. (kCreatedAt x, kId x)) (filter (row_match q) (pgResources db)) = map row_of (sorted_matches q s)"
proof -
  have r: "row_match q (row_of r) = list_match q r" for r by (simp add: row_match_def list_match_def row_of_def)
  have p: "pgResources db = map row_of (map snd (byID s))" using assms by (simp add: mirrors_def split_beta comp_def)
  show ?thesis unfolding p filter_map sorted_matches_def sort_key_map by (simp add: r comp_def list_key_def)
qed

lemma list_mirror:
  assumes m: "mirrors db s" and i: "index_inv s" and t: "list_all text_ok [oOrg q, oProject q, oEnv q, oKind q]"
  shows "pg_ListResources all_served q db = ListResources q s"
proof (cases "cursor_offset (oCursor q)")
  case None
  then have "\<exists>e. decodeCursor (oCursor q) = Inl e \<and> oCursor q \<noteq> []" by (auto simp: cursor_offset_def split: if_splits sum.splits)
  then show ?thesis using decode_error ListResources_bad_cursor [OF None, of q s] by (auto simp: pg_ListResources_def)
next
  case (Some n)
  let ?xs = "sorted_matches q s" let ?k = "list_limit (oLimit q)"
  have el: "storable r \<and> DeepCopy r = r" if r: "r \<in> set ?xs" for r
  proof -
    obtain j where "(j, r) \<in> set (byID s)" using r by (auto simp: sorted_matches_def)
    then have "map_of (byID s) j = Some r" using i by (simp add: index_inv_def)
    then show ?thesis using mirrors_storable [OF m] stored_wf [OF i] by simp
  qed
  then have st: "list_all storable (take k (drop n ?xs))" "map DeepCopy (take k (drop n ?xs)) = take k (drop n ?xs)" for k
    by (auto simp: list_all_iff intro!: map_idI dest!: in_set_takeD in_set_dropD)
  have mem: "ListResources q s = Inr (take ?k (drop n ?xs), if n + ?k < length ?xs then encodeCursor (word_of_nat (n + ?k)) else [])"
    using ListResources_page [OF Some, of q s] st(2) [of ?k] by (simp add: Let_def)
  have "oCursor q = [] \<and> n = 0 \<or> oCursor q \<noteq> [] \<and> (\<exists>w. decodeCursor (oCursor q) = Inr w \<and> unat w = n)"
    using Some by (auto simp: cursor_offset_def split: if_splits sum.splits)
  then have "pg_ListResources all_served q db =
      (let page = take (Suc ?k) (drop n ?xs) in if length page > ?k then Inr (take ?k page, encodeCursor (word_of_nat (n + ?k))) else Inr (page, []))"
    using t scan_rows_map [OF st(1) [of "Suc ?k"], of "''pgstore: list scan: ''"]
    by (elim disjE conjE exE) (simp_all add: pg_ListResources_def Let_def sorted_rows [OF m] take_map drop_map del: of_nat_add)
  then show ?thesis unfolding mem by (auto simp: Let_def min_def simp del: of_nat_add)
qed

section \<open>LIKE\<close>

lemma escapeLike_Cons:
  "escapeLike (c # s) = (if c = CHR 0x5C \<or> c = CHR ''%'' \<or> c = CHR ''_'' then [CHR 0x5C, c] else [c]) @ escapeLike s"
  by (auto simp: escapeLike_def ReplaceChar_def)

lemma like_suffix: "sql_like ''%'' s"
  by (induction s) auto

lemma like_prefix: "sql_like (escapeLike p @ ''/%'') s \<longleftrightarrow> HasPrefix s (p @ ''/'')"
proof (induction p arbitrary: s)
  case Nil
  have "escapeLike [] = []" by (simp add: escapeLike_def ReplaceChar_def)
  then show ?case using like_suffix by (cases s) (auto simp: HasPrefix_def)
next
  case (Cons c p)
  then show ?case by (cases s) (auto simp: escapeLike_Cons HasPrefix_def)
qed

lemma audit_list_mirror:
  assumes m: "mirrors db s" and t: "text_ok (qOrg q)" "text_ok (qKind q)"
  shows "pg_ListAudit all_served q db = ListAudit q s"
proof -
  have "sorted (map fst (pgAudit db))" using m by (auto simp: mirrors_def intro: strict_sorted_imp_sorted)
  then have "map snd (rev (sort_key fst (pgAudit db))) = rev (audit_log s)"
    using m by (simp add: sort_key_id_if_sorted mirrors_def rev_map [symmetric])
  then have r: "map snd (rev (sort_key fst (pgAudit db))) = ring_newest_first s" by (simp add: ring_newest_first_eq)
  have f: "audit_row_match q = audit_match q" by (simp add: fun_eq_iff audit_row_match_def audit_match_def like_prefix)
  have l: "pg_audit_limit (qLimit q) = audit_limit (qLimit q)"
    by (simp add: pg_audit_limit_def audit_limit_def auditQueryLimit_def maxAuditQueryLimit_def)
  show ?thesis using t unfolding pg_ListAudit_def ListAudit_def Let_def r f l
    by (auto split: sum.splits)
qed

lemma count_mirror: "mirrors db s \<Longrightarrow> pg_Count all_served db = Inr (Count s)"
  by (simp add: pg_Count_def Count_def mirrors_def)

section \<open>Runs\<close>

text \<open>Forward simulation: a relation kept by every admissible step is kept by every admissible run.\<close>

fun admissible :: "('p \<Rightarrow> 'a \<Rightarrow> bool) \<Rightarrow> ('p \<Rightarrow> 'a \<Rightarrow> 'a) \<Rightarrow> 'p list \<Rightarrow> 'a \<Rightarrow> bool" where
  "admissible ok f [] a \<longleftrightarrow> True"
| "admissible ok f (p # ps) a \<longleftrightarrow> ok p a \<and> admissible ok f ps (f p a)"

fun trace :: "('p \<Rightarrow> 'c \<Rightarrow> 'b) \<Rightarrow> ('p \<Rightarrow> 'c \<Rightarrow> 'c) \<Rightarrow> 'p list \<Rightarrow> 'c \<Rightarrow> 'b list" where
  "trace ans f [] c = []"
| "trace ans f (p # ps) c = ans p c # trace ans f ps (f p c)"

locale forward_simulation =
  fixes conc :: "'p \<Rightarrow> 'c \<Rightarrow> 'c" and absn :: "'p \<Rightarrow> 'a \<Rightarrow> 'a" and rel :: "'c \<Rightarrow> 'a \<Rightarrow> bool" and ok :: "'p \<Rightarrow> 'a \<Rightarrow> bool"
    and cans :: "'p \<Rightarrow> 'c \<Rightarrow> 'b" and aans :: "'p \<Rightarrow> 'a \<Rightarrow> 'b"
  assumes step: "rel c a \<Longrightarrow> ok p a \<Longrightarrow> rel (conc p c) (absn p a)"
    and answer: "rel c a \<Longrightarrow> ok p a \<Longrightarrow> cans p c = aans p a"
begin

lemma run: "rel c a \<Longrightarrow> admissible ok absn ps a \<Longrightarrow> rel (fold conc ps c) (fold absn ps a)"
  by (induction ps arbitrary: c a) (auto intro: step)

lemma answers: "rel c a \<Longrightarrow> admissible ok absn ps a \<Longrightarrow> trace cans conc ps c = trace aans absn ps a"
  by (induction ps arbitrary: c a) (auto intro: step answer)

end

text \<open>What a caller of an operation gets back.\<close>

datatype answer = Got "go_error + resource" | Done "go_error option" | Recorded "go_error + audit_entry"

fun pg_apply_op :: "egress_env \<Rightarrow> store_op \<Rightarrow> pg_db \<Rightarrow> pg_db" where
  "pg_apply_op env (OpCreate io r o') db = fst (pg_CreateResource env io all_served r o' db)"
| "pg_apply_op env (OpUpdate io i fn o') db = fst (pg_UpdateResource env io all_served i fn o' db)"
| "pg_apply_op env (OpStatus io i p m o') db = fst (pg_UpdateStatus io all_served i p m o' db)"
| "pg_apply_op env (OpDelete io i o') db = fst (pg_DeleteResource io all_served i o' db)"
| "pg_apply_op env (OpAudit io e) db = fst (pg_AppendAudit io all_served e db)"

fun pg_answer :: "egress_env \<Rightarrow> store_op \<Rightarrow> pg_db \<Rightarrow> answer" where
  "pg_answer env (OpCreate io r o') db = Got (snd (pg_CreateResource env io all_served r o' db))"
| "pg_answer env (OpUpdate io i fn o') db = Got (snd (pg_UpdateResource env io all_served i fn o' db))"
| "pg_answer env (OpStatus io i p m o') db = Done (snd (pg_UpdateStatus io all_served i p m o' db))"
| "pg_answer env (OpDelete io i o') db = Done (snd (pg_DeleteResource io all_served i o' db))"
| "pg_answer env (OpAudit io e) db = Recorded (snd (pg_AppendAudit io all_served e db))"

fun mem_answer :: "egress_env \<Rightarrow> store_op \<Rightarrow> store \<Rightarrow> answer" where
  "mem_answer env (OpCreate io r o') s = Got (snd (CreateResource env io r o' s))"
| "mem_answer env (OpUpdate io i fn o') s = Got (snd (UpdateResource env io i fn o' s))"
| "mem_answer env (OpStatus io i p m o') s = Done (snd (UpdateStatus io i p m o' s))"
| "mem_answer env (OpDelete io i o') s = Done (snd (DeleteResource io i o' s))"
| "mem_answer env (OpAudit io e) s = Recorded (Inr (snd (AppendAudit io e s)))"

text \<open>The same operation on the memory store, with its clock read in whole microseconds.\<close>

fun micro_op :: "store_op \<Rightarrow> store_op" where
  "micro_op (OpCreate io r o') = OpCreate (micro_io io) r o'"
| "micro_op (OpUpdate io i fn o') = OpUpdate (micro_io io) i fn o'"
| "micro_op (OpStatus io i p m o') = OpStatus (micro_io io) i p m o'"
| "micro_op (OpDelete io i o') = OpDelete (micro_io io) i o'"
| "micro_op (OpAudit io e) = OpAudit (micro_io io) e"

fun pg_op_ok :: "egress_env \<Rightarrow> store_op \<Rightarrow> store \<Rightarrow> bool" where
  "pg_op_ok env (OpCreate io ro o') s \<longleftrightarrow> op_ok (OpCreate io ro o') s \<and> text_ok (wActor o') \<and>
     (case ro of None \<Rightarrow> True | Some r \<Rightarrow> Validate env r = None \<longrightarrow> storable (pg_stored io r)) \<and> audit_room (newAuditID (ioAuditRand io)) s"
| "pg_op_ok env (OpUpdate io i fn o') s \<longleftrightarrow> fn_ok fn \<and> fn_storable fn \<and> text_ok i \<and> text_ok (wActor (uWrite o')) \<and>
     audit_room (newAuditID (ioAuditRand io)) s"
| "pg_op_ok env (OpStatus io i p m o') s \<longleftrightarrow> text_ok i \<and> text_ok p \<and> text_ok m \<and> text_ok (wActor o') \<and>
     audit_room (newAuditID (ioAuditRand io)) s"
| "pg_op_ok env (OpDelete io i o') s \<longleftrightarrow> text_ok i \<and> text_ok (wActor o') \<and> audit_room (newAuditID (ioAuditRand io)) s"
| "pg_op_ok env (OpAudit io e) s \<longleftrightarrow> list_all text_ok (audit_texts e) \<and> micro (aTime e) \<and>
     audit_room (if aID e = [] then newAuditID (ioAuditRand io) else aID e) s"

lemma pg_op_ok_memory: "pg_op_ok env p s \<Longrightarrow> op_ok (micro_op p) s"
  by (cases p) auto

lemma pg_step:
  assumes "mirrors db s" "store_inv s" "pg_op_ok env p s"
  shows "mirrors (pg_apply_op env p db) (apply_op env (micro_op p) s) \<and> pg_answer env p db = mem_answer env (micro_op p) s"
proof (cases p)
  case (OpCreate io ro o')
  then show ?thesis using assms create_mirror [OF assms(1,2), of ro env io o'] by (auto split: option.splits)
next
  case (OpUpdate io i fn o')
  then show ?thesis using assms update_mirror [OF assms(1,2), of fn i o' io env] by auto
next
  case (OpStatus io i ph m o')
  then show ?thesis using assms status_mirror [OF assms(1,2), of i ph m o' io] by auto
next
  case (OpDelete io i o')
  then show ?thesis using assms delete_mirror [OF assms(1,2), of i o' io] by auto
next
  case (OpAudit io e)
  then show ?thesis using assms audit_mirror [OF assms(1,2), of e io] by auto
qed

interpretation pg: forward_simulation "pg_apply_op env" "\<lambda>p. apply_op env (micro_op p)" "\<lambda>db s. mirrors db s \<and> store_inv s" "pg_op_ok env"
  "pg_answer env" "\<lambda>p. mem_answer env (micro_op p)" for env
  by unfold_locales (auto dest: pg_step intro: op_inv pg_op_ok_memory)

lemma mirrors_empty: "mirrors pg_empty (NewStore opts)"
  by (simp add: mirrors_def pg_empty_def NewStore_def Let_def audit_log_def)

section \<open>Failures\<close>

fun step_error :: "step \<Rightarrow> string" where
  "step_error Served = []"
| "step_error (Failed e) = e"
| "step_error (Lost e) = e"

lemma unserved:
  assumes "st \<noteq> Served"
  shows "query st args res = Inl (SqlError (step_error st))" "insertAudit st e db = Inl (SqlError (step_error st))"
    "query_row st args site P db = Inl (ErrOther (site @ step_error st))"
  using assms by (cases st; simp add: query_def insertAudit_def query_row_def)+

lemma unserved_commit: "fst (commit st db tx site x) = db \<or> fst (commit st db tx site x) = tx"
  by (simp add: commit_def split: step.split)

lemma commit_Served [simp]: "commit Served db tx site x = (tx, Inr x)"
  by (simp add: commit_def)

lemmas served_cases = all_served_def Let_def only_error_def unserved_commit

lemma create_all_or_nothing:
  "fst (pg_CreateResource env io net ro opts db) = db \<or>
   fst (pg_CreateResource env io net ro opts db) = fst (pg_CreateResource env io all_served ro opts db)"
proof (cases "net 0 = Served \<and> net 1 = Served \<and> net 2 = Served")
  case True
  then show ?thesis by (simp add: pg_CreateResource_def served_cases split: option.split sum.split)
next
  case False
  then have "net 0 \<noteq> Served \<or> net 1 \<noteq> Served \<or> net 2 \<noteq> Served" by blast
  then show ?thesis
    by (elim disjE) (auto simp: pg_CreateResource_def Let_def unserved split: option.splits sum.splits)
qed

lemma status_all_or_nothing:
  "fst (pg_UpdateStatus io net i p m o' db) = db \<or>
   fst (pg_UpdateStatus io net i p m o' db) = fst (pg_UpdateStatus io all_served i p m o' db)"
proof (cases "net 0 = Served \<and> net 1 = Served \<and> net 2 = Served \<and> net 3 = Served")
  case True
  then show ?thesis by (simp add: pg_UpdateStatus_def served_cases split: option.split sum.split)
next
  case False
  then have "net 0 \<noteq> Served \<or> net 1 \<noteq> Served \<or> net 2 \<noteq> Served \<or> net 3 \<noteq> Served" by blast
  then show ?thesis
    by (elim disjE) (auto simp: pg_UpdateStatus_def Let_def only_error_def unserved split: sum.splits)
qed

lemma delete_all_or_nothing:
  "fst (pg_DeleteResource io net i o' db) = db \<or>
   fst (pg_DeleteResource io net i o' db) = fst (pg_DeleteResource io all_served i o' db)"
proof (cases "net 0 = Served \<and> net 1 = Served \<and> net 2 = Served \<and> net 3 = Served")
  case True
  then show ?thesis by (simp add: pg_DeleteResource_def served_cases split: option.split sum.split)
next
  case False
  then have "net 0 \<noteq> Served \<or> net 1 \<noteq> Served \<or> net 2 \<noteq> Served \<or> net 3 \<noteq> Served" by blast
  then show ?thesis
    by (elim disjE) (auto simp: pg_DeleteResource_def Let_def only_error_def unserved split: sum.splits)
qed

lemma audit_all_or_nothing:
  "fst (pg_AppendAudit io net e db) = db \<or> fst (pg_AppendAudit io net e db) = fst (pg_AppendAudit io all_served e db)"
  by (cases "net 0") (auto simp: pg_AppendAudit_def all_served_def Let_def unserved split: sum.splits)

lemma write_all_or_nothing:
  assumes "net 2 = Served"
  shows "fst (pg_write_update io net i cur w o' db tx) = db \<or>
   fst (pg_write_update io net i cur w o' db tx) = fst (pg_write_update io all_served i cur w o' db tx)"
proof -
  let ?work = "w\<lparr>rGeneration := (if \<not> specLabelsEqual cur w then wrap64 (rGeneration cur + 1) else rGeneration cur),
     rUpdatedAt := (if \<not> specLabelsEqual cur w then nowMicro (ioNow io) else rUpdatedAt w)\<rparr>"
  let ?q = "query Served (i # tl (row_texts ?work)) (update_resource i (rGeneration cur) ?work tx)"
  note d = pg_write_update_def [of io _ i cur w o' db tx, unfolded Let_def]
  consider e where "?q = Inl e" | tx1 where "?q = Inr (0, tx1)" | n tx1 where "?q = Inr (Suc n, tx1)"
    by (metis old.nat.exhaust obj_sumE surj_pair)
  then show ?thesis
  proof cases
    case 1
    then show ?thesis by (simp add: d assms del: if_split)
  next
    case 2
    then show ?thesis by (simp add: d assms del: if_split split: sum.split)
  next
    case 3
    have dn: "pg_write_update io nt i cur w o' db tx =
        (case (if \<not> specLabelsEqual cur w
               then insertAudit (nt 4) (auditFor io (or_actor ''anonymous'' (uWrite o')) ''updated'' ?work (nowMicro (ioNow io))) tx1
               else Inr tx1) of
           Inl e \<Rightarrow> (db, Inl (ErrOther (''pgstore: update audit: '' @ sql_text e)))
         | Inr tx2 \<Rightarrow> commit (nt 5) db tx2 ''pgstore: update commit: '' (DeepCopy ?work))" if "nt 2 = Served" for nt
      using 3 that by (simp add: d del: if_split)
    have rhs: "all_served 2 = Served" "all_served 4 = Served" "all_served 5 = Served"
      by (simp_all add: all_served_def)
    show ?thesis
    proof (cases "net 4 = Served")
      case True
      show ?thesis
        by (subst (1 2) dn [of net, OF assms], subst dn [of all_served, OF rhs(1)], unfold True rhs,
            simp add: unserved_commit split: sum.split)
    next
      case False
      show ?thesis
        by (subst (1 2) dn [of net, OF assms], subst dn [of all_served, OF rhs(1)], unfold rhs,
            simp add: False unserved unserved_commit split: sum.split)
    qed
  qed
qed

lemma unserved_write: "net 2 \<noteq> Served \<Longrightarrow> fst (pg_write_update io net i cur w o' db tx) = db"
  by (simp add: pg_write_update_def Let_def unserved)

lemma update_all_or_nothing:
  "fst (pg_UpdateResource env io net i fn o' db) = db \<or>
   fst (pg_UpdateResource env io net i fn o' db) = fst (pg_UpdateResource env io all_served i fn o' db)"
proof (cases "net 0 = Served \<and> net 1 = Served \<and> net 2 = Served")
  case True
  then have s: "net 0 = Served" "net 1 = Served" "net 2 = Served" by auto
  show ?thesis using s(1,2) write_all_or_nothing [of net, OF s(3)]
    by (simp add: pg_UpdateResource_def all_served_def split: option.split sum.split)
next
  case False
  then have "net 0 \<noteq> Served \<or> net 1 \<noteq> Served \<or> net 2 \<noteq> Served" by blast
  then show ?thesis
    by (elim disjE) (auto simp: pg_UpdateResource_def unserved unserved_write split: option.splits sum.splits)
qed

end
