(* ===== verification/PgStore_Props.thy ===== *)
theory PgStore_Props
  imports PgStore_Laws Samples Reconcile
begin

text \<open>Properties of the PostgreSQL store.\<close>

section \<open>Refinement of the in-memory store\<close>

definition pg_run :: "egress_env \<Rightarrow> store_op list \<Rightarrow> pg_db" where
  "pg_run env ps = fold (pg_apply_op env) ps pg_empty"

definition memory_run :: "egress_env \<Rightarrow> (int \<Rightarrow> int) option list \<Rightarrow> store_op list \<Rightarrow> store" where
  "memory_run env opts ps = fold (\<lambda>p. apply_op env (micro_op p)) ps (NewStore opts)"

definition ex_run :: "store_op list" where
  "ex_run =
     [OpCreate (ex_io 1) (Some (ex_node ''web'' 1)) ex_opts, OpStatus (ex_io 2) ''r-01'' ''Ready'' ''up'' ex_opts,
      OpDelete (ex_io 3) ''r-09'' ex_opts]"


definition ex_mem1 :: store where
  "ex_mem1 = fst (CreateResource ex_env (micro_io (ex_io 1)) (Some (ex_node ''web'' 1)) ex_opts (NewStore []))"

definition ex_mem2 :: store where
  "ex_mem2 = fst (UpdateStatus (micro_io (ex_io 2)) ''r-01'' ''Ready'' ''up'' ex_opts ex_mem1)"

lemma ex_run_admissible: "admissible (pg_op_ok ex_env) (\<lambda>p. apply_op ex_env (micro_op p)) ex_run (NewStore [])"
proof -
  have "storable (pg_stored (ex_io 1) (ex_node ''web'' 1))" "text_ok (wActor ex_opts)"
    "map_of (byID (NewStore [])) (newID (ioRand (ex_io 1))) = None" "audit_room (newAuditID (ioAuditRand (ex_io 1))) (NewStore [])"
    by code_simp+
  moreover have "audit_room (newAuditID (ioAuditRand (ex_io 2))) ex_mem1" "audit_room (newAuditID (ioAuditRand (ex_io 3))) ex_mem2"
    by code_simp+
  moreover have "text_ok ''r-01''" "text_ok ''Ready''" "text_ok ''up''" "text_ok ''r-09''" by code_simp+
  ultimately show ?thesis using ex_wf(1) by (simp add: ex_run_def ex_mem1_def ex_mem2_def)
qed


section \<open>Failures of the server\<close>


section \<open>Clamped messages\<close>

definition long_message :: string where
  "long_message = replicate 511 CHR ''x'' @ [CHR 0xC3, CHR 0xA9]"

lemma utf8_replicate: "valid_utf8 (replicate n CHR ''x'' @ s) = valid_utf8 s"
  by (induction n) (simp_all add: utf8_next.simps byte_def)

lemma long_message_text: "text_ok long_message"
proof -
  have "valid_utf8 [CHR 0xC3, CHR 0xA9]" by code_simp
  then show ?thesis by (auto simp: text_ok_def long_message_def utf8_replicate)
qed

lemma long_message_clamped: "\<not> text_ok (clampMessage long_message)"
proof -
  have "clampMessage long_message = replicate 511 CHR ''x'' @ [CHR 0xC3, CHR 0xE2, CHR 0x80, CHR 0xA6]"
    by (simp add: clampMessage_def long_message_def TrimSuffix_def HasSuffix_def)
  moreover have "\<not> valid_utf8 [CHR 0xC3, CHR 0xE2, CHR 0x80, CHR 0xA6]" by code_simp
  ultimately show ?thesis by (simp add: text_ok_def utf8_replicate)
qed

lemma status_text_refused:
  assumes "\<not> text_ok msg"
  shows "fst (pg_UpdateStatus io net i phase msg opts db) = db \<and> snd (pg_UpdateStatus io net i phase msg opts db) \<noteq> None"
  using assms by (auto simp: pg_UpdateStatus_def only_error_def query_def Let_def split: step.splits sum.splits)

text \<open>C10: clamping a status message cuts it after 512 bytes, not between characters. A message of
  511 one-byte characters and one of two bytes is text before and not after, so the PostgreSQL
  store refuses every status with it, while the in-memory store records it: the phase such a message goes
  with is never stored.\<close>

theorem clamped_status_refused:
  "text_ok long_message \<and>
   fst (pg_UpdateStatus io net i phase (clampMessage long_message) opts db) = db \<and>
   snd (pg_UpdateStatus io net i phase (clampMessage long_message) opts db) \<noteq> None \<and>
   (snd (UpdateStatus io i phase (clampMessage long_message) opts s) = None) = (map_of (byID s) i \<noteq> None)"
  using long_message_text status_text_refused [OF long_message_clamped]
  by (auto simp: UpdateStatus_def Let_def split: option.split)

end
