(* ===== verification/Spec2Isabelle.thy ===== *)
theory Spec2Isabelle
  imports Store_Props Authz_Props Bus_Props Reconcile_Props Webhook_Props Api_Props Docker_Props PgStore_Props
begin

text \<open>
  \<^bold>\<open>Ryvex control plane: a verification development.\<close>

  Ryvex is a declarative control plane in Go. Users declare resources; the daemon stores them
  (\<^verbatim>\<open>internal/state\<close>), announces changes on an event bus (\<^verbatim>\<open>internal/bus\<close>), drives them to their desired
  state (\<^verbatim>\<open>internal/reconcile\<close>, through the actuators of \<^verbatim>\<open>internal/provider\<close>), delivers events to webhooks
  (\<^verbatim>\<open>internal/webhook\<close>) and authorises callers by managed keys, which are resources themselves
  (\<^verbatim>\<open>internal/authz\<close>).

  \<^bold>\<open>How the code is modelled.\<close> A Go struct is a record, a map an association list with distinct keys, a slice a
  list, an error a value of \<open>go_error\<close> or of an option, an \<open>int64\<close> an \<open>int\<close> with \<open>wrap64\<close> where it may
  overflow, a \<open>uint64\<close> a \<open>64 word\<close>, a string a list of bytes. A method that holds its mutex throughout is
  one function on the state; clock and random readings are arguments (\<open>io\<close>), as are the resolver, the HTTP
  client and the providers. A loop that could run for ever is a \<open>partial_function\<close> whose value \<open>None\<close> is
  shown not to occur (\<open>page_loop\<close>).

  \<^bold>\<open>Theories.\<close>

  \<^item> \<open>Prelude\<close>, \<open>Json\<close>, \<open>Cursor\<close>, \<open>Go_Net\<close>, \<open>Go_Fmt\<close>, \<open>Sha256\<close>: what the sources use of Go's library (strings,
    numbers, \<open>encoding/json\<close> with its round trip, base64 and the cursor tokens of \<^verbatim>\<open>cursor.go\<close>, \<open>net/url\<close> and
    \<open>net.ParseIP\<close>, RFC 3339 times and \<open>%q\<close>, SHA-256 and HMAC).
  \<^item> \<open>Resource\<close>, \<open>ApiKey\<close>, \<open>Subscription\<close>: the data model and validation of \<^verbatim>\<open>resource.go\<close>, \<^verbatim>\<open>apikey.go\<close>,
    \<^verbatim>\<open>subscription.go\<close>. \<open>Store\<close>: every method of \<^verbatim>\<open>store.go\<close>.
  \<^item> \<open>Bounded_Log\<close> and \<open>Paging\<close>: the interfaces of the library, as locales. \<open>bounded_log\<close> is interpreted by the
    audit ring (\<open>Store_Laws\<close>) and by the bus's replay ring (\<open>Bus_Laws\<close>); \<open>paged_listing\<close> by the store's
    listing (\<open>Store_Laws\<close>), and used by the key cache, the reconciler's scan and the dispatcher.
  \<^item> \<open>Authz\<close>, \<open>Bus\<close>, \<open>Provider\<close>, \<open>Retry\<close>, \<open>Reconcile\<close>, \<open>Webhook\<close>: one component each, with the names of the code.
  \<^item> \<open>..._Laws\<close>: the invariants and lemmas of a component. \<open>..._Props\<close>: its properties, each with a witness at a
    concrete input (built in \<open>Samples\<close>).

  \<^bold>\<open>What is shown.\<close> Store: an invariant of all reachable stores; no lost conditional write; exact generation
  bumps; nothing changes unaudited; the audit ring refines a bounded log; cursor walks terminate and are
  complete. Authorisation: access implies a stored active key that grants it, and decisions equal the
  documented rule after a refresh. Bus: the matcher equals its grammar; exactly-once hand-out; replay.
  Reconciler: it only ever writes status; convergence; retry budget and backoff; scan and drift are exact.
  Webhooks: the egress guard, delivery and retry behaviour on every outcome, fan-out and refresh.

  \<^bold>\<open>Bounds.\<close> A listing's cursor holds an offset up to \<open>2^31 - 1\<close>, so walks are complete for at most that many
  matches (\<open>mem_fits\<close>); the scan reads at most 10000 pages of 200 (\<open>maxScanPages\<close>), the bound of \<open>scan_exact\<close>.
  Backoffs do not overflow up to base delays of \<open>2^42\<close> nanoseconds.

  \<^bold>\<open>Not modelled.\<close> Logging, metrics and spans; goroutine scheduling inside one operation (operations are atomic
  steps, deliveries see a view that may change between attempts); the PostgreSQL store and the NATS bus,
  whose behaviour is that of their servers; the daemon's wiring, the CLI and the test suites.
\<close>

end
